theory Spec2Isabelle
  imports Complex_Main "HOL-Library.AList" "HOL-Library.Stream" "HOL-Library.Signed_Division"
begin

section \<open>Cube coordinate model (types)\<close>

text \<open>
  The six faces of the cube (\<^verbatim>\<open>enum CubeFace\<close>) and the four edges of a face
  (\<^verbatim>\<open>type EdgeDirection = 'top' | 'bottom' | 'left' | 'right'\<close>; the constructors
  carry an \<open>E\<close> so that they do not clash with the faces \<open>TOP\<close>, \<open>LEFT\<close>, ...).
\<close>

datatype CubeFace = TOP | BOTTOM | FRONT | BACK | LEFT | RIGHT

datatype EdgeDirection = ETop | EBottom | ELeft | ERight

text \<open>
  \<^verbatim>\<open>interface CubePosition { face; x; y }\<close>. Coordinates are JavaScript numbers that
  only ever hold integers; they are modelled as unbounded \<open>int\<close>. The fields are
  prefixed (\<open>px\<close>, \<open>py\<close>) because a record field is a global constant.
\<close>

record CubePosition =
  face :: CubeFace
  px :: int
  py :: int

record EdgeTransition =
  fromFace :: CubeFace
  toFace :: CubeFace
  fromEdge :: EdgeDirection
  toEdge :: EdgeDirection
  flipX :: bool
  flipY :: bool
  rotationOffset :: int

text \<open>A movement delta \<^verbatim>\<open>{ dx, dy }\<close>.\<close>

record Delta =
  dx :: int
  dy :: int

section \<open>Edge transition table\<close>

text \<open>\<open>mkT\<close> builds one table row; its arguments follow the field order of the source's object literals.\<close>

definition mkT ::
  "CubeFace \<Rightarrow> CubeFace \<Rightarrow> EdgeDirection \<Rightarrow> EdgeDirection \<Rightarrow> bool \<Rightarrow> bool \<Rightarrow> int \<Rightarrow> EdgeTransition" where
  "mkT ff tf fe te fx fy r =
     \<lparr>fromFace = ff, toFace = tf, fromEdge = fe, toEdge = te, flipX = fx, flipY = fy,
      rotationOffset = r\<rparr>"

definition EDGE_TRANSITIONS :: "EdgeTransition list" where
  "EDGE_TRANSITIONS =
   [ mkT FRONT TOP ETop EBottom False False 0,
     mkT FRONT BOTTOM EBottom ETop False False 0,
     mkT FRONT LEFT ELeft ERight False False 0,
     mkT FRONT RIGHT ERight ELeft False False 0,

     mkT BACK TOP ETop ETop True False 180,
     mkT BACK BOTTOM EBottom EBottom True False 180,
     mkT BACK RIGHT ELeft ERight False False 0,
     mkT BACK LEFT ERight ELeft False False 0,

     mkT LEFT TOP ETop ELeft False True (-90),
     mkT LEFT BOTTOM EBottom ELeft False False 90,
     mkT LEFT BACK ELeft ERight False False 0,
     mkT LEFT FRONT ERight ELeft False False 0,

     mkT RIGHT TOP ETop ERight False False 90,
     mkT RIGHT BOTTOM EBottom ERight False True (-90),
     mkT RIGHT FRONT ELeft ERight False False 0,
     mkT RIGHT BACK ERight ELeft False False 0,

     mkT TOP BACK ETop ETop True False 180,
     mkT TOP FRONT EBottom ETop False False 0,
     mkT TOP LEFT ELeft ETop False True 90,
     mkT TOP RIGHT ERight ETop False False (-90),

     mkT BOTTOM FRONT ETop EBottom False False 0,
     mkT BOTTOM BACK EBottom EBottom True False 180,
     mkT BOTTOM LEFT ELeft EBottom False False (-90),
     mkT BOTTOM RIGHT ERight EBottom False True 90 ]"

text \<open>
  \<^verbatim>\<open>EDGE_TRANSITIONS.find(t => t.fromFace === fromFace && t.fromEdge === edge) || null\<close>:
  the first matching entry, \<open>None\<close> for \<^verbatim>\<open>null\<close>.
\<close>

definition getEdgeTransition :: "CubeFace \<Rightarrow> EdgeDirection \<Rightarrow> EdgeTransition option" where
  "getEdgeTransition f edge =
     find (\<lambda>t. fromFace t = f \<and> fromEdge t = edge) EDGE_TRANSITIONS"

definition getEdgeAtPosition :: "CubePosition \<Rightarrow> int \<Rightarrow> EdgeDirection option" where
  "getEdgeAtPosition position gridSize =
     (if py position = gridSize - 1 then Some ETop
      else if py position = 0 then Some EBottom
      else if px position = 0 then Some ELeft
      else if px position = gridSize - 1 then Some ERight
      else None)"

definition getEdgeForDirection :: "CubePosition \<Rightarrow> Delta \<Rightarrow> int \<Rightarrow> EdgeDirection option" where
  "getEdgeForDirection position direction gridSize =
     (let newX = px position + dx direction;
          newY = py position + dy direction
      in if newY \<ge> gridSize then Some ETop
         else if newY < 0 then Some EBottom
         else if newX < 0 then Some ELeft
         else if newX \<ge> gridSize then Some ERight
         else None)"

text \<open>
  \<^verbatim>\<open>transformPositionAcrossEdge\<close>: \<open>None\<close> is the source's \<^verbatim>\<open>null\<close> (no transition
  found). The two \<^verbatim>\<open>console.log\<close> calls have no effect on the result.
\<close>

definition transformPositionAcrossEdge ::
  "CubePosition \<Rightarrow> Delta \<Rightarrow> int \<Rightarrow> CubePosition option" where
  "transformPositionAcrossEdge position direction gridSize =
     (case getEdgeForDirection position direction gridSize of
        None \<Rightarrow>
          Some \<lparr>face = face position, px = px position + dx direction,
                py = py position + dy direction\<rparr>
      | Some edge \<Rightarrow>
          (case getEdgeTransition (face position) edge of
             None \<Rightarrow> None
           | Some transition \<Rightarrow>
               (let edgeCoord = (if edge = ETop \<or> edge = EBottom then px position else py position);
                    transformedCoord =
                      (if flipX transition \<or> flipY transition then gridSize - 1 - edgeCoord
                       else edgeCoord)
                in Some (case toEdge transition of
                     ETop \<Rightarrow> \<lparr>face = toFace transition, px = transformedCoord, py = gridSize - 1\<rparr>
                   | EBottom \<Rightarrow> \<lparr>face = toFace transition, px = transformedCoord, py = 0\<rparr>
                   | ELeft \<Rightarrow> \<lparr>face = toFace transition, px = 0, py = transformedCoord\<rparr>
                   | ERight \<Rightarrow> \<lparr>face = toFace transition, px = gridSize - 1, py = transformedCoord\<rparr>))))"

text \<open>\<^verbatim>\<open>movePosition\<close>: \<^verbatim>\<open>result || position\<close> falls back to the input position.\<close>

definition movePosition :: "CubePosition \<Rightarrow> Delta \<Rightarrow> int \<Rightarrow> CubePosition" where
  "movePosition position direction gridSize =
     (let newX = px position + dx direction;
          newY = py position + dy direction
      in if newX \<ge> 0 \<and> newX < gridSize \<and> newY \<ge> 0 \<and> newY < gridSize
         then \<lparr>face = face position, px = newX, py = newY\<rparr>
         else (case transformPositionAcrossEdge position direction gridSize of
                 Some result \<Rightarrow> result
               | None \<Rightarrow> position))"

text \<open>\<^verbatim>\<open>positionsEqual\<close>: structural equality of positions.\<close>

definition positionsEqual :: "CubePosition \<Rightarrow> CubePosition \<Rightarrow> bool" where
  "positionsEqual a b \<longleftrightarrow> face a = face b \<and> px a = px b \<and> py a = py b"

text \<open>A position is legal when both coordinates lie in \<open>[0, gridSize)\<close>.\<close>

definition validPosition :: "CubePosition \<Rightarrow> int \<Rightarrow> bool" where
  "validPosition p gridSize \<longleftrightarrow> 0 \<le> px p \<and> px p < gridSize \<and> 0 \<le> py p \<and> py p < gridSize"

text \<open>The four one-step orthogonal deltas.\<close>

definition unitDeltas :: "Delta list" where
  "unitDeltas = [\<lparr>dx = 0, dy = 1\<rparr>, \<lparr>dx = 0, dy = -1\<rparr>, \<lparr>dx = 1, dy = 0\<rparr>, \<lparr>dx = -1, dy = 0\<rparr>]"

definition allFaces :: "CubeFace list" where
  "allFaces = [TOP, BOTTOM, FRONT, BACK, LEFT, RIGHT]"

definition allEdges :: "EdgeDirection list" where
  "allEdges = [ETop, EBottom, ELeft, ERight]"

section \<open>Facts about the transition table\<close>

lemma positionsEqual_iff: "positionsEqual a b \<longleftrightarrow> a = b"
  by (auto simp: positionsEqual_def)

lemma getEdgeTransition_FRONT:
  "getEdgeTransition FRONT ETop = Some (mkT FRONT TOP ETop EBottom False False 0)"
  "getEdgeTransition FRONT EBottom = Some (mkT FRONT BOTTOM EBottom ETop False False 0)"
  "getEdgeTransition FRONT ELeft = Some (mkT FRONT LEFT ELeft ERight False False 0)"
  "getEdgeTransition FRONT ERight = Some (mkT FRONT RIGHT ERight ELeft False False 0)"
  by (simp_all add: getEdgeTransition_def EDGE_TRANSITIONS_def mkT_def)

lemma getEdgeTransition_BACK:
  "getEdgeTransition BACK ETop = Some (mkT BACK TOP ETop ETop True False 180)"
  "getEdgeTransition BACK EBottom = Some (mkT BACK BOTTOM EBottom EBottom True False 180)"
  "getEdgeTransition BACK ELeft = Some (mkT BACK RIGHT ELeft ERight False False 0)"
  "getEdgeTransition BACK ERight = Some (mkT BACK LEFT ERight ELeft False False 0)"
  by (simp_all add: getEdgeTransition_def EDGE_TRANSITIONS_def mkT_def)

lemma getEdgeTransition_LEFT:
  "getEdgeTransition LEFT ETop = Some (mkT LEFT TOP ETop ELeft False True (-90))"
  "getEdgeTransition LEFT EBottom = Some (mkT LEFT BOTTOM EBottom ELeft False False 90)"
  "getEdgeTransition LEFT ELeft = Some (mkT LEFT BACK ELeft ERight False False 0)"
  "getEdgeTransition LEFT ERight = Some (mkT LEFT FRONT ERight ELeft False False 0)"
  by (simp_all add: getEdgeTransition_def EDGE_TRANSITIONS_def mkT_def)

lemma getEdgeTransition_RIGHT:
  "getEdgeTransition RIGHT ETop = Some (mkT RIGHT TOP ETop ERight False False 90)"
  "getEdgeTransition RIGHT EBottom = Some (mkT RIGHT BOTTOM EBottom ERight False True (-90))"
  "getEdgeTransition RIGHT ELeft = Some (mkT RIGHT FRONT ELeft ERight False False 0)"
  "getEdgeTransition RIGHT ERight = Some (mkT RIGHT BACK ERight ELeft False False 0)"
  by (simp_all add: getEdgeTransition_def EDGE_TRANSITIONS_def mkT_def)

lemma getEdgeTransition_TOP:
  "getEdgeTransition TOP ETop = Some (mkT TOP BACK ETop ETop True False 180)"
  "getEdgeTransition TOP EBottom = Some (mkT TOP FRONT EBottom ETop False False 0)"
  "getEdgeTransition TOP ELeft = Some (mkT TOP LEFT ELeft ETop False True 90)"
  "getEdgeTransition TOP ERight = Some (mkT TOP RIGHT ERight ETop False False (-90))"
  by (simp_all add: getEdgeTransition_def EDGE_TRANSITIONS_def mkT_def)

lemma getEdgeTransition_BOTTOM:
  "getEdgeTransition BOTTOM ETop = Some (mkT BOTTOM FRONT ETop EBottom False False 0)"
  "getEdgeTransition BOTTOM EBottom = Some (mkT BOTTOM BACK EBottom EBottom True False 180)"
  "getEdgeTransition BOTTOM ELeft = Some (mkT BOTTOM LEFT ELeft EBottom False False (-90))"
  "getEdgeTransition BOTTOM ERight = Some (mkT BOTTOM RIGHT ERight EBottom False True 90)"
  by (simp_all add: getEdgeTransition_def EDGE_TRANSITIONS_def mkT_def)

lemmas getEdgeTransition_table =
  getEdgeTransition_FRONT getEdgeTransition_BACK getEdgeTransition_LEFT
  getEdgeTransition_RIGHT getEdgeTransition_TOP getEdgeTransition_BOTTOM


lemma face_cases6: "f = TOP \<or> f = BOTTOM \<or> f = FRONT \<or> f = BACK \<or> f = LEFT \<or> f = RIGHT"
  by (cases f) simp_all

lemma edge_cases4: "e = ETop \<or> e = EBottom \<or> e = ELeft \<or> e = ERight"
  by (cases e) simp_all

lemma getEdgeTransition_total:
  "\<exists>t. getEdgeTransition f e = Some t \<and> fromFace t = f \<and> fromEdge t = e"
  by (cases f; cases e) (simp_all add: getEdgeTransition_table mkT_def)

lemma edge_table_unique:
  "length (filter (\<lambda>t. fromFace t = f \<and> fromEdge t = e) EDGE_TRANSITIONS) = 1"
  by (cases f; cases e) (simp_all add: EDGE_TRANSITIONS_def mkT_def)

lemma edge_table_inverse:
  "\<exists>t t'. getEdgeTransition f e = Some t \<and> getEdgeTransition (toFace t) (toEdge t) = Some t'
     \<and> toFace t' = f \<and> toEdge t' = e \<and> (flipX t' \<or> flipY t') = (flipX t \<or> flipY t)"
  by (cases f; cases e) (simp_all add: getEdgeTransition_table mkT_def)

lemma edge_table_entries:
  "t \<in> set EDGE_TRANSITIONS \<Longrightarrow> getEdgeTransition (fromFace t) (fromEdge t) = Some t"
  unfolding EDGE_TRANSITIONS_def
  by (auto simp: getEdgeTransition_table mkT_def)

section \<open>Edge-transition closure\<close>

text \<open>
  Claim C1. The table has 24 entries, exactly one for every (face, edge) pair, so that
  \<open>getEdgeTransition f e\<close> returns a transition leaving \<open>f\<close> by \<open>e\<close> for all six
  faces and four edges; and it is inverse-consistent: for every entry \<open>t\<close> of the table,
  the entry for \<open>(toFace t, toEdge t)\<close> leads back to \<open>fromFace t\<close>, entering it by
  \<open>fromEdge t\<close>.
\<close>

theorem edge_transition_closure:
  "length EDGE_TRANSITIONS = 24 \<and>
   (\<forall>f e. length (filter (\<lambda>t. fromFace t = f \<and> fromEdge t = e) EDGE_TRANSITIONS) = 1) \<and>
   (\<forall>f e. \<exists>t. getEdgeTransition f e = Some t \<and> fromFace t = f \<and> fromEdge t = e) \<and>
   (\<forall>t \<in> set EDGE_TRANSITIONS.
      \<exists>t'. getEdgeTransition (toFace t) (toEdge t) = Some t' \<and>
           toFace t' = fromFace t \<and> toEdge t' = fromEdge t)"
proof (intro conjI allI ballI)
  show "length EDGE_TRANSITIONS = 24"
    by (simp add: EDGE_TRANSITIONS_def)
next
  fix f e
  show "length (filter (\<lambda>t. fromFace t = f \<and> fromEdge t = e) EDGE_TRANSITIONS) = 1"
    by (rule edge_table_unique)
  show "\<exists>t. getEdgeTransition f e = Some t \<and> fromFace t = f \<and> fromEdge t = e"
    by (rule getEdgeTransition_total)
next
  fix t assume t: "t \<in> set EDGE_TRANSITIONS"
  obtain u u' where u: "getEdgeTransition (fromFace t) (fromEdge t) = Some u"
    and u': "getEdgeTransition (toFace u) (toEdge u) = Some u'"
      "toFace u' = fromFace t" "toEdge u' = fromEdge t"
    using edge_table_inverse [of "fromFace t" "fromEdge t"] by blast
  from u edge_table_entries [OF t] have "u = t" by simp
  with u' show "\<exists>t'. getEdgeTransition (toFace t) (toEdge t) = Some t' \<and>
           toFace t' = fromFace t \<and> toEdge t' = fromEdge t"
    by blast
qed

theorem edge_transition_closure_witness:
  "mkT LEFT TOP ETop ELeft False True (-90) \<in> set EDGE_TRANSITIONS \<and>
   (\<exists>t'. getEdgeTransition TOP ELeft = Some t' \<and> toFace t' = LEFT \<and> toEdge t' = ETop)"
proof -
  have m: "mkT LEFT TOP ETop ELeft False True (-90) \<in> set EDGE_TRANSITIONS"
    by (simp add: EDGE_TRANSITIONS_def)
  from edge_transition_closure m
  have "\<exists>t'. getEdgeTransition (toFace (mkT LEFT TOP ETop ELeft False True (-90)))
               (toEdge (mkT LEFT TOP ETop ELeft False True (-90))) = Some t' \<and>
             toFace t' = fromFace (mkT LEFT TOP ETop ELeft False True (-90)) \<and>
             toEdge t' = fromEdge (mkT LEFT TOP ETop ELeft False True (-90))"
    by blast
  then show ?thesis using m by (simp add: mkT_def)
qed

section \<open>movePosition: totality and one-hop round trip\<close>

lemma unitDeltas_cases:
  "d \<in> set unitDeltas \<Longrightarrow>
     (dx d = 0 \<and> dy d = 1) \<or> (dx d = 0 \<and> dy d = -1) \<or> (dx d = 1 \<and> dy d = 0) \<or> (dx d = -1 \<and> dy d = 0)"
  by (auto simp: unitDeltas_def)

lemma transformPositionAcrossEdge_valid:
  assumes "validPosition p g" "d \<in> set unitDeltas"
  shows "\<exists>q. transformPositionAcrossEdge p d g = Some q \<and> validPosition q g"
proof -
  obtain f :: CubeFace where f: "face p = f" by simp
  from unitDeltas_cases [OF assms(2)] assms(1) show ?thesis
    using face_cases6 [of f] f
    by (auto simp: transformPositionAcrossEdge_def getEdgeForDirection_def validPosition_def
        getEdgeTransition_table mkT_def Let_def)
qed

text \<open>
  Claim C2. For every legal position and each of the four one-step orthogonal deltas,
  \<open>movePosition\<close> returns a legal position (both coordinates again in \<open>[0, gridSize)\<close>);
  the edge crossing underneath never yields \<^verbatim>\<open>null\<close>, so the result is the moved
  position and never the fallback.
\<close>

theorem movePosition_total:
  "validPosition p g \<Longrightarrow> d \<in> set unitDeltas \<Longrightarrow>
     validPosition (movePosition p d g) g \<and>
     transformPositionAcrossEdge p d g = Some (movePosition p d g)"
proof -
  assume v: "validPosition p g" and d: "d \<in> set unitDeltas"
  obtain q where q: "transformPositionAcrossEdge p d g = Some q" "validPosition q g"
    using transformPositionAcrossEdge_valid [OF v d] by blast
  show ?thesis
  proof (cases "px p + dx d \<ge> 0 \<and> px p + dx d < g \<and> py p + dy d \<ge> 0 \<and> py p + dy d < g")
    case True
    then show ?thesis
      by (simp add: movePosition_def transformPositionAcrossEdge_def getEdgeForDirection_def
          validPosition_def Let_def)
  next
    case False
    have "movePosition p d g = q"
      using q False by (auto simp add: movePosition_def Let_def)
    with q show ?thesis by simp
  qed
qed

theorem movePosition_total_witness:
  "validPosition \<lparr>face = LEFT, px = 3, py = 7\<rparr> 8 \<and> \<lparr>dx = 0, dy = 1\<rparr> \<in> set unitDeltas \<and>
   validPosition (movePosition \<lparr>face = LEFT, px = 3, py = 7\<rparr> \<lparr>dx = 0, dy = 1\<rparr> 8) 8 \<and>
   movePosition \<lparr>face = LEFT, px = 3, py = 7\<rparr> \<lparr>dx = 0, dy = 1\<rparr> 8 = \<lparr>face = TOP, px = 0, py = 4\<rparr>"
proof -
  have v: "validPosition \<lparr>face = LEFT, px = 3, py = 7\<rparr> 8"
    by (simp add: validPosition_def)
  have d: "\<lparr>dx = 0, dy = 1\<rparr> \<in> set unitDeltas"
    by (simp add: unitDeltas_def)
  have e: "movePosition \<lparr>face = LEFT, px = 3, py = 7\<rparr> \<lparr>dx = 0, dy = 1\<rparr> 8 = \<lparr>face = TOP, px = 0, py = 4\<rparr>"
    by (simp add: movePosition_def transformPositionAcrossEdge_def getEdgeForDirection_def
        getEdgeTransition_table mkT_def Let_def)
  from movePosition_total [OF v d] v d e show ?thesis by simp
qed



lemma movePosition_cross:
  "\<not> (px p + dx d \<ge> 0 \<and> px p + dx d < g \<and> py p + dy d \<ge> 0 \<and> py p + dy d < g) \<Longrightarrow>
     movePosition p d g =
       (case transformPositionAcrossEdge p d g of Some r \<Rightarrow> r | None \<Rightarrow> p)"
  by (auto simp add: movePosition_def Let_def)
















section \<open>Position keys\<close>

text \<open>
  The string value of each face (\<^verbatim>\<open>TOP = 'top'\<close>, ...), and the decimal rendering of an
  integer that a template literal produces.
\<close>

fun faceName :: "CubeFace \<Rightarrow> string" where
  "faceName TOP = ''top''"
| "faceName BOTTOM = ''bottom''"
| "faceName FRONT = ''front''"
| "faceName BACK = ''back''"
| "faceName LEFT = ''left''"
| "faceName RIGHT = ''right''"

definition digitChar :: "nat \<Rightarrow> char" where
  "digitChar n = char_of (48 + n)"

fun showNat :: "nat \<Rightarrow> string" where
  "showNat n = (if n < 10 then [digitChar n] else showNat (n div 10) @ [digitChar (n mod 10)])"

declare showNat.simps [simp del]

definition showInt :: "int \<Rightarrow> string" where
  "showInt i = (if i < 0 then CHR ''-'' # showNat (nat (- i)) else showNat (nat i))"

text \<open>\<^verbatim>\<open>posKey = (p) => `${p.face}-${p.x}-${p.y}`\<close>.\<close>

definition posKey :: "CubePosition \<Rightarrow> string" where
  "posKey p = faceName (face p) @ ''-'' @ showInt (px p) @ ''-'' @ showInt (py p)"

text \<open>Reading a digit string back, used to show that the rendering is injective.\<close>

definition digitVal :: "char \<Rightarrow> nat" where
  "digitVal c = of_char c - 48"

definition readNat :: "string \<Rightarrow> nat" where
  "readNat s = foldl (\<lambda>a c. 10 * a + digitVal c) 0 s"

lemma digitVal_digitChar: "n < 10 \<Longrightarrow> digitVal (digitChar n) = n"
  by (simp add: digitVal_def digitChar_def)

lemma digitChar_not_dash: "n < 10 \<Longrightarrow> digitChar n \<noteq> CHR ''-''"
proof
  assume n: "n < 10" and e: "digitChar n = CHR ''-''"
  then have "(of_char (digitChar n) :: nat) = of_char (CHR ''-'')" by simp
  with n show False by (simp add: digitChar_def)
qed

lemma readNat_showNat: "readNat (showNat n) = n"
proof (induction n rule: showNat.induct)
  case (1 n)
  show ?case
  proof (cases "n < 10")
    case True
    then show ?thesis
      by (simp add: showNat.simps [of n] readNat_def digitVal_digitChar)
  next
    case False
    with 1 have ih: "readNat (showNat (n div 10)) = n div 10" by simp
    have "readNat (showNat n) = 10 * readNat (showNat (n div 10)) + digitVal (digitChar (n mod 10))"
      using False by (simp add: showNat.simps [of n] readNat_def)
    also have "\<dots> = 10 * (n div 10) + n mod 10"
      by (simp add: ih digitVal_digitChar)
    finally show ?thesis by simp
  qed
qed

lemma showNat_inj: "showNat a = showNat b \<Longrightarrow> a = b"
  by (metis readNat_showNat)

lemma showNat_no_dash: "CHR ''-'' \<notin> set (showNat n)"
proof (induction n rule: showNat.induct)
  case (1 n)
  show ?case
  proof (cases "n < 10")
    case True
    then show ?thesis
      using digitChar_not_dash [of n] by (auto simp add: showNat.simps [of n])
  next
    case False
    with 1 have "CHR ''-'' \<notin> set (showNat (n div 10))" by simp
    moreover have "digitChar (n mod 10) \<noteq> CHR ''-''"
      by (rule digitChar_not_dash) simp
    ultimately show ?thesis
      using False by (auto simp add: showNat.simps [of n])
  qed
qed

lemma showNat_nonempty: "showNat n \<noteq> []"
  by (subst showNat.simps) simp

lemma showNat_hd_not_dash: "showNat n = c # r \<Longrightarrow> c \<noteq> CHR ''-''"
  using showNat_no_dash [of n] by auto

lemma split_at_sep:
  assumes "c \<notin> set u" "c \<notin> set v" "u @ c # r = v @ c # r'"
  shows "u = v \<and> r = r'"
proof -
  have "takeWhile (\<lambda>z. z \<noteq> c) (u @ c # r) = u"
    using assms(1) by (auto simp add: takeWhile_tail)
  moreover have "takeWhile (\<lambda>z. z \<noteq> c) (v @ c # r') = v"
    using assms(2) by (auto simp add: takeWhile_tail)
  ultimately have "u = v" using assms(3) by simp
  with assms(3) show ?thesis by simp
qed

lemma showInt_sep_inj:
  assumes "showInt a @ CHR ''-'' # r = showInt b @ CHR ''-'' # r'"
  shows "a = b \<and> r = r'"
proof (cases "a < 0")
  case an: True
  show ?thesis
  proof (cases "b < 0")
    case True
    with an assms have "showNat (nat (- a)) @ CHR ''-'' # r = showNat (nat (- b)) @ CHR ''-'' # r'"
      by (simp add: showInt_def)
    from split_at_sep [OF showNat_no_dash showNat_no_dash this]
    have "showNat (nat (- a)) = showNat (nat (- b))" "r = r'" by simp_all
    with showNat_inj an True show ?thesis by fastforce
  next
    case False
    obtain c s where cs: "showNat (nat b) = c # s"
      using showNat_nonempty [of "nat b"] by (cases "showNat (nat b)") auto
    with an False assms have "c = CHR ''-''" by (simp add: showInt_def)
    with showNat_hd_not_dash [OF cs] show ?thesis by simp
  qed
next
  case ap: False
  show ?thesis
  proof (cases "b < 0")
    case True
    obtain c s where cs: "showNat (nat a) = c # s"
      using showNat_nonempty [of "nat a"] by (cases "showNat (nat a)") auto
    with ap True assms have "c = CHR ''-''" by (simp add: showInt_def)
    with showNat_hd_not_dash [OF cs] show ?thesis by simp
  next
    case False
    with ap assms have "showNat (nat a) @ CHR ''-'' # r = showNat (nat b) @ CHR ''-'' # r'"
      by (simp add: showInt_def)
    from split_at_sep [OF showNat_no_dash showNat_no_dash this]
    have "showNat (nat a) = showNat (nat b)" "r = r'" by simp_all
    with showNat_inj ap False show ?thesis by fastforce
  qed
qed

lemma showInt_inj: "showInt a = showInt b \<Longrightarrow> a = b"
  using showInt_sep_inj [of a "[]" b "[]"] by simp

lemma faceName_no_dash: "CHR ''-'' \<notin> set (faceName f)"
  by (cases f) simp_all

lemma faceName_inj: "faceName f = faceName f' \<Longrightarrow> f = f'"
  by (cases f; cases f') simp_all

lemma posKey_inj: "posKey p = posKey q \<Longrightarrow> p = q"
proof -
  assume e: "posKey p = posKey q"
  then have "faceName (face p) @ CHR ''-'' # (showInt (px p) @ CHR ''-'' # showInt (py p))
           = faceName (face q) @ CHR ''-'' # (showInt (px q) @ CHR ''-'' # showInt (py q))"
    by (simp add: posKey_def)
  from split_at_sep [OF faceName_no_dash faceName_no_dash this]
  have f: "faceName (face p) = faceName (face q)"
    and r: "showInt (px p) @ CHR ''-'' # showInt (py p) = showInt (px q) @ CHR ''-'' # showInt (py q)"
    by simp_all
  from showInt_sep_inj [OF r] have "px p = px q" "showInt (py p) = showInt (py q)" by simp_all
  with faceName_inj [OF f] showInt_inj show ?thesis by (cases p; cases q) auto
qed

lemma posKey_eq_iff: "posKey p = posKey q \<longleftrightarrow> p = q"
  using posKey_inj by auto

subsection \<open>Parsing a key back\<close>

text \<open>
  \<^verbatim>\<open>parseKey\<close> on the keys that \<open>posKey\<close> makes from non-negative coordinates, which are
  all the keys that the games create: \<^verbatim>\<open>key.split('-')\<close>, the face part taken as a face, and
  \<^verbatim>\<open>parseInt\<close> of the two digit strings. \<open>None\<close> stands for every other string, where the
  source returns an unchecked face string or \<^verbatim>\<open>NaN\<close> coordinates.
\<close>

fun splitDashAcc :: "string \<Rightarrow> string \<Rightarrow> string list" where
  "splitDashAcc cur [] = [rev cur]"
| "splitDashAcc cur (c # cs) =
     (if c = CHR ''-'' then rev cur # splitDashAcc [] cs else splitDashAcc (c # cur) cs)"

definition splitDash :: "string \<Rightarrow> string list" where
  "splitDash key = splitDashAcc [] key"

definition isDigit :: "char \<Rightarrow> bool" where
  "isDigit c \<longleftrightarrow> 48 \<le> (of_char c :: nat) \<and> (of_char c :: nat) \<le> 57"

definition parseDigits :: "string \<Rightarrow> int option" where
  "parseDigits s = (if s \<noteq> [] \<and> list_all isDigit s then Some (int (readNat s)) else None)"

definition faceOfName :: "string \<Rightarrow> CubeFace option" where
  "faceOfName n = find (\<lambda>f. faceName f = n) allFaces"

definition parseKey :: "string \<Rightarrow> CubePosition option" where
  "parseKey key =
     (case splitDash key of
        f # x # y # _ \<Rightarrow>
          (case faceOfName f of
             None \<Rightarrow> None
           | Some f' \<Rightarrow>
               (case parseDigits x of
                  None \<Rightarrow> None
                | Some x' \<Rightarrow>
                    (case parseDigits y of
                       None \<Rightarrow> None
                     | Some y' \<Rightarrow> Some \<lparr>face = f', px = x', py = y'\<rparr>)))
      | _ \<Rightarrow> None)"

lemma splitDashAcc_sep:
  "CHR ''-'' \<notin> set u \<Longrightarrow> splitDashAcc cur (u @ CHR ''-'' # r) = (rev cur @ u) # splitDashAcc [] r"
  by (induction u arbitrary: cur) auto

lemma splitDashAcc_last:
  "CHR ''-'' \<notin> set u \<Longrightarrow> splitDashAcc cur u = [rev cur @ u]"
  by (induction u arbitrary: cur) auto

lemma isDigit_digitChar: "n < 10 \<Longrightarrow> isDigit (digitChar n)"
  by (simp add: isDigit_def digitChar_def)

lemma showNat_digits: "list_all isDigit (showNat n)"
proof (induction n rule: showNat.induct)
  case (1 n)
  show ?case
  proof (cases "n < 10")
    case True
    then show ?thesis by (simp add: showNat.simps [of n] isDigit_digitChar)
  next
    case False
    with 1 have "list_all isDigit (showNat (n div 10))" by simp
    with False show ?thesis by (simp add: showNat.simps [of n] isDigit_digitChar)
  qed
qed

lemma parseDigits_showNat: "parseDigits (showNat n) = Some (int n)"
  by (simp add: parseDigits_def showNat_nonempty showNat_digits readNat_showNat)

lemma faceOfName_faceName: "faceOfName (faceName f) = Some f"
  by (cases f) (simp_all add: faceOfName_def allFaces_def)

lemma parseKey_posKey:
  assumes "0 \<le> px p" "0 \<le> py p"
  shows "parseKey (posKey p) = Some p"
proof -
  have "posKey p = faceName (face p) @ CHR ''-'' # (showNat (nat (px p)) @ CHR ''-'' # showNat (nat (py p)))"
    using assms by (simp add: posKey_def showInt_def)
  then have "splitDash (posKey p) = [faceName (face p), showNat (nat (px p)), showNat (nat (py p))]"
    by (simp add: splitDash_def splitDashAcc_sep splitDashAcc_last faceName_no_dash showNat_no_dash)
  then show ?thesis
    using assms by (simp add: parseKey_def faceOfName_faceName parseDigits_showNat)
qed


section \<open>Neighbours of a cell\<close>

definition NEIGHBOR_DELTAS :: "Delta list" where
  "NEIGHBOR_DELTAS =
     [\<lparr>dx = 0, dy = 1\<rparr>, \<lparr>dx = 0, dy = -1\<rparr>, \<lparr>dx = -1, dy = 0\<rparr>, \<lparr>dx = 1, dy = 0\<rparr>,
      \<lparr>dx = -1, dy = 1\<rparr>, \<lparr>dx = 1, dy = 1\<rparr>, \<lparr>dx = -1, dy = -1\<rparr>, \<lparr>dx = 1, dy = -1\<rparr>]"

text \<open>\<^verbatim>\<open>transformSecondaryDelta\<close>; \<open>None\<close> is \<^verbatim>\<open>null\<close>.\<close>

definition transformSecondaryDelta :: "CubeFace \<Rightarrow> EdgeDirection \<Rightarrow> Delta \<Rightarrow> Delta option" where
  "transformSecondaryDelta fromF crossedEdge parallelDelta =
     (case getEdgeTransition fromF crossedEdge of
        None \<Rightarrow> None
      | Some transition \<Rightarrow>
          (let sourceIsVerticalEdge = (crossedEdge = ELeft \<or> crossedEdge = ERight);
               targetIsVerticalEdge = (toEdge transition = ELeft \<or> toEdge transition = ERight);
               parallelAmount = (if sourceIsVerticalEdge then dy parallelDelta else dx parallelDelta);
               flipped = (if flipX transition \<or> flipY transition then - parallelAmount
                          else parallelAmount)
           in if targetIsVerticalEdge then Some \<lparr>dx = 0, dy = flipped\<rparr>
              else Some \<lparr>dx = flipped, dy = 0\<rparr>))"

text \<open>
  \<^verbatim>\<open>getDiagonalNeighbor\<close>. In the corner case both paths are computed and \<^verbatim>\<open>path1\<close> is
  returned whether or not they agree, as in the source.
\<close>

definition getDiagonalNeighbor :: "CubePosition \<Rightarrow> Delta \<Rightarrow> int \<Rightarrow> CubePosition option" where
  "getDiagonalNeighbor position delta gridSize =
     (let newX = px position + dx delta;
          newY = py position + dy delta;
          crossingLeft = (newX < 0);
          crossingRight = (newX \<ge> gridSize);
          crossingBottom = (newY < 0);
          crossingTop = (newY \<ge> gridSize)
      in if \<not> crossingLeft \<and> \<not> crossingRight \<and> \<not> crossingBottom \<and> \<not> crossingTop
         then Some \<lparr>face = face position, px = newX, py = newY\<rparr>
         else if (crossingLeft \<or> crossingRight) \<and> \<not> crossingBottom \<and> \<not> crossingTop
         then (let onNewFace = movePosition position \<lparr>dx = dx delta, dy = 0\<rparr> gridSize;
                   edgeCrossed = (if crossingLeft then ELeft else ERight)
               in case transformSecondaryDelta (face position) edgeCrossed \<lparr>dx = 0, dy = dy delta\<rparr> of
                    None \<Rightarrow> None
                  | Some secondaryDelta \<Rightarrow>
                      (let finalX = px onNewFace + dx secondaryDelta;
                           finalY = py onNewFace + dy secondaryDelta
                       in if finalX \<ge> 0 \<and> finalX < gridSize \<and> finalY \<ge> 0 \<and> finalY < gridSize
                          then Some \<lparr>face = face onNewFace, px = finalX, py = finalY\<rparr>
                          else None))
         else if (crossingTop \<or> crossingBottom) \<and> \<not> crossingLeft \<and> \<not> crossingRight
         then (let onNewFace = movePosition position \<lparr>dx = 0, dy = dy delta\<rparr> gridSize;
                   edgeCrossed = (if crossingTop then ETop else EBottom)
               in case transformSecondaryDelta (face position) edgeCrossed \<lparr>dx = dx delta, dy = 0\<rparr> of
                    None \<Rightarrow> None
                  | Some secondaryDelta \<Rightarrow>
                      (let finalX = px onNewFace + dx secondaryDelta;
                           finalY = py onNewFace + dy secondaryDelta
                       in if finalX \<ge> 0 \<and> finalX < gridSize \<and> finalY \<ge> 0 \<and> finalY < gridSize
                          then Some \<lparr>face = face onNewFace, px = finalX, py = finalY\<rparr>
                          else None))
         else (let path1 = movePosition (movePosition position \<lparr>dx = dx delta, dy = 0\<rparr> gridSize)
                              \<lparr>dx = 0, dy = dy delta\<rparr> gridSize;
                   path2 = movePosition (movePosition position \<lparr>dx = 0, dy = dy delta\<rparr> gridSize)
                              \<lparr>dx = dx delta, dy = 0\<rparr> gridSize
               in if face path1 = face path2 \<and> px path1 = px path2 \<and> py path1 = py path2
                  then Some path1
                  else Some path1))"

text \<open>
  \<^verbatim>\<open>getAllNeighbors\<close>: the loop over \<^verbatim>\<open>NEIGHBOR_DELTAS\<close> as a fold; the loop state is
  the list \<^verbatim>\<open>neighbors\<close> and the set \<^verbatim>\<open>seen\<close> of keys (kept as a list of strings).
\<close>

definition pushUnseen :: "CubePosition \<Rightarrow> CubePosition list \<times> string list \<Rightarrow> CubePosition list \<times> string list" where
  "pushUnseen neighbor acc =
     (let key = posKey neighbor
      in if key \<notin> set (snd acc) then (fst acc @ [neighbor], key # snd acc) else acc)"

definition neighborStep ::
  "CubePosition \<Rightarrow> int \<Rightarrow> Delta \<Rightarrow> CubePosition list \<times> string list \<Rightarrow> CubePosition list \<times> string list" where
  "neighborStep position gridSize delta acc =
     (if dx delta = 0 \<or> dy delta = 0
      then pushUnseen (movePosition position delta gridSize) acc
      else (case getDiagonalNeighbor position delta gridSize of
              Some neighbor \<Rightarrow> pushUnseen neighbor acc
            | None \<Rightarrow> acc))"

definition getAllNeighbors :: "CubePosition \<Rightarrow> int \<Rightarrow> CubePosition list" where
  "getAllNeighbors position gridSize =
     fst (fold (neighborStep position gridSize) NEIGHBOR_DELTAS ([], []))"


text \<open>The edges of its face that a cell lies on (two at a corner).\<close>

definition edgesTouched :: "CubePosition \<Rightarrow> int \<Rightarrow> EdgeDirection list" where
  "edgesTouched p gridSize =
     (if py p = gridSize - 1 then [ETop] else []) @ (if py p = 0 then [EBottom] else []) @
     (if px p = 0 then [ELeft] else []) @ (if px p = gridSize - 1 then [ERight] else [])"

subsection \<open>No duplicates\<close>

definition seenInv :: "CubePosition list \<times> string list \<Rightarrow> bool" where
  "seenInv acc \<longleftrightarrow> set (snd acc) = posKey ` set (fst acc) \<and> distinct (fst acc)"

lemma pushUnseen_inv: "seenInv acc \<Longrightarrow> seenInv (pushUnseen n acc)"
  by (auto simp: seenInv_def pushUnseen_def Let_def)

lemma neighborStep_inv: "seenInv acc \<Longrightarrow> seenInv (neighborStep p g d acc)"
  by (simp add: neighborStep_def pushUnseen_inv split: option.split)

lemma fold_neighborStep_inv: "seenInv acc \<Longrightarrow> seenInv (fold (neighborStep p g) ds acc)"
  by (induction ds arbitrary: acc) (simp_all add: neighborStep_inv)

lemma getAllNeighbors_distinct: "distinct (getAllNeighbors p g)"
proof -
  have "seenInv (fold (neighborStep p g) NEIGHBOR_DELTAS ([], []))"
    by (rule fold_neighborStep_inv) (simp add: seenInv_def)
  then show ?thesis by (simp add: getAllNeighbors_def seenInv_def)
qed

subsection \<open>Cardinality\<close>

text \<open>The candidate that one delta contributes before deduplication.\<close>

definition neighborCandidate :: "CubePosition \<Rightarrow> int \<Rightarrow> Delta \<Rightarrow> CubePosition option" where
  "neighborCandidate p g d =
     (if dx d = 0 \<or> dy d = 0 then Some (movePosition p d g) else getDiagonalNeighbor p d g)"

lemma neighborStep_candidate:
  "neighborStep p g d acc =
     (case neighborCandidate p g d of Some n \<Rightarrow> pushUnseen n acc | None \<Rightarrow> acc)"
  by (simp add: neighborStep_def neighborCandidate_def)

lemma pushUnseen_new:
  "seenInv acc \<Longrightarrow> n \<notin> set (fst acc) \<Longrightarrow>
     pushUnseen n acc = (fst acc @ [n], posKey n # snd acc)"
  by (auto simp: seenInv_def pushUnseen_def Let_def posKey_eq_iff)

lemma fold_neighborStep_fresh:
  "seenInv acc \<Longrightarrow> None \<notin> set (map (neighborCandidate p g) ds) \<Longrightarrow>
   distinct (map (neighborCandidate p g) ds) \<Longrightarrow>
   (\<forall>d \<in> set ds. \<forall>n. neighborCandidate p g d = Some n \<longrightarrow> n \<notin> set (fst acc)) \<Longrightarrow>
     fst (fold (neighborStep p g) ds acc) = fst acc @ map (\<lambda>d. the (neighborCandidate p g d)) ds"
proof (induction ds arbitrary: acc)
  case Nil
  then show ?case by simp
next
  case (Cons d ds)
  from Cons.prems(2) obtain n where n: "neighborCandidate p g d = Some n"
    by (cases "neighborCandidate p g d") auto
  from Cons.prems(4) n have fresh: "n \<notin> set (fst acc)" by simp
  let ?acc' = "(fst acc @ [n], posKey n # snd acc)"
  have step: "neighborStep p g d acc = ?acc'"
    by (simp add: neighborStep_candidate n pushUnseen_new [OF Cons.prems(1) fresh])
  have inv': "seenInv ?acc'"
    using pushUnseen_inv [OF Cons.prems(1), of n] pushUnseen_new [OF Cons.prems(1) fresh] by simp
  have none': "None \<notin> set (map (neighborCandidate p g) ds)"
    using Cons.prems(2) by simp
  have dist': "distinct (map (neighborCandidate p g) ds)"
    using Cons.prems(3) by simp
  have fresh': "\<forall>e \<in> set ds. \<forall>m. neighborCandidate p g e = Some m \<longrightarrow> m \<notin> set (fst ?acc')"
  proof (intro ballI allI impI)
    fix e m assume e: "e \<in> set ds" and m: "neighborCandidate p g e = Some m"
    from Cons.prems(4) e m have "m \<notin> set (fst acc)" by simp
    moreover have "m \<noteq> n"
    proof
      assume "m = n"
      with m n have "neighborCandidate p g d = neighborCandidate p g e" by simp
      with Cons.prems(3) e show False by (auto simp: image_iff)
    qed
    ultimately show "m \<notin> set (fst ?acc')" by simp
  qed
  from Cons.IH [OF inv' none' dist' fresh'] step n show ?case by simp
qed

lemma getAllNeighbors_fresh:
  assumes "None \<notin> set (map (neighborCandidate p g) NEIGHBOR_DELTAS)"
    and "distinct (map (neighborCandidate p g) NEIGHBOR_DELTAS)"
  shows "length (getAllNeighbors p g) = 8"
proof -
  have "seenInv ([], [])" by (simp add: seenInv_def)
  from fold_neighborStep_fresh [OF this assms]
  have "getAllNeighbors p g = map (\<lambda>d. the (neighborCandidate p g d)) NEIGHBOR_DELTAS"
    by (simp add: getAllNeighbors_def)
  then show ?thesis by (simp add: NEIGHBOR_DELTAS_def)
qed

lemma interior_candidates:
  assumes "0 < x0" "x0 < g - 1" "0 < y0" "y0 < g - 1"
  shows "None \<notin> set (map (neighborCandidate \<lparr>face = fc, px = x0, py = y0\<rparr> g) NEIGHBOR_DELTAS) \<and>
         distinct (map (neighborCandidate \<lparr>face = fc, px = x0, py = y0\<rparr> g) NEIGHBOR_DELTAS)"
  using assms
  by (simp add: NEIGHBOR_DELTAS_def neighborCandidate_def getDiagonalNeighbor_def
      movePosition_def Let_def)


lemma top_edge_candidates:
  assumes "0 < x0" "x0 < g - 1" "y0 = g - 1"
  shows "None \<notin> set (map (neighborCandidate \<lparr>face = fc, px = x0, py = y0\<rparr> g) NEIGHBOR_DELTAS) \<and>
         distinct (map (neighborCandidate \<lparr>face = fc, px = x0, py = y0\<rparr> g) NEIGHBOR_DELTAS)"
  using assms
  by (cases fc)
     (simp_all add: NEIGHBOR_DELTAS_def neighborCandidate_def getDiagonalNeighbor_def
        transformSecondaryDelta_def movePosition_def transformPositionAcrossEdge_def
        getEdgeForDirection_def getEdgeTransition_table mkT_def Let_def)

lemma bottom_edge_candidates:
  assumes "0 < x0" "x0 < g - 1" "y0 = 0"
  shows "None \<notin> set (map (neighborCandidate \<lparr>face = fc, px = x0, py = y0\<rparr> g) NEIGHBOR_DELTAS) \<and>
         distinct (map (neighborCandidate \<lparr>face = fc, px = x0, py = y0\<rparr> g) NEIGHBOR_DELTAS)"
  using assms
  by (cases fc)
     (simp_all add: NEIGHBOR_DELTAS_def neighborCandidate_def getDiagonalNeighbor_def
        transformSecondaryDelta_def movePosition_def transformPositionAcrossEdge_def
        getEdgeForDirection_def getEdgeTransition_table mkT_def Let_def)

lemma left_edge_candidates:
  assumes "0 < y0" "y0 < g - 1" "x0 = 0"
  shows "None \<notin> set (map (neighborCandidate \<lparr>face = fc, px = x0, py = y0\<rparr> g) NEIGHBOR_DELTAS) \<and>
         distinct (map (neighborCandidate \<lparr>face = fc, px = x0, py = y0\<rparr> g) NEIGHBOR_DELTAS)"
  using assms
  by (cases fc)
     (simp_all add: NEIGHBOR_DELTAS_def neighborCandidate_def getDiagonalNeighbor_def
        transformSecondaryDelta_def movePosition_def transformPositionAcrossEdge_def
        getEdgeForDirection_def getEdgeTransition_table mkT_def Let_def)

lemma right_edge_candidates:
  assumes "0 < y0" "y0 < g - 1" "x0 = g - 1"
  shows "None \<notin> set (map (neighborCandidate \<lparr>face = fc, px = x0, py = y0\<rparr> g) NEIGHBOR_DELTAS) \<and>
         distinct (map (neighborCandidate \<lparr>face = fc, px = x0, py = y0\<rparr> g) NEIGHBOR_DELTAS)"
  using assms
  by (cases fc)
     (simp_all add: NEIGHBOR_DELTAS_def neighborCandidate_def getDiagonalNeighbor_def
        transformSecondaryDelta_def movePosition_def transformPositionAcrossEdge_def
        getEdgeForDirection_def getEdgeTransition_table mkT_def Let_def)


text \<open>
  Claim C4. \<open>getAllNeighbors\<close> returns exactly 8 distinct positions for every interior
  cell (one that \<open>getEdgeAtPosition\<close> places on no edge) and for every cell that lies on
  exactly one edge of its face (not a corner); and for every input position and grid
  size the returned list has no two structurally equal positions.
\<close>

theorem getAllNeighbors_cardinality:
  "(validPosition p g \<and> getEdgeAtPosition p g = None \<longrightarrow>
      length (getAllNeighbors p g) = 8 \<and> distinct (getAllNeighbors p g)) \<and>
   (validPosition p g \<and> length (edgesTouched p g) = 1 \<longrightarrow>
      length (getAllNeighbors p g) = 8 \<and> distinct (getAllNeighbors p g)) \<and>
   distinct (getAllNeighbors p g)"
proof -
  obtain fc x0 y0 where p: "p = \<lparr>face = fc, px = x0, py = y0\<rparr>"
    by (cases p) auto
  have interior: "length (getAllNeighbors p g) = 8"
    if "validPosition p g" "getEdgeAtPosition p g = None"
  proof -
    from that have "0 < x0" "x0 < g - 1" "0 < y0" "y0 < g - 1"
      by (auto simp: p validPosition_def getEdgeAtPosition_def split: if_splits)
    from interior_candidates [OF this] show ?thesis
      unfolding p by (intro getAllNeighbors_fresh) simp_all
  qed
  have edge: "length (getAllNeighbors p g) = 8"
    if "validPosition p g" "length (edgesTouched p g) = 1"
  proof -
    from that consider
        (top) "0 < x0" "x0 < g - 1" "y0 = g - 1"
      | (bottom) "0 < x0" "x0 < g - 1" "y0 = 0"
      | (left) "0 < y0" "y0 < g - 1" "x0 = 0"
      | (right) "0 < y0" "y0 < g - 1" "x0 = g - 1"
      by (auto simp: p validPosition_def edgesTouched_def split: if_splits)
    then show ?thesis
    proof cases
      case top
      from top_edge_candidates [OF this] show ?thesis
        unfolding p by (intro getAllNeighbors_fresh) simp_all
    next
      case bottom
      from bottom_edge_candidates [OF this] show ?thesis
        unfolding p by (intro getAllNeighbors_fresh) simp_all
    next
      case left
      from left_edge_candidates [OF this] show ?thesis
        unfolding p by (intro getAllNeighbors_fresh) simp_all
    next
      case right
      from right_edge_candidates [OF this] show ?thesis
        unfolding p by (intro getAllNeighbors_fresh) simp_all
    qed
  qed
  from interior edge getAllNeighbors_distinct [of p g] show ?thesis by blast
qed

theorem getAllNeighbors_cardinality_witness:
  "validPosition \<lparr>face = FRONT, px = 3, py = 4\<rparr> 8 \<and>
   getEdgeAtPosition \<lparr>face = FRONT, px = 3, py = 4\<rparr> 8 = None \<and>
   length (getAllNeighbors \<lparr>face = FRONT, px = 3, py = 4\<rparr> 8) = 8 \<and>
   validPosition \<lparr>face = LEFT, px = 3, py = 7\<rparr> 8 \<and>
   length (edgesTouched \<lparr>face = LEFT, px = 3, py = 7\<rparr> 8) = 1 \<and>
   length (getAllNeighbors \<lparr>face = LEFT, px = 3, py = 7\<rparr> 8) = 8 \<and>
   distinct (getAllNeighbors \<lparr>face = LEFT, px = 3, py = 7\<rparr> 8)"
proof -
  have a: "validPosition \<lparr>face = FRONT, px = 3, py = 4\<rparr> 8 \<and>
           getEdgeAtPosition \<lparr>face = FRONT, px = 3, py = 4\<rparr> 8 = None"
    by (simp add: validPosition_def getEdgeAtPosition_def)
  have b: "validPosition \<lparr>face = LEFT, px = 3, py = 7\<rparr> 8 \<and>
           length (edgesTouched \<lparr>face = LEFT, px = 3, py = 7\<rparr> 8) = 1"
    by (simp add: validPosition_def edgesTouched_def)
  from a b
    getAllNeighbors_cardinality [of "\<lparr>face = FRONT, px = 3, py = 4\<rparr>" 8]
    getAllNeighbors_cardinality [of "\<lparr>face = LEFT, px = 3, py = 7\<rparr>" 8]
  show ?thesis by blast
qed


section \<open>Random source and run-time errors\<close>

text \<open>
  \<^verbatim>\<open>Math.random()\<close> is modelled as an explicit source: a stream of the numbers that the
  successive calls return (each in \<open>[0, 1)\<close>). A function that calls \<^verbatim>\<open>Math.random\<close>
  takes the stream and reads it from the head. Floating-point products such as
  \<^verbatim>\<open>Math.random() * n\<close> are taken over the reals.
\<close>

type_synonym random = "real stream"

definition validRandom :: "random \<Rightarrow> bool" where
  "validRandom rnd \<longleftrightarrow> (\<forall>r \<in> sset rnd. 0 \<le> r \<and> r < 1)"

text \<open>\<^verbatim>\<open>Math.floor(Math.random() * n)\<close> for the draw \<open>r\<close>.\<close>

definition randomIndex :: "real \<Rightarrow> int \<Rightarrow> int" where
  "randomIndex r n = \<lfloor>r * of_int n\<rfloor>"

text \<open>
  Run-time failures: a JavaScript \<^verbatim>\<open>TypeError\<close> (an access to a property of
  \<^verbatim>\<open>undefined\<close>), and \<open>SparseArray\<close> for a write past the end of an array, which
  JavaScript performs by making the array sparse; arrays with holes are not represented.
\<close>

datatype error = TypeError | SparseArray

section \<open>Snake\<close>

datatype SnakeDirection = DirUp | DirDown | DirLeft | DirRight

record Vector3 =
  vx :: real
  vy :: real
  vz :: real

text \<open>
  \<^verbatim>\<open>SnakeGameState\<close>. The inherited fields \<^verbatim>\<open>pieces\<close> and \<^verbatim>\<open>winner\<close> are set once by
  \<^verbatim>\<open>init\<close> (\<^verbatim>\<open>[]\<close>, \<^verbatim>\<open>undefined\<close>) and copied by every transition; they are left out.
\<close>

record SnakeGameState =
  sn_snake :: "CubePosition list"
  sn_direction :: SnakeDirection
  sn_nextDirection :: SnakeDirection
  sn_food :: CubePosition
  sn_score :: int
  sn_speed :: int
  sn_isGameOver :: bool
  sn_isPaused :: bool
  sn_gridSize :: int
  sn_cameraUp :: Vector3

datatype SnakeAction = SnMove | SnChangeDirection SnakeDirection | SnPause | SnResume

fun DIRECTION_DELTAS :: "SnakeDirection \<Rightarrow> Delta" where
  "DIRECTION_DELTAS DirUp = \<lparr>dx = 0, dy = 1\<rparr>"
| "DIRECTION_DELTAS DirDown = \<lparr>dx = 0, dy = -1\<rparr>"
| "DIRECTION_DELTAS DirLeft = \<lparr>dx = -1, dy = 0\<rparr>"
| "DIRECTION_DELTAS DirRight = \<lparr>dx = 1, dy = 0\<rparr>"

fun OPPOSITE_DIRECTIONS :: "SnakeDirection \<Rightarrow> SnakeDirection" where
  "OPPOSITE_DIRECTIONS DirUp = DirDown"
| "OPPOSITE_DIRECTIONS DirDown = DirUp"
| "OPPOSITE_DIRECTIONS DirLeft = DirRight"
| "OPPOSITE_DIRECTIONS DirRight = DirLeft"

text \<open>The class constant \<^verbatim>\<open>readonly gridSize = 8\<close> and the face list of \<^verbatim>\<open>spawnFood\<close>.\<close>

definition SNAKE_GRID_SIZE :: int where
  "SNAKE_GRID_SIZE = 8"

definition SNAKE_FACES :: "CubeFace list" where
  "SNAKE_FACES = [FRONT, BACK, LEFT, RIGHT, TOP, BOTTOM]"

text \<open>
  \<^verbatim>\<open>spawnFood\<close>: the \<^verbatim>\<open>do ... while\<close> loop, three draws per attempt, at most 1000
  attempts. \<open>attempts\<close> is the counter before the iteration.
\<close>

function spawnFoodLoop :: "random \<Rightarrow> CubePosition list \<Rightarrow> nat \<Rightarrow> CubePosition" where
  "spawnFoodLoop rnd snake attempts =
     (let f = SNAKE_FACES ! nat (randomIndex (shd rnd) (int (length SNAKE_FACES)));
          x = randomIndex (shd (stl rnd)) SNAKE_GRID_SIZE;
          y = randomIndex (shd (stl (stl rnd))) SNAKE_GRID_SIZE;
          position = \<lparr>face = f, px = x, py = y\<rparr>;
          attempts' = attempts + 1
      in if (\<exists>segment \<in> set snake. positionsEqual segment position) \<and> attempts' < 1000
         then spawnFoodLoop (stl (stl (stl rnd))) snake attempts'
         else position)"
  by pat_completeness auto
termination
  by (relation "measure (\<lambda>(rnd, snake, attempts). 1000 - attempts)") auto

declare spawnFoodLoop.simps [simp del]

definition spawnFood :: "random \<Rightarrow> CubePosition list \<Rightarrow> CubePosition" where
  "spawnFood rnd snake = spawnFoodLoop rnd snake 0"

text \<open>
  \<^verbatim>\<open>calculateVisualRotation\<close> and the camera-up update use THREE.js vectors, quaternions
  and \<^verbatim>\<open>Math.atan2\<close> in floating point. Two parameters stand for those parts:
  \<open>rotUp from to v\<close> is \<^verbatim>\<open>v.applyQuaternion(q).normalize()\<close> for the quaternion \<^verbatim>\<open>q\<close> that
  \<^verbatim>\<open>setFromUnitVectors\<close> builds from the normals of \<open>from\<close> and \<open>to\<close>, and
  \<open>rawTurns v f\<close> is \<^verbatim>\<open>Math.round(angle / (Math.PI / 2))\<close> in \<^verbatim>\<open>calculateVisualRotation(v, f)\<close>.
  JavaScript's \<^verbatim>\<open>%\<close> truncates, which is \<open>smod\<close>.
\<close>

definition calculateVisualRotation :: "(Vector3 \<Rightarrow> CubeFace \<Rightarrow> int) \<Rightarrow> Vector3 \<Rightarrow> CubeFace \<Rightarrow> int" where
  "calculateVisualRotation rawTurns cameraUp f = ((rawTurns cameraUp f smod 4) + 4) smod 4"

fun directionToEdge :: "SnakeDirection \<Rightarrow> EdgeDirection" where
  "directionToEdge DirUp = ETop"
| "directionToEdge DirDown = EBottom"
| "directionToEdge DirLeft = ELeft"
| "directionToEdge DirRight = ERight"

definition directions :: "SnakeDirection list" where
  "directions = [DirUp, DirRight, DirDown, DirLeft]"

fun directionIndex :: "SnakeDirection \<Rightarrow> int" where
  "directionIndex DirUp = 0"
| "directionIndex DirRight = 1"
| "directionIndex DirDown = 2"
| "directionIndex DirLeft = 3"

definition transformDirectionAcrossEdge ::
  "(CubeFace \<Rightarrow> CubeFace \<Rightarrow> Vector3 \<Rightarrow> Vector3) \<Rightarrow> (Vector3 \<Rightarrow> CubeFace \<Rightarrow> int) \<Rightarrow>
   CubeFace \<Rightarrow> SnakeDirection \<Rightarrow> Vector3 \<Rightarrow> SnakeDirection" where
  "transformDirectionAcrossEdge rotUp rawTurns fromF direction cameraUpBeforeTransition =
     (case getEdgeTransition fromF (directionToEdge direction) of
        None \<Rightarrow> direction
      | Some transition \<Rightarrow>
          (let toF = toFace transition;
               cameraUpAfterTransition = rotUp fromF toF cameraUpBeforeTransition;
               rotationBefore = calculateVisualRotation rawTurns cameraUpBeforeTransition fromF;
               rotationAfter = calculateVisualRotation rawTurns cameraUpAfterTransition toF;
               rotationDelta = (rotationAfter - rotationBefore + 4) smod 4;
               currentIndex = directionIndex direction;
               newIndex = (currentIndex + rotationDelta) smod 4
           in directions ! nat newIndex))"

text \<open>
  \<^verbatim>\<open>moveSnake\<close>. \<^verbatim>\<open>snake[0]\<close> of an empty list is \<^verbatim>\<open>undefined\<close> and \<^verbatim>\<open>movePosition\<close>
  then throws; \<^verbatim>\<open>newSnake.pop()\<close> drops the last element. The \<^verbatim>\<open>console.log\<close> is
  omitted.
\<close>

definition moveSnake ::
  "(CubeFace \<Rightarrow> CubeFace \<Rightarrow> Vector3 \<Rightarrow> Vector3) \<Rightarrow> (Vector3 \<Rightarrow> CubeFace \<Rightarrow> int) \<Rightarrow>
   random \<Rightarrow> SnakeGameState \<Rightarrow> error + SnakeGameState" where
  "moveSnake rotUp rawTurns rnd state =
     (if sn_isPaused state \<or> sn_isGameOver state then Inr state
      else case sn_snake state of
        [] \<Rightarrow> Inl TypeError
      | head # _ \<Rightarrow>
         (let snake = sn_snake state;
              delta = DIRECTION_DELTAS (sn_nextDirection state);
              newHead = movePosition head delta (sn_gridSize state);
              crossed = (face newHead \<noteq> face head);
              direction = (if crossed
                           then transformDirectionAcrossEdge rotUp rawTurns (face head)
                                  (sn_nextDirection state) (sn_cameraUp state)
                           else sn_nextDirection state);
              newCameraUp = (if crossed then rotUp (face head) (face newHead) (sn_cameraUp state)
                             else sn_cameraUp state);
              hitSelf = (\<exists>segment \<in> set snake. positionsEqual segment newHead)
          in if hitSelf
             then Inr (state\<lparr>sn_isGameOver := True, sn_direction := direction,
                              sn_cameraUp := newCameraUp\<rparr>)
             else
               (let eatingFood = positionsEqual newHead (sn_food state);
                    newSnake = (if eatingFood then newHead # snake else butlast (newHead # snake));
                    newFood = (if eatingFood then spawnFood rnd newSnake else sn_food state);
                    newScore = (if eatingFood then sn_score state + 10 else sn_score state);
                    newSpeed = max 80 (200 - (newScore div 50) * 20)
                in Inr (state\<lparr>sn_snake := newSnake, sn_direction := direction,
                                 sn_nextDirection := direction, sn_food := newFood,
                                 sn_score := newScore, sn_speed := newSpeed,
                                 sn_cameraUp := newCameraUp\<rparr>))))"

definition snake_isValidAction :: "SnakeGameState \<Rightarrow> SnakeAction \<Rightarrow> bool" where
  "snake_isValidAction state action =
     (if sn_isGameOver state \<and> action \<noteq> SnPause then False
      else case action of
        SnMove \<Rightarrow> \<not> sn_isPaused state
      | SnChangeDirection payload \<Rightarrow> payload \<noteq> OPPOSITE_DIRECTIONS (sn_direction state)
      | SnPause \<Rightarrow> True
      | SnResume \<Rightarrow> True)"

definition snake_applyAction ::
  "(CubeFace \<Rightarrow> CubeFace \<Rightarrow> Vector3 \<Rightarrow> Vector3) \<Rightarrow> (Vector3 \<Rightarrow> CubeFace \<Rightarrow> int) \<Rightarrow>
   random \<Rightarrow> SnakeGameState \<Rightarrow> SnakeAction \<Rightarrow> error + SnakeGameState" where
  "snake_applyAction rotUp rawTurns rnd state action =
     (case action of
        SnChangeDirection payload \<Rightarrow>
          (if payload \<noteq> OPPOSITE_DIRECTIONS (sn_direction state)
           then Inr (state\<lparr>sn_nextDirection := payload\<rparr>)
           else Inr state)
      | SnPause \<Rightarrow> Inr (state\<lparr>sn_isPaused := True\<rparr>)
      | SnResume \<Rightarrow> Inr (state\<lparr>sn_isPaused := False\<rparr>)
      | SnMove \<Rightarrow> moveSnake rotUp rawTurns rnd state)"

text \<open>\<^verbatim>\<open>init\<close>; the first food is spawned from the random source.\<close>

definition snake_init :: "random \<Rightarrow> SnakeGameState" where
  "snake_init rnd =
     (let initialSnake = [\<lparr>face = FRONT, px = 4, py = 4\<rparr>, \<lparr>face = FRONT, px = 3, py = 4\<rparr>,
                          \<lparr>face = FRONT, px = 2, py = 4\<rparr>]
      in \<lparr>sn_snake = initialSnake, sn_direction = DirRight, sn_nextDirection = DirRight,
          sn_food = spawnFood rnd initialSnake, sn_score = 0, sn_speed = 200,
          sn_isGameOver = False, sn_isPaused = False, sn_gridSize = SNAKE_GRID_SIZE,
          sn_cameraUp = \<lparr>vx = 0, vy = 1, vz = 0\<rparr>\<rparr>)"

text \<open>
  Claim C6. Snake self-collision: in a state that is neither paused nor over, with a
  snake of at least three segments, if the head position computed by \<open>movePosition\<close>
  from \<open>nextDirection\<close> equals an existing segment, then the \<open>move\<close> action returns a
  state with \<open>isGameOver = true\<close> whose segment list is the original one.
\<close>

theorem snake_self_collision:
  "length (sn_snake s) \<ge> 3 \<Longrightarrow> \<not> sn_isPaused s \<Longrightarrow> \<not> sn_isGameOver s \<Longrightarrow>
   (\<exists>segment \<in> set (sn_snake s).
      positionsEqual segment
        (movePosition (hd (sn_snake s)) (DIRECTION_DELTAS (sn_nextDirection s)) (sn_gridSize s))) \<Longrightarrow>
   \<exists>s'. snake_applyAction rotUp rawTurns rnd s SnMove = Inr s' \<and>
        sn_isGameOver s' \<and> sn_snake s' = sn_snake s"
  by (cases "sn_snake s") (auto simp: snake_applyAction_def moveSnake_def Let_def)


lemma spawnFood_0: "spawnFood (sconst 0) [] = \<lparr>face = FRONT, px = 0, py = 0\<rparr>"
  by (simp add: spawnFood_def spawnFoodLoop.simps randomIndex_def SNAKE_FACES_def
      SNAKE_GRID_SIZE_def Let_def)

lemma spawnFood_half: "spawnFood (sconst (1/2)) [] = \<lparr>face = RIGHT, px = 4, py = 4\<rparr>"
  by (simp add: spawnFood_def spawnFoodLoop.simps randomIndex_def SNAKE_FACES_def
      SNAKE_GRID_SIZE_def Let_def)

text \<open>A coiled snake whose head at (4,4) turns left into its own segment at (3,4).\<close>

definition coiledSnake :: SnakeGameState where
  "coiledSnake =
     \<lparr>sn_snake = [\<lparr>face = FRONT, px = 4, py = 4\<rparr>, \<lparr>face = FRONT, px = 4, py = 5\<rparr>,
                  \<lparr>face = FRONT, px = 3, py = 5\<rparr>, \<lparr>face = FRONT, px = 3, py = 4\<rparr>,
                  \<lparr>face = FRONT, px = 2, py = 4\<rparr>],
      sn_direction = DirDown, sn_nextDirection = DirLeft,
      sn_food = \<lparr>face = TOP, px = 0, py = 0\<rparr>, sn_score = 20, sn_speed = 200,
      sn_isGameOver = False, sn_isPaused = False, sn_gridSize = 8,
      sn_cameraUp = \<lparr>vx = 0, vy = 1, vz = 0\<rparr>\<rparr>"

theorem snake_self_collision_witness:
  "length (sn_snake coiledSnake) \<ge> 3 \<and> \<not> sn_isPaused coiledSnake \<and> \<not> sn_isGameOver coiledSnake \<and>
   movePosition (hd (sn_snake coiledSnake)) (DIRECTION_DELTAS (sn_nextDirection coiledSnake))
      (sn_gridSize coiledSnake) = \<lparr>face = FRONT, px = 3, py = 4\<rparr> \<and>
   (\<exists>s'. snake_applyAction (\<lambda>f t v. v) (\<lambda>v f. 0) (sconst 0) coiledSnake SnMove = Inr s' \<and>
         sn_isGameOver s' \<and> sn_snake s' = sn_snake coiledSnake)"
proof -
  have l: "length (sn_snake coiledSnake) \<ge> 3"
    and p: "\<not> sn_isPaused coiledSnake" and o: "\<not> sn_isGameOver coiledSnake"
    by (simp_all add: coiledSnake_def)
  have m: "movePosition (hd (sn_snake coiledSnake)) (DIRECTION_DELTAS (sn_nextDirection coiledSnake))
      (sn_gridSize coiledSnake) = \<lparr>face = FRONT, px = 3, py = 4\<rparr>"
    by (simp add: coiledSnake_def movePosition_def)
  have h: "\<exists>segment \<in> set (sn_snake coiledSnake).
      positionsEqual segment
        (movePosition (hd (sn_snake coiledSnake)) (DIRECTION_DELTAS (sn_nextDirection coiledSnake))
           (sn_gridSize coiledSnake))"
    unfolding m by (simp add: coiledSnake_def positionsEqual_def)
  from snake_self_collision [OF l p o h, of "\<lambda>f t v. v" "\<lambda>v f. 0" "sconst 0"] l p o m
  show ?thesis by blast
qed


section \<open>Cell maps\<close>

text \<open>
  Minesweeper and Nonogram keep their cells in a \<^verbatim>\<open>Map<string, Cell>\<close> whose keys are
  \<open>posKey\<close> strings. A JavaScript \<^verbatim>\<open>Map\<close> iterates in insertion order and \<^verbatim>\<open>set\<close> on an
  existing key keeps its place, so the map is an association list: \<^verbatim>\<open>get\<close> is
  \<open>map_of\<close>, \<^verbatim>\<open>set\<close> is \<open>AList.update\<close>. Since \<open>posKey\<close> is injective (\<open>posKey_inj\<close>)
  and \<open>parseKey\<close> gives back the position of a key (\<open>parseKey_posKey\<close>), the model keys
  the list by the position itself instead of by its string.
\<close>

section \<open>Nonogram\<close>

datatype NonogramCellState = UNKNOWN | FILLED | EMPTY

record NonogramCell =
  ng_solution :: bool
  ng_state :: NonogramCellState

record FaceClues =
  fc_rows :: "nat list list"
  fc_cols :: "nat list list"

text \<open>
  \<^verbatim>\<open>NonogramGameState\<close> (without the constant \<^verbatim>\<open>pieces\<close>). \<^verbatim>\<open>winner\<close> is
  \<^verbatim>\<open>isWon ? 1 : undefined\<close>.
\<close>

record NonogramGameState =
  ng_cells :: "(CubePosition \<times> NonogramCell) list"
  ng_clues :: "(CubeFace \<times> FaceClues) list"
  ng_gridSize :: int
  ng_isGameOver :: bool
  ng_isWon :: bool
  ng_mistakes :: int
  ng_maxMistakes :: int
  ng_revealedHint :: "CubePosition option"
  ng_completedFaces :: "CubeFace set"
  ng_winner :: "nat option"

datatype NonogramAction =
  NgFill CubePosition | NgMarkEmpty CubePosition | NgClear CubePosition | NgHint CubePosition

fun ng_payload :: "NonogramAction \<Rightarrow> CubePosition" where
  "ng_payload (NgFill p) = p"
| "ng_payload (NgMarkEmpty p) = p"
| "ng_payload (NgClear p) = p"
| "ng_payload (NgHint p) = p"

text \<open>The game object's own configuration (\<^verbatim>\<open>this.gridSize\<close>, \<^verbatim>\<open>this.maxMistakes\<close>).\<close>

record NonogramConfig =
  cfg_gridSize :: int
  cfg_maxMistakes :: int

definition ALL_FACES :: "CubeFace list" where
  "ALL_FACES = [FRONT, BACK, LEFT, RIGHT, TOP, BOTTOM]"

text \<open>\<^verbatim>\<open>calculateLineClue\<close>: the loop state is the clue so far and the current group.\<close>

definition calculateLineClue :: "bool list \<Rightarrow> nat list" where
  "calculateLineClue line =
     (let (clue, currentGroup) =
            fold (\<lambda>cell (clue, currentGroup).
                    if cell then (clue, currentGroup + 1)
                    else if currentGroup > 0 then (clue @ [currentGroup], 0)
                    else (clue, currentGroup))
                 line ([], 0::nat);
          clue' = (if currentGroup > 0 then clue @ [currentGroup] else clue)
      in if length clue' > 0 then clue' else [0])"

text \<open>
  A face pattern \<^verbatim>\<open>pattern[face][y][x]\<close> is a function of the face, \<open>y\<close> and \<open>x\<close>; only
  its values on the grid are read.
\<close>

definition generateFaceClues :: "(int \<Rightarrow> int \<Rightarrow> bool) \<Rightarrow> int \<Rightarrow> FaceClues" where
  "generateFaceClues facePattern gridSize =
     \<lparr>fc_rows = map (\<lambda>y. calculateLineClue (map (\<lambda>x. facePattern y x) [0..gridSize - 1]))
                   [0..gridSize - 1],
      fc_cols = map (\<lambda>x. calculateLineClue (map (\<lambda>y. facePattern y x) [0..gridSize - 1]))
                   [0..gridSize - 1]\<rparr>"

text \<open>
  \<^verbatim>\<open>init\<close>. The pattern that \<^verbatim>\<open>generatePuzzlePattern\<close> computes from the seed (a
  floating-point procedure) is a parameter. The cells are listed in the order in which
  the loops insert them: faces, then \<open>y\<close>, then \<open>x\<close>.
\<close>

definition nonogram_init :: "NonogramConfig \<Rightarrow> (CubeFace \<Rightarrow> int \<Rightarrow> int \<Rightarrow> bool) \<Rightarrow> NonogramGameState" where
  "nonogram_init cfg pattern =
     \<lparr>ng_cells =
        concat (map (\<lambda>f.
          concat (map (\<lambda>y.
            map (\<lambda>x. (\<lparr>face = f, px = x, py = y\<rparr>,
                       \<lparr>ng_solution = pattern f y x, ng_state = UNKNOWN\<rparr>))
                [0..cfg_gridSize cfg - 1])
            [0..cfg_gridSize cfg - 1]))
          ALL_FACES),
      ng_clues = map (\<lambda>f. (f, generateFaceClues (pattern f) (cfg_gridSize cfg))) ALL_FACES,
      ng_gridSize = cfg_gridSize cfg,
      ng_isGameOver = False,
      ng_isWon = False,
      ng_mistakes = 0,
      ng_maxMistakes = cfg_maxMistakes cfg,
      ng_revealedHint = None,
      ng_completedFaces = {},
      ng_winner = None\<rparr>"

definition isFaceComplete :: "(CubePosition \<times> NonogramCell) list \<Rightarrow> CubeFace \<Rightarrow> int \<Rightarrow> bool" where
  "isFaceComplete cells f gridSize =
     (\<forall>y \<in> set [0..gridSize - 1]. \<forall>x \<in> set [0..gridSize - 1].
        (case map_of cells \<lparr>face = f, px = x, py = y\<rparr> of
           None \<Rightarrow> False
         | Some cell \<Rightarrow> \<not> (ng_solution cell \<and> ng_state cell \<noteq> FILLED)))"

definition checkWinCondition :: "(CubePosition \<times> NonogramCell) list \<Rightarrow> bool" where
  "checkWinCondition cells =
     list_all (\<lambda>(key, cell). \<not> (ng_solution cell \<and> ng_state cell \<noteq> FILLED)) cells"

definition nonogram_isValidAction :: "NonogramGameState \<Rightarrow> NonogramAction \<Rightarrow> bool" where
  "nonogram_isValidAction state action =
     (if ng_isGameOver state then False
      else case map_of (ng_cells state) (ng_payload action) of
        None \<Rightarrow> False
      | Some cell \<Rightarrow>
          (case action of
             NgFill _ \<Rightarrow> ng_state cell = UNKNOWN
           | NgMarkEmpty _ \<Rightarrow> ng_state cell = UNKNOWN
           | NgClear _ \<Rightarrow> ng_state cell \<noteq> UNKNOWN
           | NgHint _ \<Rightarrow> ng_state cell = UNKNOWN))"

text \<open>
  \<^verbatim>\<open>applyAction\<close>. \<^verbatim>\<open>newCells.get(key)!\<close> is \<^verbatim>\<open>undefined\<close> for a key that is not in the map:
  \<^verbatim>\<open>fill\<close> and \<^verbatim>\<open>hint\<close> then throw on \<^verbatim>\<open>cell.solution\<close>, while \<^verbatim>\<open>markEmpty\<close> and \<^verbatim>\<open>clear\<close>
  spread \<^verbatim>\<open>undefined\<close> into an object without a \<^verbatim>\<open>solution\<close> field, which every later
  test reads as false.
\<close>

definition nonogram_applyAction ::
  "NonogramConfig \<Rightarrow> NonogramGameState \<Rightarrow> NonogramAction \<Rightarrow> error + NonogramGameState" where
  "nonogram_applyAction cfg state action =
     (let key = ng_payload action;
          cellOpt = map_of (ng_cells state) key;
          spread = (case cellOpt of Some cell \<Rightarrow> cell
                    | None \<Rightarrow> \<lparr>ng_solution = False, ng_state = UNKNOWN\<rparr>);
          step =
            (case action of
               NgFill _ \<Rightarrow>
                 (case cellOpt of
                    None \<Rightarrow> Inl TypeError
                  | Some cell \<Rightarrow>
                      if ng_solution cell
                      then Inr (AList.update key (cell\<lparr>ng_state := FILLED\<rparr>) (ng_cells state),
                                ng_mistakes state, None)
                      else Inr (AList.update key (cell\<lparr>ng_state := EMPTY\<rparr>) (ng_cells state),
                                ng_mistakes state + 1, None))
             | NgMarkEmpty _ \<Rightarrow>
                 Inr (AList.update key (spread\<lparr>ng_state := EMPTY\<rparr>) (ng_cells state),
                      ng_mistakes state, None)
             | NgClear _ \<Rightarrow>
                 Inr (AList.update key (spread\<lparr>ng_state := UNKNOWN\<rparr>) (ng_cells state),
                      ng_mistakes state, None)
             | NgHint _ \<Rightarrow>
                 (case cellOpt of
                    None \<Rightarrow> Inl TypeError
                  | Some cell \<Rightarrow>
                      Inr (AList.update key
                             (cell\<lparr>ng_state := (if ng_solution cell then FILLED else EMPTY)\<rparr>)
                             (ng_cells state),
                           ng_mistakes state, Some key)))
      in case step of
           Inl e \<Rightarrow> Inl e
         | Inr (newCells, mistakes, revealedHint) \<Rightarrow>
             (let completedFaces =
                    fold (\<lambda>f done. if isFaceComplete newCells f (cfg_gridSize cfg)
                                    then insert f done else done - {f})
                         ALL_FACES (ng_completedFaces state);
                  isWon = checkWinCondition newCells;
                  isGameOver = (isWon \<or> mistakes \<ge> cfg_maxMistakes cfg)
              in Inr (state\<lparr>ng_cells := newCells, ng_mistakes := mistakes, ng_isWon := isWon,
                               ng_isGameOver := isGameOver, ng_revealedHint := revealedHint,
                               ng_completedFaces := completedFaces,
                               ng_winner := (if isWon then Some 1 else None)\<rparr>)))"

text \<open>Applying a sequence of actions, stopping at the first error.\<close>

fun nonogram_applyAll ::
  "NonogramConfig \<Rightarrow> NonogramGameState \<Rightarrow> NonogramAction list \<Rightarrow> error + NonogramGameState" where
  "nonogram_applyAll cfg state [] = Inr state"
| "nonogram_applyAll cfg state (a # as) =
     (case nonogram_applyAction cfg state a of
        Inl e \<Rightarrow> Inl e
      | Inr state' \<Rightarrow> nonogram_applyAll cfg state' as)"


subsection \<open>Win condition\<close>

lemma distinct_concat_map:
  assumes "distinct xs"
    and "\<And>x. x \<in> set xs \<Longrightarrow> distinct (f x)"
    and "\<And>x y. x \<in> set xs \<Longrightarrow> y \<in> set xs \<Longrightarrow> x \<noteq> y \<Longrightarrow> set (f x) \<inter> set (f y) = {}"
  shows "distinct (concat (map f xs))"
  using assms
proof (induction xs)
  case Nil
  then show ?case by simp
next
  case (Cons a xs)
  have "distinct (concat (map f xs))"
    using Cons by simp
  moreover have "distinct (f a)" using Cons.prems(2) by simp
  moreover have "set (f a) \<inter> set (concat (map f xs)) = {}"
  proof -
    have "set (f a) \<inter> set (f y) = {}" if "y \<in> set xs" for y
      using Cons.prems(3) [of a y] Cons.prems(1) that by auto
    then show ?thesis by auto
  qed
  ultimately show ?case by simp
qed

lemma checkWinCondition_iff:
  "checkWinCondition cells \<longleftrightarrow> (\<forall>(k, c) \<in> set cells. ng_solution c \<longrightarrow> ng_state c = FILLED)"
  by (auto simp: checkWinCondition_def list_all_iff)

lemma nonogram_applyAction_won:
  "nonogram_applyAction cfg s a = Inr s' \<Longrightarrow>
     ng_isWon s' = checkWinCondition (ng_cells s') \<and>
     ng_isGameOver s' = (ng_isWon s' \<or> ng_mistakes s' \<ge> cfg_maxMistakes cfg)"
  by (cases a)
     (auto simp: nonogram_applyAction_def Let_def split: option.splits if_splits)

lemma nonogram_fill_correct:
  assumes "map_of (ng_cells s) p = Some c" "ng_solution c"
  shows "\<exists>s'. nonogram_applyAction cfg s (NgFill p) = Inr s' \<and>
              ng_cells s' = AList.update p (c\<lparr>ng_state := FILLED\<rparr>) (ng_cells s)"
  using assms by (simp add: nonogram_applyAction_def Let_def)

lemma nonogram_fill_all:
  assumes "distinct (map fst (ng_cells s))"
    and "\<forall>p \<in> set ps. \<exists>c. map_of (ng_cells s) p = Some c \<and> ng_solution c"
  shows "\<exists>s'. nonogram_applyAll cfg s (map NgFill ps) = Inr s' \<and>
           distinct (map fst (ng_cells s')) \<and>
           (\<forall>k. map_of (ng_cells s') k =
                 (if k \<in> set ps then map_option (\<lambda>c. c\<lparr>ng_state := FILLED\<rparr>) (map_of (ng_cells s) k)
                  else map_of (ng_cells s) k)) \<and>
           (ps \<noteq> [] \<longrightarrow> ng_isWon s' = checkWinCondition (ng_cells s') \<and>
              ng_isGameOver s' = (ng_isWon s' \<or> ng_mistakes s' \<ge> cfg_maxMistakes cfg))"
  using assms
proof (induction ps arbitrary: s)
  case Nil
  then show ?case by simp
next
  case (Cons p ps)
  from Cons.prems(2) obtain c where c: "map_of (ng_cells s) p = Some c" "ng_solution c"
    by auto
  from nonogram_fill_correct [OF c] obtain s1 where
    s1: "nonogram_applyAction cfg s (NgFill p) = Inr s1"
    and cells1: "ng_cells s1 = AList.update p (c\<lparr>ng_state := FILLED\<rparr>) (ng_cells s)"
    by blast
  have d1: "distinct (map fst (ng_cells s1))"
    using Cons.prems(1) by (simp add: cells1 distinct_update)
  have m1: "map_of (ng_cells s1) k =
              (if k = p then Some (c\<lparr>ng_state := FILLED\<rparr>) else map_of (ng_cells s) k)" for k
    by (simp add: cells1 update_conv')
  have a1: "\<forall>q \<in> set ps. \<exists>c'. map_of (ng_cells s1) q = Some c' \<and> ng_solution c'"
    using Cons.prems(2) c by (auto simp: m1)
  from Cons.IH [OF d1 a1] obtain s' where
    run: "nonogram_applyAll cfg s1 (map NgFill ps) = Inr s'"
    and d': "distinct (map fst (ng_cells s'))"
    and m': "\<And>k. map_of (ng_cells s') k =
                 (if k \<in> set ps then map_option (\<lambda>c. c\<lparr>ng_state := FILLED\<rparr>) (map_of (ng_cells s1) k)
                  else map_of (ng_cells s1) k)"
    and w': "ps \<noteq> [] \<longrightarrow> ng_isWon s' = checkWinCondition (ng_cells s') \<and>
              ng_isGameOver s' = (ng_isWon s' \<or> ng_mistakes s' \<ge> cfg_maxMistakes cfg)"
    by blast
  have run': "nonogram_applyAll cfg s (map NgFill (p # ps)) = Inr s'"
    using s1 run by simp
  have m: "map_of (ng_cells s') k =
             (if k \<in> set (p # ps) then map_option (\<lambda>c. c\<lparr>ng_state := FILLED\<rparr>) (map_of (ng_cells s) k)
              else map_of (ng_cells s) k)" for k
    using c by (simp add: m' m1)
  have w: "ng_isWon s' = checkWinCondition (ng_cells s') \<and>
           ng_isGameOver s' = (ng_isWon s' \<or> ng_mistakes s' \<ge> cfg_maxMistakes cfg)"
  proof (cases "ps = []")
    case True
    with run have "s' = s1" by simp
    with nonogram_applyAction_won [OF s1] show ?thesis by simp
  next
    case False
    with w' show ?thesis by simp
  qed
  from run' d' m w show ?case by blast
qed

lemma nonogram_init_distinct: "distinct (map fst (ng_cells (nonogram_init cfg pattern)))"
proof -
  let ?g = "cfg_gridSize cfg"
  let ?row = "\<lambda>f y. map (\<lambda>x. \<lparr>face = f, px = x, py = y\<rparr>) [0..?g - 1]"
  let ?fc = "\<lambda>f. concat (map (?row f) [0..?g - 1])"
  have eq: "map fst (ng_cells (nonogram_init cfg pattern)) = concat (map ?fc ALL_FACES)"
    by (simp add: nonogram_init_def map_concat comp_def)
  have row: "distinct (?row f y)" for f y
    by (simp add: distinct_map inj_on_def)
  have fc: "distinct (?fc f)" for f
    by (rule distinct_concat_map) (auto simp: row)
  have "distinct (concat (map ?fc ALL_FACES))"
    by (rule distinct_concat_map) (auto simp: fc ALL_FACES_def)
  with eq show ?thesis by simp
qed

lemma nonogram_init_unknown:
  "(k, c) \<in> set (ng_cells (nonogram_init cfg pattern)) \<Longrightarrow> ng_state c = UNKNOWN"
  by (auto simp: nonogram_init_def)

lemma nonogram_applyAction_defined:
  "map_of (ng_cells s) (ng_payload a) \<noteq> None \<Longrightarrow> \<exists>s1. nonogram_applyAction cfg s a = Inr s1"
  by (cases a) (auto simp: nonogram_applyAction_def Let_def)

lemma nonogram_applyAll_won:
  "nonogram_applyAll cfg s as = Inr s' \<Longrightarrow> as \<noteq> [] \<Longrightarrow>
     ng_isWon s' = checkWinCondition (ng_cells s')"
proof (induction as arbitrary: s)
  case Nil
  then show ?case by simp
next
  case (Cons a as)
  from Cons.prems(1) obtain s1 where
    s1: "nonogram_applyAction cfg s a = Inr s1" and run: "nonogram_applyAll cfg s1 as = Inr s'"
    by (auto split: sum.splits)
  show ?case
  proof (cases "as = []")
    case True
    with run have "s' = s1" by simp
    with nonogram_applyAction_won [OF s1] show ?thesis by simp
  next
    case False
    from Cons.IH [OF run False] show ?thesis .
  qed
qed

lemma nonogram_init_not_won:
  "\<not> ng_isWon (nonogram_init cfg pattern)" "\<not> ng_isGameOver (nonogram_init cfg pattern)"
  by (simp_all add: nonogram_init_def)

text \<open>
  Claim C9, amended. Lenient win condition: in every state that \<open>applyAction\<close> returns,
  \<open>isWon\<close> holds exactly when every cell whose solution is true is FILLED (the state of the
  other cells does not matter), and the game is over exactly when it is won or the
  mistakes have reached \<open>maxMistakes\<close>; an action on a cell of the map always returns a
  state. \<open>init\<close> sets \<open>isWon = false\<close> without looking at the cells, so the equivalence
  holds in every state reached from \<open>init\<close> (\<open>init\<close> itself included) provided the puzzle
  has at least one solution-true cell. In particular, from \<open>init\<close> of such a puzzle,
  filling every solution-true cell (in any order) and touching no other cell yields
  \<open>isWon = true\<close> and \<open>isGameOver = true\<close>, with all the other cells still UNKNOWN.
\<close>

theorem nonogram_lenient_win:
  "(nonogram_applyAction cfg s a = Inr s1 \<longrightarrow>
      (ng_isWon s1 \<longleftrightarrow> (\<forall>(k, c) \<in> set (ng_cells s1). ng_solution c \<longrightarrow> ng_state c = FILLED)) \<and>
      (ng_isGameOver s1 \<longleftrightarrow> ng_isWon s1 \<or> ng_mistakes s1 \<ge> cfg_maxMistakes cfg)) \<and>
   ((\<exists>(k, c) \<in> set (ng_cells (nonogram_init cfg pattern)). ng_solution c) \<and>
    nonogram_applyAll cfg (nonogram_init cfg pattern) as = Inr s3 \<longrightarrow>
      (ng_isWon s3 \<longleftrightarrow> (\<forall>(k, c) \<in> set (ng_cells s3). ng_solution c \<longrightarrow> ng_state c = FILLED))) \<and>
   (ps \<noteq> [] \<and>
    set ps = {k. \<exists>c. (k, c) \<in> set (ng_cells (nonogram_init cfg pattern)) \<and> ng_solution c} \<longrightarrow>
      (\<exists>s'. nonogram_applyAll cfg (nonogram_init cfg pattern) (map NgFill ps) = Inr s' \<and>
            ng_isWon s' \<and> ng_isGameOver s' \<and>
            (\<forall>(k, c) \<in> set (ng_cells s'). \<not> ng_solution c \<longrightarrow> ng_state c = UNKNOWN))) \<and>
   (map_of (ng_cells s) (ng_payload a) \<noteq> None \<longrightarrow> (\<exists>s2. nonogram_applyAction cfg s a = Inr s2)) \<and>
   \<not> ng_isWon (nonogram_init cfg pattern)"
proof -
  have part1: "(ng_isWon s1 \<longleftrightarrow> (\<forall>(k, c) \<in> set (ng_cells s1). ng_solution c \<longrightarrow> ng_state c = FILLED)) \<and>
        (ng_isGameOver s1 \<longleftrightarrow> ng_isWon s1 \<or> ng_mistakes s1 \<ge> cfg_maxMistakes cfg)"
    if "nonogram_applyAction cfg s a = Inr s1"
    using nonogram_applyAction_won [OF that] by (simp add: checkWinCondition_iff)
  let ?s0 = "nonogram_init cfg pattern"
  have reach: "ng_isWon s3 \<longleftrightarrow> (\<forall>(k, c) \<in> set (ng_cells s3). ng_solution c \<longrightarrow> ng_state c = FILLED)"
    if h: "(\<exists>(k, c) \<in> set (ng_cells ?s0). ng_solution c) \<and> nonogram_applyAll cfg ?s0 as = Inr s3"
  proof (cases "as = []")
    case True
    with h have eq: "s3 = ?s0" by simp
    from h obtain k c where kc: "(k, c) \<in> set (ng_cells ?s0)" "ng_solution c" by auto
    from nonogram_init_unknown [OF kc(1)] have "ng_state c \<noteq> FILLED" by simp
    with kc have "\<not> (\<forall>(k, c) \<in> set (ng_cells ?s0). ng_solution c \<longrightarrow> ng_state c = FILLED)"
      by auto
    with eq nonogram_init_not_won(1) [of cfg pattern] show ?thesis by simp
  next
    case False
    from h have "nonogram_applyAll cfg ?s0 as = Inr s3" by simp
    from nonogram_applyAll_won [OF this False] show ?thesis
      by (simp add: checkWinCondition_iff)
  qed
  have part2: "\<exists>s'. nonogram_applyAll cfg ?s0 (map NgFill ps) = Inr s' \<and> ng_isWon s' \<and> ng_isGameOver s' \<and>
            (\<forall>(k, c) \<in> set (ng_cells s'). \<not> ng_solution c \<longrightarrow> ng_state c = UNKNOWN)"
    if a: "ps \<noteq> [] \<and> set ps = {k. \<exists>c. (k, c) \<in> set (ng_cells ?s0) \<and> ng_solution c}"
  proof -
    have d0: "distinct (map fst (ng_cells ?s0))" by (rule nonogram_init_distinct)
  have in0: "map_of (ng_cells ?s0) k = Some c \<longleftrightarrow> (k, c) \<in> set (ng_cells ?s0)" for k c
    using d0 by (auto intro: map_of_is_SomeI dest: map_of_SomeD)
  have pre: "\<forall>p \<in> set ps. \<exists>c. map_of (ng_cells ?s0) p = Some c \<and> ng_solution c"
    using a by (auto simp: in0)
  from nonogram_fill_all [OF d0 pre, of cfg] a obtain s' where
    run: "nonogram_applyAll cfg ?s0 (map NgFill ps) = Inr s'"
    and d': "distinct (map fst (ng_cells s'))"
    and m': "\<And>k. map_of (ng_cells s') k =
                 (if k \<in> set ps then map_option (\<lambda>c. c\<lparr>ng_state := FILLED\<rparr>) (map_of (ng_cells ?s0) k)
                  else map_of (ng_cells ?s0) k)"
    and w': "ng_isWon s' = checkWinCondition (ng_cells s')"
      "ng_isGameOver s' = (ng_isWon s' \<or> ng_mistakes s' \<ge> cfg_maxMistakes cfg)"
    by blast
  have entry: "(ng_solution c \<longrightarrow> ng_state c = FILLED) \<and> (\<not> ng_solution c \<longrightarrow> ng_state c = UNKNOWN)"
    if kc: "(k, c) \<in> set (ng_cells s')" for k c
  proof -
    from kc d' have mk: "map_of (ng_cells s') k = Some c" by (simp add: map_of_is_SomeI)
    show ?thesis
    proof (cases "k \<in> set ps")
      case True
      with pre obtain c0 where c0: "map_of (ng_cells ?s0) k = Some c0" "ng_solution c0" by auto
      with mk m' [of k] True have "c = c0\<lparr>ng_state := FILLED\<rparr>" by simp
      with c0 show ?thesis by simp
    next
      case False
      with mk m' [of k] have c0: "map_of (ng_cells ?s0) k = Some c" by simp
      then have mem: "(k, c) \<in> set (ng_cells ?s0)" by (simp add: in0)
      with False a have "\<not> ng_solution c" by auto
      with nonogram_init_unknown [OF mem] show ?thesis by simp
    qed
  qed
  have won: "checkWinCondition (ng_cells s')"
    using entry by (auto simp: checkWinCondition_iff)
  with w' have "ng_isWon s'" "ng_isGameOver s'" by simp_all
  with run entry show ?thesis
    by blast
  qed
  have part3: "\<exists>s2. nonogram_applyAction cfg s a = Inr s2"
    if "map_of (ng_cells s) (ng_payload a) \<noteq> None"
    using nonogram_applyAction_defined [OF that] .
  show ?thesis
  proof (intro conjI)
    show "nonogram_applyAction cfg s a = Inr s1 \<longrightarrow>
      (ng_isWon s1 \<longleftrightarrow> (\<forall>(k, c) \<in> set (ng_cells s1). ng_solution c \<longrightarrow> ng_state c = FILLED)) \<and>
      (ng_isGameOver s1 \<longleftrightarrow> ng_isWon s1 \<or> ng_mistakes s1 \<ge> cfg_maxMistakes cfg)"
      using part1 by (rule impI)
    show "(\<exists>(k, c) \<in> set (ng_cells ?s0). ng_solution c) \<and>
        nonogram_applyAll cfg ?s0 as = Inr s3 \<longrightarrow>
      (ng_isWon s3 \<longleftrightarrow> (\<forall>(k, c) \<in> set (ng_cells s3). ng_solution c \<longrightarrow> ng_state c = FILLED))"
      using reach by (rule impI)
    show "ps \<noteq> [] \<and>
      set ps = {k. \<exists>c. (k, c) \<in> set (ng_cells ?s0) \<and> ng_solution c} \<longrightarrow>
      (\<exists>s'. nonogram_applyAll cfg ?s0 (map NgFill ps) = Inr s' \<and>
            ng_isWon s' \<and> ng_isGameOver s' \<and>
            (\<forall>(k, c) \<in> set (ng_cells s'). \<not> ng_solution c \<longrightarrow> ng_state c = UNKNOWN))"
      using part2 by (rule impI)
    show "map_of (ng_cells s) (ng_payload a) \<noteq> None \<longrightarrow> (\<exists>s2. nonogram_applyAction cfg s a = Inr s2)"
      using part3 by (rule impI)
    show "\<not> ng_isWon ?s0"
      by (rule nonogram_init_not_won(1))
  qed
qed


text \<open>
  Claim C9 as stated fails at the start of a puzzle that has no solution-true cell. On
  a cube of grid size 1 the \<^verbatim>\<open>noise\<close> generator builds such a puzzle for every seed:
  \<^verbatim>\<open>countNeighbors\<close> of the only cell of a face is 0, so the smoothing pass clears the
  cell; \<^verbatim>\<open>enforceEdgeConnections\<close> joins cleared cells only; and \<^verbatim>\<open>ensureMinimumComplexity\<close>
  adds nothing, its thresholds being \<^verbatim>\<open>Math.floor(6 * 0.15) = 0\<close> and
  \<^verbatim>\<open>Math.floor(1 * 0.1) = 0\<close>. \<open>init\<close> then returns \<open>isWon = false\<close> although every
  solution-true cell (there is none) is FILLED, and filling every solution-true cell
  applies no action at all, so the state stays not won and not over.
\<close>

definition blankCfg :: NonogramConfig where
  "blankCfg = \<lparr>cfg_gridSize = 1, cfg_maxMistakes = 3\<rparr>"

definition blankPattern :: "CubeFace \<Rightarrow> int \<Rightarrow> int \<Rightarrow> bool" where
  "blankPattern f y x \<longleftrightarrow> False"

text \<open>The keys of the cells whose solution is true, in the order of the map.\<close>

definition solutionCells :: "(CubePosition \<times> NonogramCell) list \<Rightarrow> CubePosition list" where
  "solutionCells cells = map fst (filter (\<lambda>(k, c). ng_solution c) cells)"

lemma upto_0_0: "[0..(0::int)] = [0]"
  by (simp add: upto.simps)

lemma blank_init_cells:
  "ng_cells (nonogram_init blankCfg blankPattern) =
     map (\<lambda>f. (\<lparr>face = f, px = 0, py = 0\<rparr>, \<lparr>ng_solution = False, ng_state = UNKNOWN\<rparr>)) ALL_FACES"
  by (simp add: nonogram_init_def blankCfg_def blankPattern_def upto_0_0 ALL_FACES_def)

theorem nonogram_blank_puzzle_counterexample:
  "solutionCells (ng_cells (nonogram_init blankCfg blankPattern)) = [] \<and>
   checkWinCondition (ng_cells (nonogram_init blankCfg blankPattern)) \<and>
   \<not> (ng_isWon (nonogram_init blankCfg blankPattern) \<longleftrightarrow>
      (\<forall>(k, c) \<in> set (ng_cells (nonogram_init blankCfg blankPattern)).
          ng_solution c \<longrightarrow> ng_state c = FILLED)) \<and>
   nonogram_applyAll blankCfg (nonogram_init blankCfg blankPattern)
      (map NgFill (solutionCells (ng_cells (nonogram_init blankCfg blankPattern))))
     = Inr (nonogram_init blankCfg blankPattern) \<and>
   \<not> ng_isWon (nonogram_init blankCfg blankPattern) \<and>
   \<not> ng_isGameOver (nonogram_init blankCfg blankPattern)"
proof -
  let ?s0 = "nonogram_init blankCfg blankPattern"
  have sc: "solutionCells (ng_cells ?s0) = []"
    unfolding blank_init_cells by (simp add: solutionCells_def ALL_FACES_def)
  have cw: "checkWinCondition (ng_cells ?s0)"
    unfolding blank_init_cells by (simp add: checkWinCondition_def ALL_FACES_def)
  have nw: "\<not> ng_isWon ?s0" "\<not> ng_isGameOver ?s0"
    by (simp_all add: nonogram_init_def)
  from cw have al: "\<forall>(k, c) \<in> set (ng_cells ?s0). ng_solution c \<longrightarrow> ng_state c = FILLED"
    by (simp only: checkWinCondition_iff)
  have run: "nonogram_applyAll blankCfg ?s0 (map NgFill (solutionCells (ng_cells ?s0))) = Inr ?s0"
    by (simp only: sc list.map nonogram_applyAll.simps)
  from nw al have "\<not> (ng_isWon ?s0 \<longleftrightarrow>
      (\<forall>(k, c) \<in> set (ng_cells ?s0). ng_solution c \<longrightarrow> ng_state c = FILLED))"
    by blast
  with sc cw run nw show ?thesis by (intro conjI)
qed


text \<open>A 2x2 puzzle whose picture is the diagonal \<open>x = y\<close> of every face.\<close>

definition diagCfg :: NonogramConfig where
  "diagCfg = \<lparr>cfg_gridSize = 2, cfg_maxMistakes = 3\<rparr>"

definition diagPattern :: "CubeFace \<Rightarrow> int \<Rightarrow> int \<Rightarrow> bool" where
  "diagPattern f y x \<longleftrightarrow> x = y"

lemma upto_0_1: "[0..(1::int)] = [0, 1]"
  by (simp add: upto.simps)

lemma diag_init_cells:
  "ng_cells (nonogram_init diagCfg diagPattern) =
     concat (map (\<lambda>f. [(\<lparr>face = f, px = 0, py = 0\<rparr>, \<lparr>ng_solution = True, ng_state = UNKNOWN\<rparr>),
                       (\<lparr>face = f, px = 1, py = 0\<rparr>, \<lparr>ng_solution = False, ng_state = UNKNOWN\<rparr>),
                       (\<lparr>face = f, px = 0, py = 1\<rparr>, \<lparr>ng_solution = False, ng_state = UNKNOWN\<rparr>),
                       (\<lparr>face = f, px = 1, py = 1\<rparr>, \<lparr>ng_solution = True, ng_state = UNKNOWN\<rparr>)])
                 ALL_FACES)"
  by (simp add: nonogram_init_def diagCfg_def diagPattern_def upto_0_1)

definition diagCells :: "CubePosition list" where
  "diagCells = concat (map (\<lambda>f. [\<lparr>face = f, px = 0, py = 0\<rparr>, \<lparr>face = f, px = 1, py = 1\<rparr>]) ALL_FACES)"

lemma solution_keys_filter:
  "{k. \<exists>c. (k, c) \<in> set cells \<and> ng_solution c} = set (map fst (filter (\<lambda>kc. ng_solution (snd kc)) cells))"
  by force

lemma diag_solution_keys:
  "map fst (filter (\<lambda>kc. ng_solution (snd kc)) (ng_cells (nonogram_init diagCfg diagPattern))) = diagCells"
  unfolding diag_init_cells by (simp add: diagCells_def ALL_FACES_def)

lemma diag_markEmpty:
  "nonogram_applyAction diagCfg (nonogram_init diagCfg diagPattern) (NgMarkEmpty \<lparr>face = TOP, px = 1, py = 0\<rparr>)
      = Inr (projr (nonogram_applyAction diagCfg (nonogram_init diagCfg diagPattern)
                (NgMarkEmpty \<lparr>face = TOP, px = 1, py = 0\<rparr>)))"
  by (simp add: nonogram_applyAction_def Let_def)


lemma diag_cell_present:
  "map_of (ng_cells (nonogram_init diagCfg diagPattern))
     (ng_payload (NgMarkEmpty \<lparr>face = TOP, px = 1, py = 0\<rparr>)) \<noteq> None"
  unfolding diag_init_cells by (simp add: ALL_FACES_def)

lemma diag_has_solution:
  "\<exists>(k, c) \<in> set (ng_cells (nonogram_init diagCfg diagPattern)). ng_solution c"
  unfolding diag_init_cells by (simp add: ALL_FACES_def)

theorem nonogram_lenient_win_witness:
  "map_of (ng_cells (nonogram_init diagCfg diagPattern))
     (ng_payload (NgMarkEmpty \<lparr>face = TOP, px = 1, py = 0\<rparr>)) \<noteq> None \<and>
   (\<exists>s2. nonogram_applyAction diagCfg (nonogram_init diagCfg diagPattern)
           (NgMarkEmpty \<lparr>face = TOP, px = 1, py = 0\<rparr>) = Inr s2) \<and>
   nonogram_applyAction diagCfg (nonogram_init diagCfg diagPattern) (NgMarkEmpty \<lparr>face = TOP, px = 1, py = 0\<rparr>)
      = Inr (projr (nonogram_applyAction diagCfg (nonogram_init diagCfg diagPattern)
                (NgMarkEmpty \<lparr>face = TOP, px = 1, py = 0\<rparr>))) \<and>
   (ng_isGameOver (projr (nonogram_applyAction diagCfg (nonogram_init diagCfg diagPattern)
                (NgMarkEmpty \<lparr>face = TOP, px = 1, py = 0\<rparr>))) \<longleftrightarrow>
    ng_isWon (projr (nonogram_applyAction diagCfg (nonogram_init diagCfg diagPattern)
                (NgMarkEmpty \<lparr>face = TOP, px = 1, py = 0\<rparr>))) \<or>
    ng_mistakes (projr (nonogram_applyAction diagCfg (nonogram_init diagCfg diagPattern)
                (NgMarkEmpty \<lparr>face = TOP, px = 1, py = 0\<rparr>))) \<ge> cfg_maxMistakes diagCfg) \<and>
   (\<exists>(k, c) \<in> set (ng_cells (nonogram_init diagCfg diagPattern)). ng_solution c) \<and>
   nonogram_applyAll diagCfg (nonogram_init diagCfg diagPattern) []
     = Inr (nonogram_init diagCfg diagPattern) \<and>
   (ng_isWon (nonogram_init diagCfg diagPattern) \<longleftrightarrow>
      (\<forall>(k, c) \<in> set (ng_cells (nonogram_init diagCfg diagPattern)).
          ng_solution c \<longrightarrow> ng_state c = FILLED)) \<and>
   \<not> ng_isWon (nonogram_init diagCfg diagPattern) \<and>
   diagCells \<noteq> [] \<and>
   set diagCells = {k. \<exists>c. (k, c) \<in> set (ng_cells (nonogram_init diagCfg diagPattern)) \<and> ng_solution c} \<and>
   (\<exists>s'. nonogram_applyAll diagCfg (nonogram_init diagCfg diagPattern) (map NgFill diagCells) = Inr s' \<and>
         ng_isWon s' \<and> ng_isGameOver s' \<and>
         (\<forall>(k, c) \<in> set (ng_cells s'). \<not> ng_solution c \<longrightarrow> ng_state c = UNKNOWN))"
proof -
  have b: "diagCells \<noteq> []"
    by (simp add: diagCells_def ALL_FACES_def)
  have c: "set diagCells = {k. \<exists>c. (k, c) \<in> set (ng_cells (nonogram_init diagCfg diagPattern)) \<and> ng_solution c}"
    by (simp only: solution_keys_filter diag_solution_keys)
  have r: "nonogram_applyAll diagCfg (nonogram_init diagCfg diagPattern) []
             = Inr (nonogram_init diagCfg diagPattern)"
    by (simp only: nonogram_applyAll.simps)
  note T = nonogram_lenient_win [where cfg = diagCfg and s = "nonogram_init diagCfg diagPattern"
      and a = "NgMarkEmpty \<lparr>face = TOP, px = 1, py = 0\<rparr>"
      and ?s1.0 = "projr (nonogram_applyAction diagCfg (nonogram_init diagCfg diagPattern)
                (NgMarkEmpty \<lparr>face = TOP, px = 1, py = 0\<rparr>))"
      and pattern = diagPattern and as = "[]" and ?s3.0 = "nonogram_init diagCfg diagPattern"
      and ps = diagCells]
  from T [THEN conjunct2, THEN conjunct2, THEN conjunct1] b c
  have fill: "\<exists>s'. nonogram_applyAll diagCfg (nonogram_init diagCfg diagPattern) (map NgFill diagCells) = Inr s' \<and>
         ng_isWon s' \<and> ng_isGameOver s' \<and>
         (\<forall>(k, c) \<in> set (ng_cells s'). \<not> ng_solution c \<longrightarrow> ng_state c = UNKNOWN)"
    by (elim impE) (intro conjI, assumption+)
  from T [THEN conjunct1] diag_markEmpty
  have over: "ng_isGameOver (projr (nonogram_applyAction diagCfg (nonogram_init diagCfg diagPattern)
                (NgMarkEmpty \<lparr>face = TOP, px = 1, py = 0\<rparr>))) \<longleftrightarrow>
    ng_isWon (projr (nonogram_applyAction diagCfg (nonogram_init diagCfg diagPattern)
                (NgMarkEmpty \<lparr>face = TOP, px = 1, py = 0\<rparr>))) \<or>
    ng_mistakes (projr (nonogram_applyAction diagCfg (nonogram_init diagCfg diagPattern)
                (NgMarkEmpty \<lparr>face = TOP, px = 1, py = 0\<rparr>))) \<ge> cfg_maxMistakes diagCfg"
    by (elim impE) (assumption, erule conjunct2)
  from T [THEN conjunct2, THEN conjunct1] diag_has_solution r
  have start: "ng_isWon (nonogram_init diagCfg diagPattern) \<longleftrightarrow>
      (\<forall>(k, c) \<in> set (ng_cells (nonogram_init diagCfg diagPattern)).
          ng_solution c \<longrightarrow> ng_state c = FILLED)"
    by (elim impE) (intro conjI, assumption+)
  from T [THEN conjunct2, THEN conjunct2, THEN conjunct2, THEN conjunct1] diag_cell_present
  have def: "\<exists>s2. nonogram_applyAction diagCfg (nonogram_init diagCfg diagPattern)
           (NgMarkEmpty \<lparr>face = TOP, px = 1, py = 0\<rparr>) = Inr s2"
    by (rule mp)
  note nw = T [THEN conjunct2, THEN conjunct2, THEN conjunct2, THEN conjunct2]
  from fill over start def nw show ?thesis
    using diag_markEmpty diag_cell_present diag_has_solution r b c by (intro conjI)
qed


section \<open>Minesweeper\<close>

record MinesweeperCell =
  ms_isMine :: bool
  ms_isRevealed :: bool
  ms_isFlagged :: bool
  ms_adjacentMines :: int

text \<open>\<^verbatim>\<open>MinesweeperGameState\<close> (without the constant \<^verbatim>\<open>pieces\<close> and \<^verbatim>\<open>winner\<close>).\<close>

record MinesweeperGameState =
  ms_cells :: "(CubePosition \<times> MinesweeperCell) list"
  ms_mineCount :: int
  ms_flagCount :: int
  ms_revealedCount :: int
  ms_isFirstClick :: bool
  ms_isGameOver :: bool
  ms_isWon :: bool
  ms_gridSize :: int
  ms_totalMines :: int
  ms_explodedMine :: "CubePosition option"

datatype MinesweeperAction = MsReveal CubePosition | MsFlag CubePosition | MsChord CubePosition

fun ms_payload :: "MinesweeperAction \<Rightarrow> CubePosition" where
  "ms_payload (MsReveal p) = p"
| "ms_payload (MsFlag p) = p"
| "ms_payload (MsChord p) = p"

record MinesweeperConfig =
  mcfg_gridSize :: int
  mcfg_totalMines :: int

definition DEFAULT_CONFIG :: MinesweeperConfig where
  "DEFAULT_CONFIG = \<lparr>mcfg_gridSize = 8, mcfg_totalMines = 60\<rparr>"

text \<open>\<^verbatim>\<open>init\<close>: the loops insert the cells by face, then \<open>x\<close>, then \<open>y\<close>.\<close>

definition minesweeper_init :: "MinesweeperConfig \<Rightarrow> MinesweeperGameState" where
  "minesweeper_init cfg =
     \<lparr>ms_cells =
        concat (map (\<lambda>f.
          concat (map (\<lambda>x.
            map (\<lambda>y. (\<lparr>face = f, px = x, py = y\<rparr>,
                       \<lparr>ms_isMine = False, ms_isRevealed = False, ms_isFlagged = False,
                        ms_adjacentMines = 0\<rparr>))
                [0..mcfg_gridSize cfg - 1])
            [0..mcfg_gridSize cfg - 1]))
          ALL_FACES),
      ms_mineCount = 0,
      ms_flagCount = 0,
      ms_revealedCount = 0,
      ms_isFirstClick = True,
      ms_isGameOver = False,
      ms_isWon = False,
      ms_gridSize = mcfg_gridSize cfg,
      ms_totalMines = mcfg_totalMines cfg,
      ms_explodedMine = None\<rparr>"

text \<open>
  The Fisher-Yates loop of \<^verbatim>\<open>placeMines\<close>, \<^verbatim>\<open>for (i = length - 1; i > 0; i--)\<close>, with one
  draw per iteration; \<open>shuffleFrom i\<close> runs the iterations \<open>i, i - 1, ..., 1\<close>.
\<close>

fun shuffleFrom :: "nat \<Rightarrow> random \<Rightarrow> 'a list \<Rightarrow> 'a list" where
  "shuffleFrom 0 rnd xs = xs"
| "shuffleFrom (Suc i) rnd xs =
     (let j = nat (randomIndex (shd rnd) (int (Suc i) + 1))
      in shuffleFrom i (stl rnd) (xs[Suc i := xs ! j, j := xs ! Suc i]))"

text \<open>\<^verbatim>\<open>array.slice(0, n)\<close>; a negative \<open>n\<close> counts from the end.\<close>

definition sliceTo :: "int \<Rightarrow> 'a list \<Rightarrow> 'a list" where
  "sliceTo n xs = (if n < 0 then take (nat (int (length xs) + n)) xs else take (nat n) xs)"

text \<open>\<^verbatim>\<open>neighborCell?.isMine\<close> for the neighbour \<open>n\<close>: false when there is no such cell.\<close>

definition isMineAt :: "(CubePosition \<times> MinesweeperCell) list \<Rightarrow> CubePosition \<Rightarrow> bool" where
  "isMineAt cells n = (case map_of cells n of Some c \<Rightarrow> ms_isMine c | None \<Rightarrow> False)"

text \<open>
  \<^verbatim>\<open>placeMines\<close>, with its two loop bodies named. \<open>placeOne\<close> is the body of
  \<^verbatim>\<open>for (const key of minePositions)\<close>; the keys come from the map itself, so
  \<^verbatim>\<open>newCells.get(key)!\<close> is always defined there. \<open>countAdjacent\<close> is the body of
  \<^verbatim>\<open>for (const [key, cell] of newCells)\<close>, where \<^verbatim>\<open>parseKey(key)\<close> gives back the position
  of the key.
\<close>

definition placeOne ::
  "CubePosition \<Rightarrow> (CubePosition \<times> MinesweeperCell) list \<Rightarrow> (CubePosition \<times> MinesweeperCell) list" where
  "placeOne key newCells =
     (case map_of newCells key of
        Some cell \<Rightarrow> AList.update key (cell\<lparr>ms_isMine := True\<rparr>) newCells
      | None \<Rightarrow> newCells)"

definition countAdjacent ::
  "int \<Rightarrow> CubePosition \<times> MinesweeperCell \<Rightarrow> (CubePosition \<times> MinesweeperCell) list \<Rightarrow>
   (CubePosition \<times> MinesweeperCell) list" where
  "countAdjacent gridSize = (\<lambda>(key, cell) newCells.
     if \<not> ms_isMine cell
     then AList.update key
            (cell\<lparr>ms_adjacentMines :=
                     int (length (filter (isMineAt newCells) (getAllNeighbors key gridSize)))\<rparr>)
            newCells
     else newCells)"

definition placeMines ::
  "random \<Rightarrow> (CubePosition \<times> MinesweeperCell) list \<Rightarrow> CubePosition \<Rightarrow> int \<Rightarrow> int \<Rightarrow>
   (CubePosition \<times> MinesweeperCell) list" where
  "placeMines rnd cells safePosition gridSize totalMines =
     (let safeNeighbors = getAllNeighbors safePosition gridSize;
          safeZone = posKey safePosition # map posKey safeNeighbors;
          availablePositions = filter (\<lambda>key. posKey key \<notin> set safeZone) (map fst cells);
          shuffled = shuffleFrom (length availablePositions - 1) rnd availablePositions;
          minePositions = sliceTo totalMines shuffled;
          mined = fold placeOne minePositions cells
      in fold (countAdjacent gridSize) mined mined)"

text \<open>
  The flood fill of \<^verbatim>\<open>revealCell\<close>: \<open>toReveal\<close> is the stack (its head is the top),
  \<open>visited\<close> the set of keys, \<open>revealedCount\<close> the counter. Every iteration either
  shortens the stack or visits a new cell of the map, which is the termination measure.
\<close>

function floodFill ::
  "int \<Rightarrow> (CubePosition \<times> MinesweeperCell) list \<Rightarrow> CubePosition list \<Rightarrow> string list \<Rightarrow> int \<Rightarrow>
   (CubePosition \<times> MinesweeperCell) list \<times> int" where
  "floodFill gridSize newCells [] visited revealedCount = (newCells, revealedCount)"
| "floodFill gridSize newCells (current # toReveal) visited revealedCount =
     (if posKey current \<in> set visited
      then floodFill gridSize newCells toReveal visited revealedCount
      else (case map_of newCells current of
              None \<Rightarrow> floodFill gridSize newCells toReveal (posKey current # visited) revealedCount
            | Some currentCell \<Rightarrow>
                if ms_isRevealed currentCell \<or> ms_isFlagged currentCell \<or> ms_isMine currentCell
                then floodFill gridSize newCells toReveal (posKey current # visited) revealedCount
                else floodFill gridSize
                       (AList.update current (currentCell\<lparr>ms_isRevealed := True\<rparr>) newCells)
                       (if ms_adjacentMines currentCell = 0
                        then rev (filter (\<lambda>neighbor. posKey neighbor \<notin> set (posKey current # visited))
                                    (getAllNeighbors current gridSize)) @ toReveal
                        else toReveal)
                       (posKey current # visited)
                       (revealedCount + 1)))"
  by pat_completeness auto
termination
proof (relation "measures
    [\<lambda>(g, cells, stack, visited, n). card (posKey ` fst ` set cells - set visited),
     \<lambda>(g, cells, stack, visited, n). length stack]", goal_cases)
  case 1
  then show ?case by simp
next
  case (2 g cells current stack visited n)
  then show ?case by simp
next
  case (3 g cells current stack visited n)
  have "posKey ` fst ` set cells - set (posKey current # visited) \<subseteq> posKey ` fst ` set cells - set visited"
    by auto
  then have "card (posKey ` fst ` set cells - set (posKey current # visited))
        \<le> card (posKey ` fst ` set cells - set visited)"
    by (intro card_mono) auto
  then show ?case by auto
next
  case (4 g cells current stack visited n cell)
  have "posKey ` fst ` set cells - set (posKey current # visited) \<subseteq> posKey ` fst ` set cells - set visited"
    by auto
  then have "card (posKey ` fst ` set cells - set (posKey current # visited))
        \<le> card (posKey ` fst ` set cells - set visited)"
    by (intro card_mono) auto
  then show ?case by auto
next
  case (5 g cells current stack visited n cell)
  from 5(2) have mem: "current \<in> fst ` set cells"
    by (auto dest: map_of_SomeD intro: rev_image_eqI)
  then have dom: "fst ` set (AList.update current (cell\<lparr>ms_isRevealed := True\<rparr>) cells) = fst ` set cells"
    by (auto simp: dom_update)
  have "posKey ` fst ` set cells - set (posKey current # visited)
          \<subset> posKey ` fst ` set cells - set visited"
    using mem 5(1) by auto
  then have "card (posKey ` fst ` set cells - set (posKey current # visited))
        < card (posKey ` fst ` set cells - set visited)"
    by (intro psubset_card_mono) auto
  then show ?case by (simp add: dom)
qed


declare floodFill.simps [simp del]

text \<open>\<^verbatim>\<open>revealCell\<close> returns \<^verbatim>\<open>{ cells, hitMine, revealed }\<close>.\<close>

definition revealCell ::
  "(CubePosition \<times> MinesweeperCell) list \<Rightarrow> CubePosition \<Rightarrow> int \<Rightarrow>
   (CubePosition \<times> MinesweeperCell) list \<times> bool \<times> int" where
  "revealCell cells position gridSize =
     (case map_of cells position of
        None \<Rightarrow> (cells, False, 0)
      | Some cell \<Rightarrow>
          if ms_isRevealed cell \<or> ms_isFlagged cell then (cells, False, 0)
          else if ms_isMine cell
          then (AList.update position (cell\<lparr>ms_isRevealed := True\<rparr>) cells, True, 1)
          else (let (newCells, revealedCount) = floodFill gridSize cells [position] [] 0
                in (newCells, False, revealedCount)))"

text \<open>\<^verbatim>\<open>chordReveal\<close> returns \<^verbatim>\<open>{ cells, hitMine, revealed, explodedMine }\<close>.\<close>

definition chordReveal ::
  "(CubePosition \<times> MinesweeperCell) list \<Rightarrow> CubePosition \<Rightarrow> int \<Rightarrow>
   (CubePosition \<times> MinesweeperCell) list \<times> bool \<times> int \<times> CubePosition option" where
  "chordReveal cells position gridSize =
     (case map_of cells position of
        None \<Rightarrow> (cells, False, 0, None)
      | Some cell \<Rightarrow>
          if \<not> ms_isRevealed cell \<or> ms_adjacentMines cell = 0 then (cells, False, 0, None)
          else
            (let neighbors = getAllNeighbors position gridSize;
                 flagCount = int (length (filter
                    (\<lambda>neighbor. case map_of cells neighbor of Some c \<Rightarrow> ms_isFlagged c | None \<Rightarrow> False)
                    neighbors))
             in if flagCount \<noteq> ms_adjacentMines cell then (cells, False, 0, None)
                else fold (\<lambda>neighbor (newCells, hitMine, totalRevealed, explodedMine).
                             case map_of newCells neighbor of
                               None \<Rightarrow> (newCells, hitMine, totalRevealed, explodedMine)
                             | Some neighborCell \<Rightarrow>
                                 if \<not> ms_isFlagged neighborCell \<and> \<not> ms_isRevealed neighborCell
                                 then (let (cells', hit, revealed) = revealCell newCells neighbor gridSize
                                       in (cells', hitMine \<or> hit, totalRevealed + revealed,
                                           if hit then Some neighbor else explodedMine))
                                 else (newCells, hitMine, totalRevealed, explodedMine))
                          neighbors (cells, False, 0, None)))"

definition minesweeper_isValidAction :: "MinesweeperGameState \<Rightarrow> MinesweeperAction \<Rightarrow> bool" where
  "minesweeper_isValidAction state action =
     (if ms_isGameOver state then False
      else case map_of (ms_cells state) (ms_payload action) of
        None \<Rightarrow> False
      | Some cell \<Rightarrow>
          (case action of
             MsReveal _ \<Rightarrow> \<not> ms_isRevealed cell \<and> \<not> ms_isFlagged cell
           | MsFlag _ \<Rightarrow> \<not> ms_isRevealed cell
           | MsChord _ \<Rightarrow> ms_isRevealed cell \<and> ms_adjacentMines cell > 0))"

text \<open>\<^verbatim>\<open>applyAction\<close>; the first \<^verbatim>\<open>reveal\<close> places the mines, drawing from \<open>rnd\<close>.\<close>

definition minesweeper_applyAction ::
  "random \<Rightarrow> MinesweeperGameState \<Rightarrow> MinesweeperAction \<Rightarrow> MinesweeperGameState" where
  "minesweeper_applyAction rnd state action =
     (if ms_isGameOver state then state
      else case action of
        MsReveal payload \<Rightarrow>
          (let cells = (if ms_isFirstClick state
                        then placeMines rnd (ms_cells state) payload (ms_gridSize state)
                               (ms_totalMines state)
                        else ms_cells state);
               (resultCells, hitMine, revealed) = revealCell cells payload (ms_gridSize state);
               newRevealedCount = ms_revealedCount state + revealed;
               totalCells = 6 * ms_gridSize state * ms_gridSize state;
               nonMineCells = totalCells - ms_totalMines state;
               isWon = (newRevealedCount \<ge> nonMineCells)
           in state\<lparr>ms_cells := resultCells, ms_mineCount := ms_totalMines state,
                     ms_revealedCount := newRevealedCount, ms_isFirstClick := False,
                     ms_isGameOver := (hitMine \<or> isWon), ms_isWon := (isWon \<and> \<not> hitMine),
                     ms_explodedMine := (if hitMine then Some payload else None)\<rparr>)
      | MsFlag payload \<Rightarrow>
          (case map_of (ms_cells state) payload of
             None \<Rightarrow> state
           | Some cell \<Rightarrow>
               if ms_isRevealed cell then state
               else (let newFlagged = \<not> ms_isFlagged cell
                     in state\<lparr>ms_cells := AList.update payload (cell\<lparr>ms_isFlagged := newFlagged\<rparr>)
                                               (ms_cells state),
                               ms_flagCount := ms_flagCount state + (if newFlagged then 1 else -1)\<rparr>))
      | MsChord payload \<Rightarrow>
          (let (resultCells, hitMine, revealed, explodedMine) =
                 chordReveal (ms_cells state) payload (ms_gridSize state);
               newRevealedCount = ms_revealedCount state + revealed;
               totalCells = 6 * ms_gridSize state * ms_gridSize state;
               nonMineCells = totalCells - ms_totalMines state;
               isWon = (newRevealedCount \<ge> nonMineCells)
           in state\<lparr>ms_cells := resultCells, ms_revealedCount := newRevealedCount,
                     ms_isGameOver := (hitMine \<or> isWon), ms_isWon := (isWon \<and> \<not> hitMine),
                     ms_explodedMine := explodedMine\<rparr>))"

text \<open>
  Claim C10. In a state that is not over, a \<open>flag\<close> action whose target cell is already
  revealed, or is absent from the cell map, returns the state unchanged; \<open>isValidAction\<close>
  rejects the same action.
\<close>

theorem minesweeper_flag_invalid_noop:
  "\<not> ms_isGameOver s \<Longrightarrow>
   map_of (ms_cells s) p = None \<or> (\<exists>c. map_of (ms_cells s) p = Some c \<and> ms_isRevealed c) \<Longrightarrow>
     minesweeper_applyAction rnd s (MsFlag p) = s \<and> \<not> minesweeper_isValidAction s (MsFlag p)"
  by (auto simp: minesweeper_applyAction_def minesweeper_isValidAction_def)

text \<open>A one-cell-per-face board whose FRONT cell has been revealed by hand.\<close>

definition revealedBoard :: MinesweeperGameState where
  "revealedBoard =
     (minesweeper_init \<lparr>mcfg_gridSize = 1, mcfg_totalMines = 1\<rparr>)
       \<lparr>ms_cells := AList.update \<lparr>face = FRONT, px = 0, py = 0\<rparr>
            \<lparr>ms_isMine = False, ms_isRevealed = True, ms_isFlagged = False, ms_adjacentMines = 1\<rparr>
            (ms_cells (minesweeper_init \<lparr>mcfg_gridSize = 1, mcfg_totalMines = 1\<rparr>)),
        ms_isFirstClick := False, ms_revealedCount := 1\<rparr>"

theorem minesweeper_flag_invalid_noop_witness:
  "\<not> ms_isGameOver revealedBoard \<and>
   map_of (ms_cells revealedBoard) \<lparr>face = TOP, px = 5, py = 0\<rparr> = None \<and>
   minesweeper_applyAction (sconst 0) revealedBoard (MsFlag \<lparr>face = TOP, px = 5, py = 0\<rparr>) = revealedBoard \<and>
   (\<exists>c. map_of (ms_cells revealedBoard) \<lparr>face = FRONT, px = 0, py = 0\<rparr> = Some c \<and> ms_isRevealed c) \<and>
   minesweeper_applyAction (sconst 0) revealedBoard (MsFlag \<lparr>face = FRONT, px = 0, py = 0\<rparr>) = revealedBoard"
proof -
  have a: "\<not> ms_isGameOver revealedBoard"
    by (simp add: revealedBoard_def minesweeper_init_def)
  have b: "map_of (ms_cells revealedBoard) \<lparr>face = TOP, px = 5, py = 0\<rparr> = None"
    by (simp add: revealedBoard_def minesweeper_init_def ALL_FACES_def update_conv')
  have c: "\<exists>c. map_of (ms_cells revealedBoard) \<lparr>face = FRONT, px = 0, py = 0\<rparr> = Some c \<and> ms_isRevealed c"
    by (simp add: revealedBoard_def update_conv')
  from minesweeper_flag_invalid_noop [OF a disjI1 [OF b], of "sconst 0"]
    minesweeper_flag_invalid_noop [OF a disjI2 [OF c], of "sconst 0"] a b c
  show ?thesis by blast
qed


subsection \<open>The shuffle permutes the list\<close>

lemma validRandom_stl: "validRandom rnd \<Longrightarrow> validRandom (stl rnd)"
  by (auto simp: validRandom_def dest: stl_sset)

lemma validRandom_shd: "validRandom rnd \<Longrightarrow> 0 \<le> shd rnd \<and> shd rnd < 1"
  by (simp add: validRandom_def shd_sset)

lemma randomIndex_range:
  assumes "0 \<le> r" "r < 1" "0 < n"
  shows "0 \<le> randomIndex r n \<and> randomIndex r n < n"
proof -
  have "0 \<le> r * of_int n" using assms by simp
  moreover have "r * of_int n < of_int n" using assms by simp
  ultimately show ?thesis
    by (simp add: randomIndex_def floor_less_iff)
qed

lemma shuffleFrom_perm:
  "validRandom rnd \<Longrightarrow> i < length xs \<Longrightarrow>
     set (shuffleFrom i rnd xs) = set xs \<and> length (shuffleFrom i rnd xs) = length xs \<and>
     (distinct (shuffleFrom i rnd xs) \<longleftrightarrow> distinct xs)"
proof (induction i arbitrary: rnd xs)
  case 0
  then show ?case by simp
next
  case (Suc i)
  let ?j = "nat (randomIndex (shd rnd) (int (Suc i) + 1))"
  let ?ys = "xs[Suc i := xs ! ?j, ?j := xs ! Suc i]"
  from validRandom_shd [OF Suc.prems(1)]
  have "0 \<le> randomIndex (shd rnd) (int (Suc i) + 1) \<and>
        randomIndex (shd rnd) (int (Suc i) + 1) < int (Suc i) + 1"
    by (intro randomIndex_range) simp_all
  then have j: "?j < length xs" using Suc.prems(2) by linarith
  have ys: "set ?ys = set xs" "length ?ys = length xs" "distinct ?ys \<longleftrightarrow> distinct xs"
    using j Suc.prems(2) by simp_all
  have "i < length ?ys" using Suc.prems(2) by simp
  from Suc.IH [OF validRandom_stl [OF Suc.prems(1)] this] ys
  show ?case by (simp add: Let_def)
qed

lemma shuffle_perm:
  assumes "validRandom rnd"
  shows "set (shuffleFrom (length xs - 1) rnd xs) = set xs \<and>
         length (shuffleFrom (length xs - 1) rnd xs) = length xs \<and>
         (distinct (shuffleFrom (length xs - 1) rnd xs) \<longleftrightarrow> distinct xs)"
proof (cases xs)
  case Nil
  then show ?thesis by simp
next
  case (Cons a as)
  then have "length xs - 1 < length xs" by simp
  from shuffleFrom_perm [OF assms this] show ?thesis .
qed


subsection \<open>Where the mines are\<close>

text \<open>The keys of a cell map with the mine flag of each cell, in map order.\<close>

definition mineMap :: "(CubePosition \<times> MinesweeperCell) list \<Rightarrow> (CubePosition \<times> bool) list" where
  "mineMap cells = map (\<lambda>(k, c). (k, ms_isMine c)) cells"

text \<open>The number of cells of the map that hold a mine.\<close>

definition mineCount :: "(CubePosition \<times> MinesweeperCell) list \<Rightarrow> nat" where
  "mineCount cells = length (filter (\<lambda>(k, c). ms_isMine c) cells)"

lemma mineCount_mineMap: "mineCount cells = length (filter snd (mineMap cells))"
  by (induction cells) (auto simp: mineCount_def mineMap_def)

lemma map_of_mineMap: "map_of (mineMap cells) k = map_option ms_isMine (map_of cells k)"
  by (induction cells) (auto simp: mineMap_def)

lemma isMineAt_mineMap:
  "isMineAt cells q = (case map_of (mineMap cells) q of Some b \<Rightarrow> b | None \<Rightarrow> False)"
  by (simp add: isMineAt_def map_of_mineMap split: option.split)

lemma mineMap_keys: "map fst (mineMap cells) = map fst cells"
  by (induction cells) (auto simp: mineMap_def)

lemma mineMap_update_same:
  "map_of cells k = Some c \<Longrightarrow> ms_isMine c' = ms_isMine c \<Longrightarrow>
     mineMap (AList.update k c' cells) = mineMap cells"
  by (induction cells) (auto simp: mineMap_def)

lemma mineMap_update_mine:
  "map_of cells k = Some c \<Longrightarrow> distinct (map fst cells) \<Longrightarrow>
     mineMap (AList.update k (c\<lparr>ms_isMine := True\<rparr>) cells)
       = map (\<lambda>(k', b). (k', b \<or> k' = k)) (mineMap cells)"
proof (induction cells)
  case Nil
  then show ?case by simp
next
  case (Cons a cells)
  obtain k0 c0 where a: "a = (k0, c0)" by (cases a)
  show ?case
  proof (cases "k0 = k")
    case True
    with Cons.prems a have "k \<notin> fst ` set cells" by auto
    then have "map (\<lambda>(k', b). (k', b \<or> k' = k)) (mineMap cells) = mineMap cells"
      by (induction cells) (auto simp: mineMap_def)
    with True a Cons.prems show ?thesis by (simp add: mineMap_def)
  next
    case False
    with Cons a show ?thesis by (simp add: mineMap_def)
  qed
qed

lemma placeOne_mineMap:
  assumes "distinct (map fst cells)"
  shows "mineMap (placeOne k cells) = map (\<lambda>(k', b). (k', b \<or> k' = k)) (mineMap cells) \<and>
         distinct (map fst (placeOne k cells))"
proof (cases "map_of cells k")
  case None
  then have "k \<notin> fst ` set cells" by (simp add: map_of_eq_None_iff)
  then have "map (\<lambda>(k', b). (k', b \<or> k' = k)) (mineMap cells) = mineMap cells"
    by (induction cells) (auto simp: mineMap_def)
  with None assms show ?thesis by (simp add: placeOne_def)
next
  case (Some c)
  with assms mineMap_update_mine [OF Some assms] show ?thesis
    by (simp add: placeOne_def distinct_update)
qed

lemma fold_placeOne_mineMap:
  "distinct (map fst cells) \<Longrightarrow>
     mineMap (fold placeOne mp cells) = map (\<lambda>(k', b). (k', b \<or> k' \<in> set mp)) (mineMap cells) \<and>
     distinct (map fst (fold placeOne mp cells))"
proof (induction mp arbitrary: cells)
  case Nil
  then show ?case by simp
next
  case (Cons k mp)
  from placeOne_mineMap [OF Cons.prems, of k]
  have one: "mineMap (placeOne k cells) = map (\<lambda>(k', b). (k', b \<or> k' = k)) (mineMap cells)"
    and d: "distinct (map fst (placeOne k cells))" by simp_all
  from Cons.IH [OF d] one show ?case
    by (auto simp: case_prod_beta)
qed

lemma fold_countAdjacent_mineMap:
  "distinct (map fst mined) \<Longrightarrow> set es \<subseteq> set mined \<Longrightarrow> mineMap acc = mineMap mined \<Longrightarrow>
     mineMap (fold (countAdjacent g) es acc) = mineMap mined"
proof (induction es arbitrary: acc)
  case Nil
  then show ?case by simp
next
  case (Cons e es)
  obtain key cell where e: "e = (key, cell)" by (cases e)
  with Cons.prems have "map_of mined key = Some cell" by (simp add: map_of_is_SomeI)
  then have "map_of (mineMap acc) key = Some (ms_isMine cell)"
    by (simp add: Cons.prems(3) map_of_mineMap)
  then obtain c' where c': "map_of acc key = Some c'" "ms_isMine c' = ms_isMine cell"
    by (auto simp: map_of_mineMap)
  have "mineMap (countAdjacent g e acc) = mineMap acc"
    using c' by (simp add: e countAdjacent_def mineMap_update_same)
  with Cons.IH [of "countAdjacent g e acc"] Cons.prems show ?case by simp
qed

lemma floodFill_mineMap:
  "mineMap (fst (floodFill g cells stack visited n)) = mineMap cells"
proof (induction g cells stack visited n rule: floodFill.induct)
  case (1 g cells visited n)
  then show ?case by (simp add: floodFill.simps)
next
  case (2 g cells current stack visited n)
  show ?case
  proof (cases "posKey current \<in> set visited")
    case True
    with 2(1) show ?thesis by (simp add: floodFill.simps)
  next
    case nv: False
    show ?thesis
    proof (cases "map_of cells current")
      case None
      with nv 2(2) show ?thesis by (simp add: floodFill.simps)
    next
      case (Some c)
      show ?thesis
      proof (cases "ms_isRevealed c \<or> ms_isFlagged c \<or> ms_isMine c")
        case True
        with nv Some 2(3) show ?thesis by (simp add: floodFill.simps)
      next
        case False
        have "mineMap (AList.update current (c\<lparr>ms_isRevealed := True\<rparr>) cells) = mineMap cells"
          using Some by (simp add: mineMap_update_same)
        with nv Some False 2(4) [OF nv Some False] show ?thesis
          by (simp add: floodFill.simps)
      qed
    qed
  qed
qed

lemma revealCell_mineMap: "mineMap (fst (revealCell cells p g)) = mineMap cells"
proof (cases "map_of cells p")
  case None
  then show ?thesis by (simp add: revealCell_def)
next
  case (Some c)
  have "mineMap (fst (floodFill g cells [p] [] 0)) = mineMap cells"
    by (rule floodFill_mineMap)
  with Some show ?thesis
    by (simp add: revealCell_def mineMap_update_same case_prod_beta Let_def)
qed

lemma sliceTo_props:
  "set (sliceTo n xs) \<subseteq> set xs"
  "distinct xs \<Longrightarrow> distinct (sliceTo n xs)"
  "0 \<le> n \<Longrightarrow> n \<le> int (length xs) \<Longrightarrow> int (length (sliceTo n xs)) = n"
  "n > int (length xs) \<Longrightarrow> length (sliceTo n xs) = length xs"
  by (auto simp: sliceTo_def dest: in_set_takeD)

text \<open>The cells outside the safe zone of a first click at \<open>P\<close>.\<close>

definition availableCells :: "(CubePosition \<times> MinesweeperCell) list \<Rightarrow> CubePosition \<Rightarrow> int \<Rightarrow> CubePosition list" where
  "availableCells cells P gridSize =
     filter (\<lambda>key. posKey key \<notin> set (posKey P # map posKey (getAllNeighbors P gridSize))) (map fst cells)"

lemma availableCells_safe:
  "q \<in> set (P # getAllNeighbors P g) \<Longrightarrow> q \<notin> set (availableCells cells P g)"
  by (auto simp: availableCells_def)

lemma placeMines_mineMap:
  assumes d: "distinct (map fst cells)" and r: "validRandom rnd"
    and clean: "\<forall>(k, c) \<in> set cells. \<not> ms_isMine c"
  shows "\<exists>mp. set mp \<subseteq> set (availableCells cells P g) \<and> distinct mp \<and>
           length mp = length (sliceTo n (availableCells cells P g)) \<and>
           mineMap (placeMines rnd cells P g n) = map (\<lambda>k. (k, k \<in> set mp)) (map fst cells)"
proof -
  let ?av = "availableCells cells P g"
  let ?sh = "shuffleFrom (length ?av - 1) rnd ?av"
  let ?mp = "sliceTo n ?sh"
  let ?mined = "fold placeOne ?mp cells"
  have dav: "distinct ?av" using d by (simp add: availableCells_def)
  from shuffle_perm [OF r, of ?av] dav
  have sh: "set ?sh = set ?av" "length ?sh = length ?av" "distinct ?sh" by simp_all
  have mp1: "set ?mp \<subseteq> set ?av" using sliceTo_props(1) [of n ?sh] sh(1) by simp
  have mp2: "distinct ?mp" using sliceTo_props(2) [OF sh(3)] .
  have mp3: "length ?mp = length (sliceTo n ?av)"
    using sh(2) by (simp add: sliceTo_def)
  from fold_placeOne_mineMap [OF d, of ?mp]
  have mined: "mineMap ?mined = map (\<lambda>(k', b). (k', b \<or> k' \<in> set ?mp)) (mineMap cells)"
    and dm: "distinct (map fst ?mined)" by simp_all
  have "map (\<lambda>(k', b). (k', b \<or> k' \<in> set ?mp)) (mineMap cells) = map (\<lambda>k. (k, k \<in> set ?mp)) (map fst cells)"
    using clean by (induction cells) (auto simp: mineMap_def)
  with mined have mined': "mineMap ?mined = map (\<lambda>k. (k, k \<in> set ?mp)) (map fst cells)" by simp
  have pm: "placeMines rnd cells P g n = fold (countAdjacent g) ?mined ?mined"
    by (simp only: placeMines_def Let_def availableCells_def)
  have "mineMap (fold (countAdjacent g) ?mined ?mined) = mineMap ?mined"
    by (rule fold_countAdjacent_mineMap [OF dm subset_refl refl])
  with mined' pm have fin: "mineMap (placeMines rnd cells P g n) = map (\<lambda>k. (k, k \<in> set ?mp)) (map fst cells)"
    by simp
  show ?thesis
    by (rule exI [of _ ?mp]) (intro conjI mp1 mp2 mp3 fin)
qed

lemma count_marked:
  assumes "distinct ks" "distinct mp" "set mp \<subseteq> set ks"
  shows "length (filter snd (map (\<lambda>k. (k, k \<in> set mp)) ks)) = length mp"
proof -
  have "length (filter snd (map (\<lambda>k. (k, k \<in> set mp)) ks)) = length (filter (\<lambda>k. k \<in> set mp) ks)"
    by (induction ks) auto
  also have "\<dots> = card ({k. k \<in> set mp} \<inter> set ks)"
    using assms(1) by (rule distinct_length_filter)
  also have "{k. k \<in> set mp} \<inter> set ks = set mp" using assms(3) by auto
  also have "card (set mp) = length mp" using assms(2) by (rule distinct_card)
  finally show ?thesis .
qed


lemma map_of_marked:
  "map_of (map (\<lambda>k. (k, f k)) ks) q = (if q \<in> set ks then Some (f q) else None)"
  by (induction ks) auto

lemma minesweeper_first_reveal_cells:
  "ms_isFirstClick s \<Longrightarrow> \<not> ms_isGameOver s \<Longrightarrow>
     ms_cells (minesweeper_applyAction rnd s (MsReveal P)) =
       fst (revealCell (placeMines rnd (ms_cells s) P (ms_gridSize s) (ms_totalMines s)) P (ms_gridSize s))"
  by (simp add: minesweeper_applyAction_def Let_def case_prod_beta)

text \<open>
  Minesweeper safe first click (claim C7 as amended). In a fresh state (first click
  pending, no mine placed yet) and for every position \<open>P\<close>, after the first \<open>reveal\<close> at
  \<open>P\<close> neither \<open>P\<close> nor any position of \<open>getAllNeighbors P\<close> holds a mine, the map has
  the same cells as before, and the number of mines is \<open>totalMines\<close> whenever
  \<open>totalMines\<close> does not exceed the number of cells outside the safe zone; when it does
  exceed it, every cell outside the safe zone is a mine and nothing else.
\<close>

theorem minesweeper_safe_first_click:
  assumes "ms_isFirstClick s" and "\<not> ms_isGameOver s"
    and "distinct (map fst (ms_cells s))"
    and "\<forall>(k, c) \<in> set (ms_cells s). \<not> ms_isMine c"
    and "validRandom rnd"
  shows "(\<forall>q \<in> set (P # getAllNeighbors P (ms_gridSize s)).
            \<not> isMineAt (ms_cells (minesweeper_applyAction rnd s (MsReveal P))) q) \<and>
         map fst (ms_cells (minesweeper_applyAction rnd s (MsReveal P))) = map fst (ms_cells s) \<and>
         (0 \<le> ms_totalMines s \<and>
          ms_totalMines s \<le> int (length (availableCells (ms_cells s) P (ms_gridSize s))) \<longrightarrow>
            int (mineCount (ms_cells (minesweeper_applyAction rnd s (MsReveal P)))) = ms_totalMines s) \<and>
         (ms_totalMines s > int (length (availableCells (ms_cells s) P (ms_gridSize s))) \<longrightarrow>
            mineCount (ms_cells (minesweeper_applyAction rnd s (MsReveal P)))
              = length (availableCells (ms_cells s) P (ms_gridSize s)))"
proof -
  let ?g = "ms_gridSize s" and ?n = "ms_totalMines s" and ?cells = "ms_cells s"
  let ?av = "availableCells ?cells P ?g"
  let ?res = "ms_cells (minesweeper_applyAction rnd s (MsReveal P))"
  from placeMines_mineMap [OF assms(3) assms(5) assms(4), of P ?g ?n]
  obtain mp where mp: "set mp \<subseteq> set ?av" "distinct mp" "length mp = length (sliceTo ?n ?av)"
    and pm: "mineMap (placeMines rnd ?cells P ?g ?n) = map (\<lambda>k. (k, k \<in> set mp)) (map fst ?cells)"
    by blast
  have "mineMap ?res = mineMap (placeMines rnd ?cells P ?g ?n)"
    by (simp only: minesweeper_first_reveal_cells [OF assms(1,2)] revealCell_mineMap)
  with pm have mm: "mineMap ?res = map (\<lambda>k. (k, k \<in> set mp)) (map fst ?cells)" by simp
  have safe: "\<not> isMineAt ?res q" if "q \<in> set (P # getAllNeighbors P ?g)" for q
  proof -
    from availableCells_safe [OF that] mp(1) have "q \<notin> set mp" by auto
    moreover have "map_of (mineMap ?res) q
        = (if q \<in> set (map fst ?cells) then Some (q \<in> set mp) else None)"
      by (simp only: mm map_of_marked)
    ultimately show ?thesis by (simp add: isMineAt_mineMap)
  qed
  have "map fst (map (\<lambda>k. (k, k \<in> set mp)) (map fst ?cells)) = map fst ?cells"
    by (simp add: comp_def)
  then have keys: "map fst ?res = map fst ?cells"
    using mineMap_keys [of ?res] by (simp only: mm)
  have "set mp \<subseteq> set (map fst ?cells)"
    using mp(1) by (auto simp: availableCells_def)
  from count_marked [OF assms(3) mp(2) this]
  have cnt: "mineCount ?res = length (sliceTo ?n ?av)"
    by (simp only: mineCount_mineMap mm mp(3))
  have exact: "int (mineCount ?res) = ?n" if "0 \<le> ?n \<and> ?n \<le> int (length ?av)"
    using that by (simp add: cnt sliceTo_props(3))
  have clamp: "mineCount ?res = length ?av" if "?n > int (length ?av)"
    using that by (simp add: cnt sliceTo_props(4))
  from safe keys exact clamp show ?thesis by blast
qed


subsection \<open>Fresh boards\<close>

lemma minesweeper_init_distinct: "distinct (map fst (ms_cells (minesweeper_init cfg)))"
proof -
  let ?g = "mcfg_gridSize cfg"
  let ?col = "\<lambda>f x. map (\<lambda>y. \<lparr>face = f, px = x, py = y\<rparr>) [0..?g - 1]"
  let ?fc = "\<lambda>f. concat (map (?col f) [0..?g - 1])"
  have eq: "map fst (ms_cells (minesweeper_init cfg)) = concat (map ?fc ALL_FACES)"
    by (simp add: minesweeper_init_def map_concat comp_def)
  have col: "distinct (?col f x)" for f x
    by (simp add: distinct_map inj_on_def)
  have fc: "distinct (?fc f)" for f
    by (rule distinct_concat_map) (auto simp: col)
  have "distinct (concat (map ?fc ALL_FACES))"
    by (rule distinct_concat_map) (auto simp: fc ALL_FACES_def)
  with eq show ?thesis by simp
qed

lemma minesweeper_init_clean: "\<forall>(k, c) \<in> set (ms_cells (minesweeper_init cfg)). \<not> ms_isMine c"
  by (auto simp: minesweeper_init_def)

lemma length_concat_const:
  "(\<And>x. x \<in> set xs \<Longrightarrow> length (f x) = n) \<Longrightarrow> length (concat (map f xs)) = length xs * n"
  by (induction xs) auto

lemma minesweeper_init_length:
  "length (ms_cells (minesweeper_init cfg)) = 6 * (nat (mcfg_gridSize cfg) * nat (mcfg_gridSize cfg))"
proof -
  let ?g = "mcfg_gridSize cfg"
  have "length (ms_cells (minesweeper_init cfg)) = length ALL_FACES * (nat ?g * nat ?g)"
    unfolding minesweeper_init_def MinesweeperGameState.simps
    by (intro length_concat_const) (simp add: length_concat_const)
  then show ?thesis by (simp add: ALL_FACES_def)
qed

lemma fold_neighborStep_length:
  "length (fst (fold (neighborStep p g) ds acc)) \<le> length (fst acc) + length ds"
proof (induction ds arbitrary: acc)
  case Nil
  then show ?case by simp
next
  case (Cons d ds)
  have "length (fst (neighborStep p g d acc)) \<le> length (fst acc) + 1"
    by (simp add: neighborStep_def pushUnseen_def Let_def split: option.split)
  with Cons [of "neighborStep p g d acc"] show ?case by simp
qed

lemma getAllNeighbors_length_le: "length (getAllNeighbors p g) \<le> 8"
  using fold_neighborStep_length [of p g NEIGHBOR_DELTAS "([], [])"]
  by (simp add: getAllNeighbors_def NEIGHBOR_DELTAS_def)

lemma availableCells_length:
  assumes "distinct (map fst cells)"
  shows "length cells \<le> length (availableCells cells P g) + 9"
proof -
  let ?S = "set (P # getAllNeighbors P g)"
  have av: "availableCells cells P g = filter (\<lambda>k. k \<notin> ?S) (map fst cells)"
    by (auto simp: availableCells_def posKey_eq_iff intro!: filter_cong)
  have "length (filter (\<lambda>k. k \<in> ?S) (map fst cells)) = card ({k. k \<in> ?S} \<inter> set (map fst cells))"
    using assms by (rule distinct_length_filter)
  also have "\<dots> \<le> card ?S"
    by (intro card_mono) auto
  also have "\<dots> \<le> length (P # getAllNeighbors P g)"
    by (rule card_length)
  also have "\<dots> \<le> 9"
    using getAllNeighbors_length_le [of P g] by simp
  finally have "length (filter (\<lambda>k. k \<in> ?S) (map fst cells)) \<le> 9" .
  moreover have "length (filter (\<lambda>k. k \<in> ?S) (map fst cells)) + length (filter (\<lambda>k. k \<notin> ?S) (map fst cells))
       = length (map fst cells)"
    by (rule sum_length_filter_compl)
  ultimately show ?thesis by (simp add: av)
qed

lemma validRandom_sconst_0: "validRandom (sconst 0)"
  by (simp add: validRandom_def)

text \<open>
  Claim C7 as stated fails where the board is too small for the configured number of
  mines: a 2x2 board (24 cells) configured with the default 60 mines does not hold 60
  mines after the first reveal.
\<close>

theorem minesweeper_mine_count_counterexample:
  "int (mineCount (ms_cells (minesweeper_applyAction (sconst 0)
         (minesweeper_init \<lparr>mcfg_gridSize = 2, mcfg_totalMines = 60\<rparr>)
         (MsReveal \<lparr>face = FRONT, px = 0, py = 0\<rparr>))))
     \<noteq> ms_totalMines (minesweeper_init \<lparr>mcfg_gridSize = 2, mcfg_totalMines = 60\<rparr>)"
proof -
  let ?s = "minesweeper_init \<lparr>mcfg_gridSize = 2, mcfg_totalMines = 60\<rparr>"
  let ?res = "ms_cells (minesweeper_applyAction (sconst 0) ?s (MsReveal \<lparr>face = FRONT, px = 0, py = 0\<rparr>))"
  have f: "ms_isFirstClick ?s" "\<not> ms_isGameOver ?s"
    by (simp_all add: minesweeper_init_def)
  have "mineMap ?res = mineMap (placeMines (sconst 0) (ms_cells ?s) \<lparr>face = FRONT, px = 0, py = 0\<rparr>
           (ms_gridSize ?s) (ms_totalMines ?s))"
    by (simp only: minesweeper_first_reveal_cells [OF f] revealCell_mineMap)
  moreover from placeMines_mineMap [OF minesweeper_init_distinct validRandom_sconst_0 minesweeper_init_clean]
  obtain mp where "mineMap (placeMines (sconst 0) (ms_cells ?s) \<lparr>face = FRONT, px = 0, py = 0\<rparr>
           (ms_gridSize ?s) (ms_totalMines ?s)) = map (\<lambda>k. (k, k \<in> set mp)) (map fst (ms_cells ?s))"
    by blast
  ultimately have "length (mineMap ?res) = length (ms_cells ?s)" by simp
  then have "mineCount ?res \<le> length (ms_cells ?s)"
    unfolding mineCount_mineMap by (metis length_filter_le)
  also have "length (ms_cells ?s) = 24"
    by (simp add: minesweeper_init_length)
  finally have "mineCount ?res \<le> 24" .
  moreover have "ms_totalMines ?s = 60" by (simp add: minesweeper_init_def)
  ultimately show ?thesis by simp
qed

theorem minesweeper_safe_first_click_witness:
  "ms_isFirstClick (minesweeper_init DEFAULT_CONFIG) \<and> \<not> ms_isGameOver (minesweeper_init DEFAULT_CONFIG) \<and>
   distinct (map fst (ms_cells (minesweeper_init DEFAULT_CONFIG))) \<and>
   mineCount (ms_cells (minesweeper_init DEFAULT_CONFIG)) = 0 \<and>
   validRandom (sconst 0) \<and>
   0 \<le> ms_totalMines (minesweeper_init DEFAULT_CONFIG) \<and>
   ms_totalMines (minesweeper_init DEFAULT_CONFIG)
     \<le> int (length (availableCells (ms_cells (minesweeper_init DEFAULT_CONFIG)) \<lparr>face = FRONT, px = 3, py = 3\<rparr>
                (ms_gridSize (minesweeper_init DEFAULT_CONFIG)))) \<and>
   int (mineCount (ms_cells (minesweeper_applyAction (sconst 0) (minesweeper_init DEFAULT_CONFIG)
          (MsReveal \<lparr>face = FRONT, px = 3, py = 3\<rparr>)))) = 60 \<and>
   \<not> isMineAt (ms_cells (minesweeper_applyAction (sconst 0) (minesweeper_init DEFAULT_CONFIG)
          (MsReveal \<lparr>face = FRONT, px = 3, py = 3\<rparr>))) \<lparr>face = FRONT, px = 3, py = 3\<rparr>"
proof -
  let ?s = "minesweeper_init DEFAULT_CONFIG"
  let ?P = "\<lparr>face = FRONT, px = 3, py = 3\<rparr>"
  have f: "ms_isFirstClick ?s" "\<not> ms_isGameOver ?s"
    by (simp_all add: minesweeper_init_def)
  have n: "ms_totalMines ?s = 60"
    by (simp add: minesweeper_init_def DEFAULT_CONFIG_def)
  have "length (ms_cells ?s) = 384"
    by (simp add: minesweeper_init_length DEFAULT_CONFIG_def)
  with availableCells_length [OF minesweeper_init_distinct, of DEFAULT_CONFIG ?P "ms_gridSize ?s"]
  have av: "ms_totalMines ?s \<le> int (length (availableCells (ms_cells ?s) ?P (ms_gridSize ?s)))"
    by (simp add: n)
  note T = minesweeper_safe_first_click [OF f minesweeper_init_distinct minesweeper_init_clean
      validRandom_sconst_0, of ?P]
  from T have "int (mineCount (ms_cells (minesweeper_applyAction (sconst 0) ?s (MsReveal ?P)))) = ms_totalMines ?s"
    using av n by simp
  moreover from T have "\<not> isMineAt (ms_cells (minesweeper_applyAction (sconst 0) ?s (MsReveal ?P))) ?P"
    by simp
  moreover have "mineCount (ms_cells ?s) = 0"
    using minesweeper_init_clean [of DEFAULT_CONFIG]
    by (auto simp: mineCount_def filter_empty_conv)
  ultimately show ?thesis
    using f minesweeper_init_distinct [of DEFAULT_CONFIG] validRandom_sconst_0 av n
    by (intro conjI) simp_all
qed


section \<open>Tetris in the hollow cube\<close>

record Vec3 =
  v3x :: int
  v3y :: int
  v3z :: int

datatype Tetracube = TcI | TcO | TcL | TcJ | TcT | TcS | TcZ | TcTower | TcCorner

definition mkV :: "int \<Rightarrow> int \<Rightarrow> int \<Rightarrow> Vec3" where
  "mkV a b c = \<lparr>v3x = a, v3y = b, v3z = c\<rparr>"

text \<open>\<^verbatim>\<open>TETRACUBES[type].cells\<close> and \<^verbatim>\<open>TETRACUBES[type].color\<close>.\<close>

fun tetracubeCells :: "Tetracube \<Rightarrow> Vec3 list" where
  "tetracubeCells TcI = [mkV 0 0 0, mkV 1 0 0, mkV 2 0 0, mkV 3 0 0]"
| "tetracubeCells TcO = [mkV 0 0 0, mkV 1 0 0, mkV 0 0 1, mkV 1 0 1]"
| "tetracubeCells TcL = [mkV 0 0 0, mkV 1 0 0, mkV 2 0 0, mkV 2 0 1]"
| "tetracubeCells TcJ = [mkV 0 0 0, mkV 1 0 0, mkV 2 0 0, mkV 0 0 1]"
| "tetracubeCells TcT = [mkV 0 0 0, mkV 1 0 0, mkV 2 0 0, mkV 1 0 1]"
| "tetracubeCells TcS = [mkV 0 0 0, mkV 1 0 0, mkV 1 0 1, mkV 2 0 1]"
| "tetracubeCells TcZ = [mkV 1 0 0, mkV 2 0 0, mkV 0 0 1, mkV 1 0 1]"
| "tetracubeCells TcTower = [mkV 0 0 0, mkV 1 0 0, mkV 0 1 0, mkV 1 1 0]"
| "tetracubeCells TcCorner = [mkV 0 0 0, mkV 1 0 0, mkV 0 0 1, mkV 0 1 0]"

fun tetracubeColor :: "Tetracube \<Rightarrow> string" where
  "tetracubeColor TcI = ''#00f5ff''"
| "tetracubeColor TcO = ''#ffd700''"
| "tetracubeColor TcL = ''#f97316''"
| "tetracubeColor TcJ = ''#3b82f6''"
| "tetracubeColor TcT = ''#a855f7''"
| "tetracubeColor TcS = ''#22c55e''"
| "tetracubeColor TcZ = ''#ef4444''"
| "tetracubeColor TcTower = ''#ec4899''"
| "tetracubeColor TcCorner = ''#14b8a6''"

definition TETRACUBE_TYPES :: "Tetracube list" where
  "TETRACUBE_TYPES = [TcI, TcO, TcL, TcJ, TcT, TcS, TcZ, TcTower, TcCorner]"

text \<open>Rotations are kept in degrees, always a multiple of 90.\<close>

record FallingPiece3D =
  fp_type :: Tetracube
  fp_position :: Vec3
  fp_rotationX :: int
  fp_rotationY :: int
  fp_rotationZ :: int

record GridCell3D =
  gc_filled :: bool
  gc_color :: string

text \<open>
  \<^verbatim>\<open>Tetris3DGameState\<close> (without the constant \<^verbatim>\<open>pieces\<close>); the grid is indexed
  \<^verbatim>\<open>grid[y][z][x]\<close>, and \<^verbatim>\<open>null\<close> is \<open>None\<close>.
\<close>

record Tetris3DGameState =
  tt_grid :: "GridCell3D list list list"
  tt_currentPiece :: "FallingPiece3D option"
  tt_nextPiece :: Tetracube
  tt_heldPiece :: "Tetracube option"
  tt_canHold :: bool
  tt_score :: int
  tt_level :: int
  tt_layersCleared :: int
  tt_fallSpeed :: int
  tt_isGameOver :: bool
  tt_isPaused :: bool
  tt_width :: int
  tt_depth :: int
  tt_height :: int

datatype MoveDirection = MvLeft | MvRight | MvForward | MvBackward

datatype RotateAxis = RotX | RotXNeg | RotY | RotYNeg | RotZ | RotZNeg

datatype DropKind = Soft | Hard

datatype Tetris3DAction =
  TtMove MoveDirection | TtRotate RotateAxis | TtDrop DropKind | TtTick | TtHold | TtPause | TtResume

datatype Axis = AxisX | AxisY | AxisZ

text \<open>One quarter turn of \<^verbatim>\<open>rotatePoint\<close>, and \<^verbatim>\<open>rotatePoint\<close> itself.\<close>

fun rotateOnce :: "Axis \<Rightarrow> Vec3 \<Rightarrow> Vec3" where
  "rotateOnce AxisX p = \<lparr>v3x = v3x p, v3y = - v3z p, v3z = v3y p\<rparr>"
| "rotateOnce AxisY p = \<lparr>v3x = v3z p, v3y = v3y p, v3z = - v3x p\<rparr>"
| "rotateOnce AxisZ p = \<lparr>v3x = - v3y p, v3y = v3x p, v3z = v3z p\<rparr>"

definition rotatePoint :: "Vec3 \<Rightarrow> Axis \<Rightarrow> int \<Rightarrow> Vec3" where
  "rotatePoint point axis nTimes =
     (let rotations = ((nTimes smod 4) + 4) smod 4
      in (rotateOnce axis ^^ nat rotations) point)"

text \<open>
  \<^verbatim>\<open>getPieceCells\<close>. \<^verbatim>\<open>piece.rotationX / 90\<close> is exact on multiples of 90, and \<^verbatim>\<open>Math.round\<close>
  of an integer is that integer.
\<close>

definition getPieceCells :: "FallingPiece3D \<Rightarrow> Vec3 list" where
  "getPieceCells piece =
     map (\<lambda>cell.
            (let rotated = rotatePoint
                   (rotatePoint (rotatePoint cell AxisX (fp_rotationX piece div 90))
                      AxisY (fp_rotationY piece div 90))
                   AxisZ (fp_rotationZ piece div 90)
             in \<lparr>v3x = v3x (fp_position piece) + v3x rotated,
                  v3y = v3y (fp_position piece) + v3y rotated,
                  v3z = v3z (fp_position piece) + v3z rotated\<rparr>))
         (tetracubeCells (fp_type piece))"

text \<open>The class constants \<^verbatim>\<open>cubeWidth\<close>, \<^verbatim>\<open>cubeDepth\<close>, \<^verbatim>\<open>cubeHeight\<close>.\<close>

definition cubeWidth :: int where "cubeWidth = 6"
definition cubeDepth :: int where "cubeDepth = 6"
definition cubeHeight :: int where "cubeHeight = 12"

definition emptyCell :: GridCell3D where
  "emptyCell = \<lparr>gc_filled = False, gc_color = ''''\<rparr>"

definition emptyLayer :: "int \<Rightarrow> int \<Rightarrow> GridCell3D list list" where
  "emptyLayer depth width = map (\<lambda>z. map (\<lambda>x. emptyCell) [0..width - 1]) [0..depth - 1]"

definition randomTetracube :: "random \<Rightarrow> Tetracube" where
  "randomTetracube rnd = TETRACUBE_TYPES ! nat (randomIndex (shd rnd) (int (length TETRACUBE_TYPES)))"

definition spawnPiece :: "Tetracube \<Rightarrow> FallingPiece3D" where
  "spawnPiece type =
     \<lparr>fp_type = type,
      fp_position = \<lparr>v3x = cubeWidth div 2 - 1, v3y = cubeHeight - 2, v3z = cubeDepth div 2 - 1\<rparr>,
      fp_rotationX = 0, fp_rotationY = 0, fp_rotationZ = 0\<rparr>"

text \<open>\<^verbatim>\<open>init\<close> draws the first and the next piece.\<close>

definition tetris_init :: "random \<Rightarrow> Tetris3DGameState" where
  "tetris_init rnd =
     \<lparr>tt_grid = map (\<lambda>y. emptyLayer cubeDepth cubeWidth) [0..cubeHeight - 1],
      tt_currentPiece = Some (spawnPiece (randomTetracube rnd)),
      tt_nextPiece = randomTetracube (stl rnd),
      tt_heldPiece = None,
      tt_canHold = True,
      tt_score = 0,
      tt_level = 1,
      tt_layersCleared = 0,
      tt_fallSpeed = 1000,
      tt_isGameOver = False,
      tt_isPaused = False,
      tt_width = cubeWidth,
      tt_depth = cubeDepth,
      tt_height = cubeHeight\<rparr>"

text \<open>
  Reading a property of \<^verbatim>\<open>grid[y][z][x]\<close>. An index outside an array gives
  \<^verbatim>\<open>undefined\<close>, and the next property access throws a \<^verbatim>\<open>TypeError\<close>.
\<close>

definition cellAt :: "GridCell3D list list list \<Rightarrow> int \<Rightarrow> int \<Rightarrow> int \<Rightarrow> error + GridCell3D" where
  "cellAt grid y z x =
     (if 0 \<le> y \<and> 0 \<le> z \<and> 0 \<le> x \<and>
         nat y < length grid \<and> nat z < length (grid ! nat y) \<and> nat x < length (grid ! nat y ! nat z)
      then Inr (grid ! nat y ! nat z ! nat x)
      else Inl TypeError)"

text \<open>\<^verbatim>\<open>isValidPosition\<close>: the loop over the cells, returning at the first failing cell.\<close>

fun cellsValid :: "Tetris3DGameState \<Rightarrow> Vec3 list \<Rightarrow> error + bool" where
  "cellsValid state [] = Inr True"
| "cellsValid state (cell # cells) =
     (if v3x cell < 0 \<or> v3x cell \<ge> tt_width state then Inr False
      else if v3z cell < 0 \<or> v3z cell \<ge> tt_depth state then Inr False
      else if v3y cell < 0 \<or> v3y cell \<ge> tt_height state then Inr False
      else (case cellAt (tt_grid state) (v3y cell) (v3z cell) (v3x cell) of
              Inl e \<Rightarrow> Inl e
            | Inr c \<Rightarrow> if gc_filled c then Inr False else cellsValid state cells))"

definition isValidPosition :: "Tetris3DGameState \<Rightarrow> FallingPiece3D \<Rightarrow> error + bool" where
  "isValidPosition state piece = cellsValid state (getPieceCells piece)"

text \<open>The piece translated by a vector.\<close>

definition translated :: "FallingPiece3D \<Rightarrow> int \<Rightarrow> int \<Rightarrow> int \<Rightarrow> FallingPiece3D" where
  "translated piece a b c =
     piece\<lparr>fp_position := \<lparr>v3x = v3x (fp_position piece) + a, v3y = v3y (fp_position piece) + b,
                             v3z = v3z (fp_position piece) + c\<rparr>\<rparr>"

definition movePiece :: "Tetris3DGameState \<Rightarrow> MoveDirection \<Rightarrow> error + Tetris3DGameState" where
  "movePiece state direction =
     (case tt_currentPiece state of
        None \<Rightarrow> Inr state
      | Some piece \<Rightarrow>
          (let newPiece = (case direction of
                             MvLeft \<Rightarrow> translated piece (-1) 0 0
                           | MvRight \<Rightarrow> translated piece 1 0 0
                           | MvForward \<Rightarrow> translated piece 0 0 (-1)
                           | MvBackward \<Rightarrow> translated piece 0 0 1)
           in case isValidPosition state newPiece of
                Inl e \<Rightarrow> Inl e
              | Inr ok \<Rightarrow> if ok then Inr (state\<lparr>tt_currentPiece := Some newPiece\<rparr>) else Inr state))"

definition kicks :: "Vec3 list" where
  "kicks = [mkV (-1) 0 0, mkV 1 0 0, mkV 0 0 (-1), mkV 0 0 1, mkV 0 1 0, mkV 0 (-1) 0,
            mkV (-2) 0 0, mkV 2 0 0, mkV 0 0 (-2), mkV 0 0 2]"

text \<open>The wall-kick loop of \<^verbatim>\<open>rotatePiece\<close>: the first kick that fits, else the old state.\<close>

fun tryKicks :: "Tetris3DGameState \<Rightarrow> FallingPiece3D \<Rightarrow> Vec3 list \<Rightarrow> error + Tetris3DGameState" where
  "tryKicks state newPiece [] = Inr state"
| "tryKicks state newPiece (kick # rest) =
     (let kickedPiece = translated newPiece (v3x kick) (v3y kick) (v3z kick)
      in case isValidPosition state kickedPiece of
           Inl e \<Rightarrow> Inl e
         | Inr ok \<Rightarrow> if ok then Inr (state\<lparr>tt_currentPiece := Some kickedPiece\<rparr>)
                    else tryKicks state newPiece rest)"

definition rotatePiece :: "Tetris3DGameState \<Rightarrow> RotateAxis \<Rightarrow> error + Tetris3DGameState" where
  "rotatePiece state axis =
     (case tt_currentPiece state of
        None \<Rightarrow> Inr state
      | Some piece \<Rightarrow>
          (let isNegative = (axis = RotXNeg \<or> axis = RotYNeg \<or> axis = RotZNeg);
               delta = (if isNegative then -90 else 90);
               newPiece =
                 (if axis = RotX \<or> axis = RotXNeg
                  then piece\<lparr>fp_rotationX := (fp_rotationX piece + delta + 360) smod 360\<rparr>
                  else if axis = RotY \<or> axis = RotYNeg
                  then piece\<lparr>fp_rotationY := (fp_rotationY piece + delta + 360) smod 360\<rparr>
                  else piece\<lparr>fp_rotationZ := (fp_rotationZ piece + delta + 360) smod 360\<rparr>)
           in case isValidPosition state newPiece of
                Inl e \<Rightarrow> Inl e
              | Inr ok \<Rightarrow> if ok then Inr (state\<lparr>tt_currentPiece := Some newPiece\<rparr>)
                         else tryKicks state newPiece kicks))"

definition softDrop :: "Tetris3DGameState \<Rightarrow> error + Tetris3DGameState" where
  "softDrop state =
     (case tt_currentPiece state of
        None \<Rightarrow> Inr state
      | Some piece \<Rightarrow>
          (let newPiece = translated piece 0 (-1) 0
           in case isValidPosition state newPiece of
                Inl e \<Rightarrow> Inl e
              | Inr ok \<Rightarrow> if ok then Inr (state\<lparr>tt_currentPiece := Some newPiece,
                                                  tt_score := tt_score state + 1\<rparr>)
                         else Inr state))"


subsection \<open>Hard drop\<close>

text \<open>Offsets of a piece never exceed 3 in any coordinate, whatever the rotation.\<close>

definition smallVec :: "Vec3 \<Rightarrow> bool" where
  "smallVec v \<longleftrightarrow> \<bar>v3x v\<bar> \<le> 3 \<and> \<bar>v3y v\<bar> \<le> 3 \<and> \<bar>v3z v\<bar> \<le> 3"

lemma smallVec_rotateOnce: "smallVec v \<Longrightarrow> smallVec (rotateOnce a v)"
  by (cases a) (simp_all add: smallVec_def)

lemma smallVec_funpow: "smallVec v \<Longrightarrow> smallVec ((rotateOnce a ^^ n) v)"
  by (induction n) (simp_all add: smallVec_rotateOnce)

lemma smallVec_rotatePoint: "smallVec v \<Longrightarrow> smallVec (rotatePoint v a t)"
  by (simp add: rotatePoint_def Let_def smallVec_funpow)

lemma smallVec_base: "v \<in> set (tetracubeCells t) \<Longrightarrow> smallVec v"
  by (cases t) (auto simp: smallVec_def mkV_def)

lemma tetracubeCells_nonempty: "tetracubeCells t \<noteq> []"
  by (cases t) simp_all

lemma cellsValid_nonneg:
  "cellsValid state cells = Inr True \<Longrightarrow> c \<in> set cells \<Longrightarrow> 0 \<le> v3y c"
  by (induction cells) (auto split: if_splits sum.splits)

lemma valid_position_height:
  assumes "isValidPosition state piece = Inr True"
  shows "- 3 \<le> v3y (fp_position piece)"
proof -
  obtain b where b: "b \<in> set (tetracubeCells (fp_type piece))"
    using tetracubeCells_nonempty [of "fp_type piece"] by (cases "tetracubeCells (fp_type piece)") auto
  let ?r = "rotatePoint
                   (rotatePoint (rotatePoint b AxisX (fp_rotationX piece div 90))
                      AxisY (fp_rotationY piece div 90))
                   AxisZ (fp_rotationZ piece div 90)"
  let ?c = "\<lparr>v3x = v3x (fp_position piece) + v3x ?r, v3y = v3y (fp_position piece) + v3y ?r,
             v3z = v3z (fp_position piece) + v3z ?r\<rparr>"
  have "?c \<in> set (getPieceCells piece)"
    using b by (auto simp: getPieceCells_def Let_def intro!: image_eqI [where x = b])
  with assms have "0 \<le> v3y ?c"
    by (auto simp: isValidPosition_def dest: cellsValid_nonneg)
  then have 1: "0 \<le> v3y (fp_position piece) + v3y ?r" by simp
  have "smallVec ?r"
    by (intro smallVec_rotatePoint smallVec_base [OF b])
  then have 2: "v3y ?r \<le> 3" by (simp add: smallVec_def abs_le_iff)
  from 1 2 show ?thesis by linarith
qed

text \<open>
  The \<^verbatim>\<open>while\<close> loop of \<^verbatim>\<open>hardDrop\<close>: it returns the landed piece and the distance. It
  ends because a piece that fits has no cell below the floor.
\<close>

function dropLoop ::
  "Tetris3DGameState \<Rightarrow> FallingPiece3D \<Rightarrow> int \<Rightarrow> error + (FallingPiece3D \<times> int)" where
  "dropLoop state newPiece dropDistance =
     (case isValidPosition state (translated newPiece 0 (-1) 0) of
        Inl e \<Rightarrow> Inl e
      | Inr ok \<Rightarrow>
          if ok then dropLoop state (translated newPiece 0 (-1) 0) (dropDistance + 1)
          else Inr (newPiece, dropDistance))"
  by pat_completeness auto
termination
proof (relation "measure (\<lambda>(state, piece, d). nat (v3y (fp_position piece) + 4))", goal_cases)
  case 1
  then show ?case by simp
next
  case (2 state newPiece dropDistance ok)
  then have "isValidPosition state (translated newPiece 0 (-1) 0) = Inr True" by simp
  from valid_position_height [OF this] show ?case
    by (simp add: translated_def)
qed

declare dropLoop.simps [simp del]


subsection \<open>Locking a piece\<close>

text \<open>
  \<^verbatim>\<open>grid[y][z][x] = value\<close>. A missing layer or row makes the assignment throw; an index
  past the end of a row would make the row sparse.
\<close>

definition setCell ::
  "GridCell3D list list list \<Rightarrow> int \<Rightarrow> int \<Rightarrow> int \<Rightarrow> GridCell3D \<Rightarrow> error + GridCell3D list list list" where
  "setCell grid y z x v =
     (if 0 \<le> y \<and> 0 \<le> z \<and> nat y < length grid \<and> nat z < length (grid ! nat y)
      then (if 0 \<le> x \<and> nat x < length (grid ! nat y ! nat z)
            then Inr (grid[nat y := (grid ! nat y)[nat z := (grid ! nat y ! nat z)[nat x := v]]])
            else Inl SparseArray)
      else Inl TypeError)"

text \<open>The loop \<^verbatim>\<open>for (const cell of cells)\<close> that stamps the piece into the grid.\<close>

fun placeCells ::
  "Tetris3DGameState \<Rightarrow> string \<Rightarrow> Vec3 list \<Rightarrow> GridCell3D list list list \<Rightarrow>
   error + GridCell3D list list list" where
  "placeCells state color [] grid = Inr grid"
| "placeCells state color (cell # cells) grid =
     (if v3y cell \<ge> 0 \<and> v3y cell < tt_height state \<and>
         v3z cell \<ge> 0 \<and> v3z cell < tt_depth state \<and>
         v3x cell \<ge> 0 \<and> v3x cell < tt_width state
      then (case setCell grid (v3y cell) (v3z cell) (v3x cell) \<lparr>gc_filled = True, gc_color = color\<rparr> of
              Inl e \<Rightarrow> Inl e
            | Inr grid' \<Rightarrow> placeCells state color cells grid')
      else placeCells state color cells grid)"

text \<open>
  The scan of one layer, \<open>z\<close> outermost, stopping at the first cell that is not filled,
  and the list of the completed layers from bottom to top.
\<close>

definition layerCells :: "int \<Rightarrow> int \<Rightarrow> (int \<times> int) list" where
  "layerCells depth width = concat (map (\<lambda>z. map (\<lambda>x. (z, x)) [0..width - 1]) [0..depth - 1])"

fun scanLayer :: "GridCell3D list list list \<Rightarrow> int \<Rightarrow> (int \<times> int) list \<Rightarrow> error + bool" where
  "scanLayer grid y [] = Inr True"
| "scanLayer grid y ((z, x) # rest) =
     (case cellAt grid y z x of
        Inl e \<Rightarrow> Inl e
      | Inr c \<Rightarrow> if \<not> gc_filled c then Inr False else scanLayer grid y rest)"

fun findCompleted :: "GridCell3D list list list \<Rightarrow> int \<Rightarrow> int \<Rightarrow> int list \<Rightarrow> error + int list" where
  "findCompleted grid depth width [] = Inr []"
| "findCompleted grid depth width (y # ys) =
     (case scanLayer grid y (layerCells depth width) of
        Inl e \<Rightarrow> Inl e
      | Inr layerComplete \<Rightarrow>
          (case findCompleted grid depth width ys of
             Inl e \<Rightarrow> Inl e
           | Inr rest \<Rightarrow> Inr (if layerComplete then y # rest else rest)))"

text \<open>\<^verbatim>\<open>grid.splice(layerY, 1)\<close> followed by \<^verbatim>\<open>grid.push(emptyLayer)\<close>.\<close>

definition removeLayer :: "int \<Rightarrow> int \<Rightarrow> int \<Rightarrow> GridCell3D list list list \<Rightarrow> GridCell3D list list list" where
  "removeLayer depth width layerY grid =
     take (nat layerY) grid @ drop (Suc (nat layerY)) grid @ [emptyLayer depth width]"

text \<open>
  The completed layers are found in increasing order, so sorting them with
  \<^verbatim>\<open>(a, b) => b - a\<close> reverses the list.
\<close>

definition clearLayers :: "int \<Rightarrow> int \<Rightarrow> int list \<Rightarrow> GridCell3D list list list \<Rightarrow> GridCell3D list list list" where
  "clearLayers depth width completedLayers grid =
     fold (removeLayer depth width) (rev completedLayers) grid"

definition layerScores :: "int list" where
  "layerScores = [0, 100, 300, 500, 800, 1200, 1600, 2000]"

text \<open>\<^verbatim>\<open>layerScores[Math.min(n, layerScores.length - 1)] || n * 300\<close>; 0 is falsy.\<close>

definition layerScoreOf :: "int \<Rightarrow> int" where
  "layerScoreOf n =
     (let v = layerScores ! nat (min n (int (length layerScores) - 1))
      in if v = 0 then n * 300 else v)"

definition lockPiece :: "random \<Rightarrow> Tetris3DGameState \<Rightarrow> error + Tetris3DGameState" where
  "lockPiece rnd state =
     (case tt_currentPiece state of
        None \<Rightarrow> Inr state
      | Some piece \<Rightarrow>
          (case placeCells state (tetracubeColor (fp_type piece)) (getPieceCells piece) (tt_grid state) of
             Inl e \<Rightarrow> Inl e
           | Inr stamped \<Rightarrow>
               (case findCompleted stamped (tt_depth state) (tt_width state) [0..tt_height state - 1] of
                  Inl e \<Rightarrow> Inl e
                | Inr completedLayers \<Rightarrow>
                    (let grid = clearLayers (tt_depth state) (tt_width state) completedLayers stamped;
                         layerScore = layerScoreOf (int (length completedLayers));
                         newLayersCleared = tt_layersCleared state + int (length completedLayers);
                         newLevel = newLayersCleared div 5 + 1;
                         newSpeed = max 200 (1000 - (newLevel - 1) * 100);
                         nextPiece = spawnPiece (tt_nextPiece state)
                     in case isValidPosition (state\<lparr>tt_grid := grid\<rparr>) nextPiece of
                          Inl e \<Rightarrow> Inl e
                        | Inr ok \<Rightarrow>
                            (let isGameOver = \<not> ok
                             in Inr (state\<lparr>tt_grid := grid,
                                           tt_currentPiece := (if isGameOver then None else Some nextPiece),
                                           tt_nextPiece := randomTetracube rnd,
                                           tt_canHold := True,
                                           tt_score := tt_score state + layerScore * newLevel,
                                           tt_level := newLevel,
                                           tt_layersCleared := newLayersCleared,
                                           tt_fallSpeed := newSpeed,
                                           tt_isGameOver := isGameOver\<rparr>))))))"

definition hardDrop :: "random \<Rightarrow> Tetris3DGameState \<Rightarrow> error + Tetris3DGameState" where
  "hardDrop rnd state =
     (case tt_currentPiece state of
        None \<Rightarrow> Inr state
      | Some piece \<Rightarrow>
          (case dropLoop state piece 0 of
             Inl e \<Rightarrow> Inl e
           | Inr (newPiece, dropDistance) \<Rightarrow>
               lockPiece rnd (state\<lparr>tt_currentPiece := Some newPiece,
                                    tt_score := tt_score state + dropDistance * 2\<rparr>)))"

definition tick :: "random \<Rightarrow> Tetris3DGameState \<Rightarrow> error + Tetris3DGameState" where
  "tick rnd state =
     (case tt_currentPiece state of
        None \<Rightarrow> Inr state
      | Some piece \<Rightarrow>
          if tt_isPaused state then Inr state
          else (let newPiece = translated piece 0 (-1) 0
                in case isValidPosition state newPiece of
                     Inl e \<Rightarrow> Inl e
                   | Inr ok \<Rightarrow> if ok then Inr (state\<lparr>tt_currentPiece := Some newPiece\<rparr>)
                              else lockPiece rnd state))"

definition holdPiece :: "random \<Rightarrow> Tetris3DGameState \<Rightarrow> error + Tetris3DGameState" where
  "holdPiece rnd state =
     (case tt_currentPiece state of
        None \<Rightarrow> Inr state
      | Some piece \<Rightarrow>
          if \<not> tt_canHold state then Inr state
          else (case tt_heldPiece state of
                  Some held \<Rightarrow>
                    Inr (state\<lparr>tt_currentPiece := Some (spawnPiece held),
                               tt_heldPiece := Some (fp_type piece), tt_canHold := False\<rparr>)
                | None \<Rightarrow>
                    Inr (state\<lparr>tt_currentPiece := Some (spawnPiece (tt_nextPiece state)),
                               tt_heldPiece := Some (fp_type piece),
                               tt_nextPiece := randomTetracube rnd, tt_canHold := False\<rparr>)))"

definition tetris_isValidAction :: "Tetris3DGameState \<Rightarrow> Tetris3DAction \<Rightarrow> bool" where
  "tetris_isValidAction state action =
     (if tt_isGameOver state then False
      else case action of
        TtPause \<Rightarrow> \<not> tt_isPaused state
      | TtResume \<Rightarrow> tt_isPaused state
      | _ \<Rightarrow> \<not> tt_isPaused state \<and> tt_currentPiece state \<noteq> None)"

definition tetris_applyAction ::
  "random \<Rightarrow> Tetris3DGameState \<Rightarrow> Tetris3DAction \<Rightarrow> error + Tetris3DGameState" where
  "tetris_applyAction rnd state action =
     (case action of
        TtMove payload \<Rightarrow> movePiece state payload
      | TtRotate payload \<Rightarrow> rotatePiece state payload
      | TtDrop payload \<Rightarrow> (if payload = Hard then hardDrop rnd state else softDrop state)
      | TtTick \<Rightarrow> tick rnd state
      | TtHold \<Rightarrow> holdPiece rnd state
      | TtPause \<Rightarrow> Inr (state\<lparr>tt_isPaused := True\<rparr>)
      | TtResume \<Rightarrow> Inr (state\<lparr>tt_isPaused := False\<rparr>))"

text \<open>A piece is blocked when the cell set one step down is out of bounds or collides.\<close>

definition blockedBelow :: "Tetris3DGameState \<Rightarrow> FallingPiece3D \<Rightarrow> bool" where
  "blockedBelow state piece \<longleftrightarrow> isValidPosition state (translated piece 0 (-1) 0) = Inr False"

subsection \<open>Blocked drops\<close>

definition inBounds :: "Tetris3DGameState \<Rightarrow> Vec3 \<Rightarrow> bool" where
  "inBounds st c \<longleftrightarrow>
     v3y c \<ge> 0 \<and> v3y c < tt_height st \<and> v3z c \<ge> 0 \<and> v3z c < tt_depth st \<and>
     v3x c \<ge> 0 \<and> v3x c < tt_width st"

lemma placeCells_Cons:
  "placeCells st col (c # cells) grid =
     (if inBounds st c
      then (case setCell grid (v3y c) (v3z c) (v3x c) \<lparr>gc_filled = True, gc_color = col\<rparr> of
              Inl e \<Rightarrow> Inl e
            | Inr grid' \<Rightarrow> placeCells st col cells grid')
      else placeCells st col cells grid)"
  by (simp add: inBounds_def)

lemma cellAt_setCell_same:
  assumes "setCell grid y z x v = Inr grid'"
  shows "cellAt grid' y z x = Inr v"
proof -
  from assms have b: "0 \<le> y" "0 \<le> z" "0 \<le> x" "nat y < length grid" "nat z < length (grid ! nat y)"
      "nat x < length (grid ! nat y ! nat z)"
    and g': "grid' = grid[nat y := (grid ! nat y)[nat z := (grid ! nat y ! nat z)[nat x := v]]]"
    by (simp_all add: setCell_def split: if_splits)
  show ?thesis
    unfolding g' cellAt_def using b by simp
qed

lemma cellAt_setCell_filled:
  assumes "setCell grid y z x v = Inr grid'" and "cellAt grid y' z' x' = Inr v"
  shows "cellAt grid' y' z' x' = Inr v"
proof -
  from assms(1) have b: "0 \<le> y" "0 \<le> z" "0 \<le> x" "nat y < length grid" "nat z < length (grid ! nat y)"
      "nat x < length (grid ! nat y ! nat z)"
    and g': "grid' = grid[nat y := (grid ! nat y)[nat z := (grid ! nat y ! nat z)[nat x := v]]]"
    by (simp_all add: setCell_def split: if_splits)
  from assms(2) have b': "0 \<le> y'" "0 \<le> z'" "0 \<le> x'" "nat y' < length grid"
      "nat z' < length (grid ! nat y')" "nat x' < length (grid ! nat y' ! nat z')"
    and old: "grid ! nat y' ! nat z' ! nat x' = v"
    by (simp_all add: cellAt_def split: if_splits)
  show ?thesis
  proof (cases "nat y' = nat y")
    case False
    with b' old show ?thesis unfolding g' cellAt_def by simp
  next
    case y: True
    show ?thesis
    proof (cases "nat z' = nat z")
      case False
      with y b b' old show ?thesis unfolding g' cellAt_def by simp
    next
      case z: True
      show ?thesis
      proof (cases "nat x' = nat x")
        case False
        with y z b b' old show ?thesis unfolding g' cellAt_def by simp
      next
        case True
        with y z b b' old show ?thesis unfolding g' cellAt_def by simp
      qed
    qed
  qed
qed

lemma placeCells_keeps:
  "placeCells st col cells grid = Inr grid' \<Longrightarrow>
   cellAt grid y z x = Inr \<lparr>gc_filled = True, gc_color = col\<rparr> \<Longrightarrow>
     cellAt grid' y z x = Inr \<lparr>gc_filled = True, gc_color = col\<rparr>"
proof (induction cells arbitrary: grid)
  case Nil
  then show ?case by simp
next
  case (Cons c cells)
  show ?case
  proof (cases "inBounds st c")
    case False
    with Cons.prems(1) have "placeCells st col cells grid = Inr grid'"
      by (simp only: placeCells_Cons if_False)
    from Cons.IH [OF this Cons.prems(2)] show ?thesis .
  next
    case True
    with Cons.prems(1) obtain g1 where
      g1: "setCell grid (v3y c) (v3z c) (v3x c) \<lparr>gc_filled = True, gc_color = col\<rparr> = Inr g1"
      and rest: "placeCells st col cells g1 = Inr grid'"
      by (cases "setCell grid (v3y c) (v3z c) (v3x c) \<lparr>gc_filled = True, gc_color = col\<rparr>")
         (simp_all only: placeCells_Cons if_True sum.case sum.distinct)
    from cellAt_setCell_filled [OF g1 Cons.prems(2)]
    have "cellAt g1 y z x = Inr \<lparr>gc_filled = True, gc_color = col\<rparr>" .
    from Cons.IH [OF rest this] show ?thesis .
  qed
qed

lemma placeCells_filled:
  "placeCells st col cells grid = Inr grid' \<Longrightarrow> c \<in> set cells \<Longrightarrow> inBounds st c \<Longrightarrow>
     cellAt grid' (v3y c) (v3z c) (v3x c) = Inr \<lparr>gc_filled = True, gc_color = col\<rparr>"
proof (induction cells arbitrary: grid)
  case Nil
  then show ?case by simp
next
  case (Cons a cells)
  show ?case
  proof (cases "c = a")
    case ca: True
    with Cons.prems(1,3) obtain g1 where
      g1: "setCell grid (v3y c) (v3z c) (v3x c) \<lparr>gc_filled = True, gc_color = col\<rparr> = Inr g1"
      and rest: "placeCells st col cells g1 = Inr grid'"
      by (cases "setCell grid (v3y c) (v3z c) (v3x c) \<lparr>gc_filled = True, gc_color = col\<rparr>")
         (simp_all only: placeCells_Cons if_True sum.case sum.distinct)
    from placeCells_keeps [OF rest cellAt_setCell_same [OF g1]] show ?thesis .
  next
    case False
    with Cons.prems(2) have mem: "c \<in> set cells" by simp
    show ?thesis
    proof (cases "inBounds st a")
      case False
      with Cons.prems(1) have "placeCells st col cells grid = Inr grid'"
        by (simp only: placeCells_Cons if_False)
      from Cons.IH [OF this mem Cons.prems(3)] show ?thesis .
    next
      case True
      with Cons.prems(1) obtain g1 where
        rest: "placeCells st col cells g1 = Inr grid'"
        by (cases "setCell grid (v3y a) (v3z a) (v3x a) \<lparr>gc_filled = True, gc_color = col\<rparr>")
           (simp_all only: placeCells_Cons if_True sum.case sum.distinct)
      from Cons.IH [OF rest mem Cons.prems(3)] show ?thesis .
    qed
  qed
qed

lemma cellsValid_bounds:
  "cellsValid st cells = Inr True \<Longrightarrow> c \<in> set cells \<Longrightarrow> inBounds st c"
proof (induction cells)
  case Nil
  then show ?case by simp
next
  case (Cons a cells)
  from Cons.prems(1) have a: "inBounds st a" and rest: "cellsValid st cells = Inr True"
    by (simp_all add: inBounds_def split: if_splits sum.splits)
  from Cons.prems(2) a Cons.IH [OF rest] show ?case by auto
qed

lemma lockPiece_result:
  assumes "tt_currentPiece s = Some piece" "lockPiece rnd s = Inr s'"
  shows "\<exists>stamped completedLayers.
           placeCells s (tetracubeColor (fp_type piece)) (getPieceCells piece) (tt_grid s) = Inr stamped \<and>
           findCompleted stamped (tt_depth s) (tt_width s) [0..tt_height s - 1] = Inr completedLayers \<and>
           tt_grid s' = clearLayers (tt_depth s) (tt_width s) completedLayers stamped \<and>
           tt_canHold s' \<and> tt_nextPiece s' = randomTetracube rnd \<and>
           (if tt_isGameOver s' then tt_currentPiece s' = None
            else tt_currentPiece s' = Some (spawnPiece (tt_nextPiece s)))"
  using assms
  by (auto simp: lockPiece_def Let_def split: sum.splits if_splits)

subsection \<open>Well-formed grids raise no error\<close>

text \<open>The grid has \<open>height\<close> layers of \<open>depth\<close> rows of \<open>width\<close> cells, as \<^verbatim>\<open>init\<close> builds it.\<close>

definition wfGrid :: "GridCell3D list list list \<Rightarrow> int \<Rightarrow> int \<Rightarrow> int \<Rightarrow> bool" where
  "wfGrid grid h d w \<longleftrightarrow>
     length grid = nat h \<and>
     (\<forall>layer \<in> set grid. length layer = nat d \<and> (\<forall>row \<in> set layer. length row = nat w))"

definition wfState :: "Tetris3DGameState \<Rightarrow> bool" where
  "wfState s \<longleftrightarrow> wfGrid (tt_grid s) (tt_height s) (tt_depth s) (tt_width s)"

lemma wfGrid_nth:
  assumes "wfGrid g h d w" "0 \<le> y" "y < h" "0 \<le> z" "z < d"
  shows "nat y < length g" "nat z < length (g ! nat y)" "length (g ! nat y ! nat z) = nat w"
proof -
  from assms show y: "nat y < length g" by (simp add: wfGrid_def)
  then have ly: "g ! nat y \<in> set g" by simp
  with assms show z: "nat z < length (g ! nat y)" by (simp add: wfGrid_def)
  then have "g ! nat y ! nat z \<in> set (g ! nat y)" by simp
  with ly assms(1) show "length (g ! nat y ! nat z) = nat w" by (simp add: wfGrid_def)
qed

lemma cellAt_wf:
  assumes "wfGrid g h d w" "0 \<le> y" "y < h" "0 \<le> z" "z < d" "0 \<le> x" "x < w"
  shows "\<exists>c. cellAt g y z x = Inr c"
  using wfGrid_nth [OF assms(1-5)] assms by (simp add: cellAt_def)

lemma wfGrid_update:
  assumes "wfGrid g h d w" "length layer = nat d" "\<forall>row \<in> set layer. length row = nat w"
  shows "wfGrid (g[i := layer]) h d w"
proof -
  have "set (g[i := layer]) \<subseteq> insert layer (set g)" by (rule set_update_subset_insert)
  with assms show ?thesis by (auto simp: wfGrid_def)
qed

lemma setCell_wf:
  assumes "wfGrid g h d w" "0 \<le> y" "y < h" "0 \<le> z" "z < d" "0 \<le> x" "x < w"
  shows "\<exists>g'. setCell g y z x v = Inr g' \<and> wfGrid g' h d w"
proof -
  note n = wfGrid_nth [OF assms(1-5)]
  let ?row = "(g ! nat y ! nat z)[nat x := v]"
  let ?layer = "(g ! nat y)[nat z := ?row]"
  have eq: "setCell g y z x v = Inr (g[nat y := ?layer])"
    using n assms by (simp add: setCell_def)
  have ly: "g ! nat y \<in> set g" using n(1) by simp
  have rows: "\<forall>row \<in> set (g ! nat y). length row = nat w"
    using ly assms(1) by (simp add: wfGrid_def)
  have "set ?layer \<subseteq> insert ?row (set (g ! nat y))" by (rule set_update_subset_insert)
  with rows n(3) have "\<forall>row \<in> set ?layer. length row = nat w" by auto
  moreover have "length ?layer = nat d" using ly assms(1) by (simp add: wfGrid_def)
  ultimately have "wfGrid (g[nat y := ?layer]) h d w"
    by (intro wfGrid_update [OF assms(1)])
  with eq show ?thesis by simp
qed

lemma placeCells_wf:
  "wfGrid g (tt_height st) (tt_depth st) (tt_width st) \<Longrightarrow>
     \<exists>g'. placeCells st col cells g = Inr g' \<and> wfGrid g' (tt_height st) (tt_depth st) (tt_width st)"
proof (induction cells arbitrary: g)
  case Nil
  then show ?case by simp
next
  case (Cons c cells)
  show ?case
  proof (cases "inBounds st c")
    case False
    with Cons.IH [OF Cons.prems] show ?thesis by (simp only: placeCells_Cons if_False)
  next
    case True
    then have b: "0 \<le> v3y c" "v3y c < tt_height st" "0 \<le> v3z c" "v3z c < tt_depth st"
        "0 \<le> v3x c" "v3x c < tt_width st"
      by (simp_all add: inBounds_def)
    from setCell_wf [OF Cons.prems b] obtain g1 where
      g1: "setCell g (v3y c) (v3z c) (v3x c) \<lparr>gc_filled = True, gc_color = col\<rparr> = Inr g1"
      and w1: "wfGrid g1 (tt_height st) (tt_depth st) (tt_width st)"
      by blast
    from Cons.IH [OF w1] g1 True show ?thesis
      by (simp only: placeCells_Cons if_True sum.case)
  qed
qed

lemma scanLayer_wf:
  assumes "wfGrid g h d w" "0 \<le> y" "y < h"
  shows "(\<forall>(z, x) \<in> set zs. 0 \<le> z \<and> z < d \<and> 0 \<le> x \<and> x < w) \<Longrightarrow> \<exists>b. scanLayer g y zs = Inr b"
proof (induction zs)
  case Nil
  then show ?case by auto
next
  case (Cons a zs)
  obtain z x where a: "a = (z, x)" by (cases a)
  with Cons.prems have b: "0 \<le> z" "z < d" "0 \<le> x" "x < w" by simp_all
  from cellAt_wf [OF assms b] obtain c where c: "cellAt g y z x = Inr c" by blast
  from Cons.IH Cons.prems obtain r where "scanLayer g y zs = Inr r" by auto
  with c a show ?case by auto
qed

lemma layerCells_range: "\<forall>(z, x) \<in> set (layerCells d w). 0 \<le> z \<and> z < d \<and> 0 \<le> x \<and> x < w"
  by (auto simp: layerCells_def)

lemma findCompleted_wf:
  assumes "wfGrid g h d w"
  shows "(\<forall>y \<in> set ys. 0 \<le> y \<and> y < h) \<Longrightarrow>
           \<exists>cs. findCompleted g d w ys = Inr cs \<and> set cs \<subseteq> set ys"
proof (induction ys)
  case Nil
  then show ?case by simp
next
  case (Cons y ys)
  then have b: "0 \<le> y" "y < h" by simp_all
  from scanLayer_wf [OF assms b layerCells_range] obtain c where
    c: "scanLayer g y (layerCells d w) = Inr c" by blast
  from Cons obtain cs where cs: "findCompleted g d w ys = Inr cs" "set cs \<subseteq> set ys" by auto
  with c show ?case by auto
qed

lemma emptyLayer_wf:
  "length (emptyLayer d w) = nat d \<and> (\<forall>row \<in> set (emptyLayer d w). length row = nat w)"
  by (auto simp: emptyLayer_def)

lemma removeLayer_wf:
  assumes "wfGrid g h d w" "0 \<le> y" "y < h"
  shows "wfGrid (removeLayer d w y g) h d w"
proof -
  from assms have y: "nat y < length g" by (simp add: wfGrid_def)
  have "length (removeLayer d w y g) = length g"
    using y by (simp add: removeLayer_def)
  with assms(1) have len: "length (removeLayer d w y g) = nat h"
    by (simp add: wfGrid_def)
  have "set (removeLayer d w y g) \<subseteq> insert (emptyLayer d w) (set g)"
    by (auto simp: removeLayer_def dest: in_set_takeD in_set_dropD)
  with assms(1) emptyLayer_wf [of d w] len show ?thesis
    by (auto simp: wfGrid_def)
qed

lemma clearLayers_wf:
  "wfGrid g h d w \<Longrightarrow> (\<forall>y \<in> set cs. 0 \<le> y \<and> y < h) \<Longrightarrow> wfGrid (clearLayers d w cs g) h d w"
proof -
  have "wfGrid g h d w \<Longrightarrow> (\<forall>y \<in> set ys. 0 \<le> y \<and> y < h) \<Longrightarrow>
          wfGrid (fold (removeLayer d w) ys g) h d w" for ys
    by (induction ys arbitrary: g) (simp_all add: removeLayer_wf)
  from this [of "rev cs"] show "wfGrid g h d w \<Longrightarrow> (\<forall>y \<in> set cs. 0 \<le> y \<and> y < h) \<Longrightarrow>
      wfGrid (clearLayers d w cs g) h d w"
    by (simp add: clearLayers_def)
qed

lemma cellsValid_wf:
  "wfState st \<Longrightarrow> \<exists>b. cellsValid st cells = Inr b"
proof (induction cells)
  case Nil
  then show ?case by auto
next
  case (Cons c cells)
  then obtain r where r: "cellsValid st cells = Inr r" by auto
  show ?case
  proof (cases "inBounds st c")
    case False
    then show ?thesis by (auto simp: inBounds_def)
  next
    case True
    then have b: "0 \<le> v3y c" "v3y c < tt_height st" "0 \<le> v3z c" "v3z c < tt_depth st"
        "0 \<le> v3x c" "v3x c < tt_width st"
      by (simp_all add: inBounds_def)
    from cellAt_wf [OF Cons.prems [unfolded wfState_def] b] obtain gc where
      "cellAt (tt_grid st) (v3y c) (v3z c) (v3x c) = Inr gc" by blast
    with r show ?thesis by auto
  qed
qed

lemma isValidPosition_wf: "wfState st \<Longrightarrow> \<exists>b. isValidPosition st piece = Inr b"
  by (simp add: isValidPosition_def cellsValid_wf)

lemma lockPiece_wf:
  assumes "wfState s"
  shows "\<exists>s'. lockPiece rnd s = Inr s' \<and> wfState s' \<and>
              (tt_currentPiece s \<noteq> None \<longrightarrow> tt_nextPiece s' = randomTetracube rnd)"
proof (cases "tt_currentPiece s")
  case None
  with assms show ?thesis by (simp add: lockPiece_def)
next
  case (Some piece)
  let ?h = "tt_height s" and ?d = "tt_depth s" and ?w = "tt_width s"
  from assms have wg: "wfGrid (tt_grid s) ?h ?d ?w" by (simp add: wfState_def)
  from placeCells_wf [OF wg] obtain stamped where
    st: "placeCells s (tetracubeColor (fp_type piece)) (getPieceCells piece) (tt_grid s) = Inr stamped"
    and ws: "wfGrid stamped ?h ?d ?w" by blast
  have "\<forall>y \<in> set [0..?h - 1]. 0 \<le> y \<and> y < ?h" by simp
  from findCompleted_wf [OF ws this] obtain cs where
    cs: "findCompleted stamped ?d ?w [0..?h - 1] = Inr cs" and sub: "set cs \<subseteq> set [0..?h - 1]"
    by blast
  from sub have "\<forall>y \<in> set cs. 0 \<le> y \<and> y < ?h" by auto
  from clearLayers_wf [OF ws this]
  have wc: "wfState (s\<lparr>tt_grid := clearLayers ?d ?w cs stamped\<rparr>)" by (simp add: wfState_def)
  from isValidPosition_wf [OF wc] obtain ok where
    ok: "isValidPosition (s\<lparr>tt_grid := clearLayers ?d ?w cs stamped\<rparr>) (spawnPiece (tt_nextPiece s)) = Inr ok"
    by blast
  from Some st cs ok wc show ?thesis
    by (simp add: lockPiece_def Let_def wfState_def)
qed

lemma tetris_init_wf: "wfState (tetris_init rnd)"
  by (auto simp: wfState_def wfGrid_def tetris_init_def emptyLayer_def cubeHeight_def cubeDepth_def
      cubeWidth_def)

text \<open>
  Tetris blocked drop (claim C8 as amended). For a current piece that cannot move down
  one cell: when the game is not paused, \<open>tick\<close> locks the piece, that is, it stamps the
  piece's cells into the grid (every cell of a piece that fits is filled, with the
  piece's colour), removes the completed layers, re-enables hold and makes the spawned
  next piece current (or ends the game); on a well-formed grid the lock always returns
  a state, whose grid is well-formed again. When the game is paused, \<open>tick\<close> leaves the
  state unchanged. A soft drop does not lock: it returns the state unchanged.
\<close>

theorem tetris_blocked_drop:
  assumes "tt_currentPiece s = Some piece" and "blockedBelow s piece"
  shows "(\<not> tt_isPaused s \<longrightarrow> tetris_applyAction rnd s TtTick = lockPiece rnd s) \<and>
         (tt_isPaused s \<longrightarrow> tetris_applyAction rnd s TtTick = Inr s) \<and>
         tetris_applyAction rnd s (TtDrop Soft) = Inr s \<and>
         (wfState s \<longrightarrow> (\<exists>s'. lockPiece rnd s = Inr s' \<and> wfState s')) \<and>
         (\<forall>s'. lockPiece rnd s = Inr s' \<longrightarrow>
            (\<exists>stamped completedLayers.
               placeCells s (tetracubeColor (fp_type piece)) (getPieceCells piece) (tt_grid s) = Inr stamped \<and>
               (isValidPosition s piece = Inr True \<longrightarrow>
                  (\<forall>c \<in> set (getPieceCells piece).
                     cellAt stamped (v3y c) (v3z c) (v3x c)
                       = Inr \<lparr>gc_filled = True, gc_color = tetracubeColor (fp_type piece)\<rparr>)) \<and>
               findCompleted stamped (tt_depth s) (tt_width s) [0..tt_height s - 1] = Inr completedLayers \<and>
               tt_grid s' = clearLayers (tt_depth s) (tt_width s) completedLayers stamped \<and>
               tt_canHold s' \<and>
               (if tt_isGameOver s' then tt_currentPiece s' = None
                else tt_currentPiece s' = Some (spawnPiece (tt_nextPiece s)))))"
proof -
  from assms have down: "isValidPosition s (translated piece 0 (-1) 0) = Inr False"
    by (simp add: blockedBelow_def)
  have t1: "tetris_applyAction rnd s TtTick = lockPiece rnd s" if "\<not> tt_isPaused s"
    using that assms(1) down by (simp add: tetris_applyAction_def tick_def Let_def)
  have t2: "tetris_applyAction rnd s TtTick = Inr s" if "tt_isPaused s"
    using that assms(1) by (simp add: tetris_applyAction_def tick_def)
  have t3: "tetris_applyAction rnd s (TtDrop Soft) = Inr s"
    using assms(1) down by (simp add: tetris_applyAction_def softDrop_def Let_def)
  have t4: "\<exists>stamped completedLayers.
               placeCells s (tetracubeColor (fp_type piece)) (getPieceCells piece) (tt_grid s) = Inr stamped \<and>
               (isValidPosition s piece = Inr True \<longrightarrow>
                  (\<forall>c \<in> set (getPieceCells piece).
                     cellAt stamped (v3y c) (v3z c) (v3x c)
                       = Inr \<lparr>gc_filled = True, gc_color = tetracubeColor (fp_type piece)\<rparr>)) \<and>
               findCompleted stamped (tt_depth s) (tt_width s) [0..tt_height s - 1] = Inr completedLayers \<and>
               tt_grid s' = clearLayers (tt_depth s) (tt_width s) completedLayers stamped \<and>
               tt_canHold s' \<and>
               (if tt_isGameOver s' then tt_currentPiece s' = None
                else tt_currentPiece s' = Some (spawnPiece (tt_nextPiece s)))"
    if l: "lockPiece rnd s = Inr s'" for s'
  proof -
    from lockPiece_result [OF assms(1) l] obtain stamped completedLayers where
      r: "placeCells s (tetracubeColor (fp_type piece)) (getPieceCells piece) (tt_grid s) = Inr stamped"
        "findCompleted stamped (tt_depth s) (tt_width s) [0..tt_height s - 1] = Inr completedLayers"
        "tt_grid s' = clearLayers (tt_depth s) (tt_width s) completedLayers stamped"
        "tt_canHold s'"
        "if tt_isGameOver s' then tt_currentPiece s' = None
         else tt_currentPiece s' = Some (spawnPiece (tt_nextPiece s))"
      by blast
    have "cellAt stamped (v3y c) (v3z c) (v3x c)
            = Inr \<lparr>gc_filled = True, gc_color = tetracubeColor (fp_type piece)\<rparr>"
      if v: "isValidPosition s piece = Inr True" and c: "c \<in> set (getPieceCells piece)" for c
      using placeCells_filled [OF r(1) c cellsValid_bounds [OF v [unfolded isValidPosition_def] c]] .
    with r show ?thesis by blast
  qed
  have t5: "\<exists>s'. lockPiece rnd s = Inr s' \<and> wfState s'" if "wfState s"
    using lockPiece_wf [OF that, of rnd] by blast
  from t1 t2 t3 t4 t5 show ?thesis by blast
qed

text \<open>A state with an empty 6x6x12 grid and an I piece lying on the floor.\<close>

definition flooredPiece :: FallingPiece3D where
  "flooredPiece = \<lparr>fp_type = TcI, fp_position = \<lparr>v3x = 1, v3y = 0, v3z = 2\<rparr>,
                    fp_rotationX = 0, fp_rotationY = 0, fp_rotationZ = 0\<rparr>"

definition flooredState :: Tetris3DGameState where
  "flooredState = (tetris_init (sconst 0))\<lparr>tt_currentPiece := Some flooredPiece\<rparr>"

lemma flooredState_blocked: "blockedBelow flooredState flooredPiece"
  by (simp add: blockedBelow_def isValidPosition_def getPieceCells_def flooredPiece_def
      flooredState_def tetris_init_def translated_def rotatePoint_def mkV_def cubeWidth_def
      cubeDepth_def cubeHeight_def)


lemma flooredState_current: "tt_currentPiece flooredState = Some flooredPiece"
  by (simp add: flooredState_def)

lemma flooredState_wf: "wfState flooredState"
  using tetris_init_wf [of "sconst 0"] by (simp add: flooredState_def wfState_def)

lemma lockPiece_current:
  "tt_currentPiece s = Some piece \<Longrightarrow> lockPiece rnd s = Inr s' \<Longrightarrow>
     tt_currentPiece s' = None \<or> tt_currentPiece s' = Some (spawnPiece (tt_nextPiece s))"
  by (auto simp: lockPiece_def Let_def split: sum.splits if_splits)

text \<open>
  Claim C8 as stated fails for the soft drop: with the I piece lying on the floor of the
  empty grid, \<open>drop soft\<close> returns the state unchanged, which is not what \<open>tick\<close> (the
  lock) returns.
\<close>

theorem tetris_soft_drop_counterexample:
  "tt_currentPiece flooredState = Some flooredPiece \<and> blockedBelow flooredState flooredPiece \<and>
   \<not> tt_isPaused flooredState \<and>
   tetris_applyAction (sconst 0) flooredState (TtDrop Soft) = Inr flooredState \<and>
   tetris_applyAction (sconst 0) flooredState TtTick = lockPiece (sconst 0) flooredState \<and>
   tetris_applyAction (sconst 0) flooredState (TtDrop Soft)
     \<noteq> tetris_applyAction (sconst 0) flooredState TtTick"
proof -
  have np: "\<not> tt_isPaused flooredState"
    by (simp add: flooredState_def tetris_init_def)
  from flooredState_blocked have down:
    "isValidPosition flooredState (translated flooredPiece 0 (-1) 0) = Inr False"
    by (simp add: blockedBelow_def)
  have soft: "tetris_applyAction (sconst 0) flooredState (TtDrop Soft) = Inr flooredState"
    using flooredState_current down by (simp add: tetris_applyAction_def softDrop_def Let_def)
  have tk: "tetris_applyAction (sconst 0) flooredState TtTick = lockPiece (sconst 0) flooredState"
    using flooredState_current down np by (simp add: tetris_applyAction_def tick_def Let_def)
  have "lockPiece (sconst 0) flooredState \<noteq> Inr flooredState"
  proof
    assume "lockPiece (sconst 0) flooredState = Inr flooredState"
    from lockPiece_current [OF flooredState_current this]
    show False
      by (simp add: flooredState_def flooredPiece_def spawnPiece_def cubeHeight_def)
  qed
  with soft tk np flooredState_current flooredState_blocked show ?thesis by simp
qed

theorem tetris_blocked_drop_witness:
  "tt_currentPiece flooredState = Some flooredPiece \<and> blockedBelow flooredState flooredPiece \<and>
   \<not> tt_isPaused flooredState \<and> wfState flooredState \<and>
   tetris_applyAction (sconst 0) flooredState TtTick = lockPiece (sconst 0) flooredState \<and>
   tetris_applyAction (sconst 0) flooredState (TtDrop Soft) = Inr flooredState \<and>
   (\<exists>s'. lockPiece (sconst 0) flooredState = Inr s' \<and> wfState s')"
proof -
  have np: "\<not> tt_isPaused flooredState"
    by (simp add: flooredState_def tetris_init_def)
  from tetris_blocked_drop [OF flooredState_current flooredState_blocked, of "sconst 0"] np
    flooredState_current flooredState_blocked flooredState_wf
  show ?thesis by blast
qed


section \<open>Determinism of applyAction\<close>

text \<open>
  The transitions that call \<^verbatim>\<open>Math.random\<close>: a Snake move that eats the food (the food is
  respawned), the first Minesweeper reveal (the mines are placed), and in Tetris a hard
  drop, a tick that locks the piece, and a hold into an empty slot (the next piece is
  drawn). Nonogram's \<open>applyAction\<close> takes no random source at all.
\<close>

definition snakeRespawnsFood :: "SnakeGameState \<Rightarrow> bool" where
  "snakeRespawnsFood s \<longleftrightarrow>
     \<not> sn_isPaused s \<and> \<not> sn_isGameOver s \<and>
     (case sn_snake s of
        [] \<Rightarrow> False
      | head # _ \<Rightarrow>
          (let newHead = movePosition head (DIRECTION_DELTAS (sn_nextDirection s)) (sn_gridSize s)
           in \<not> (\<exists>segment \<in> set (sn_snake s). positionsEqual segment newHead) \<and>
              positionsEqual newHead (sn_food s)))"

definition snakeDrawsRandom :: "SnakeGameState \<Rightarrow> SnakeAction \<Rightarrow> bool" where
  "snakeDrawsRandom s a \<longleftrightarrow> a = SnMove \<and> snakeRespawnsFood s"

definition minesweeperDrawsRandom :: "MinesweeperGameState \<Rightarrow> MinesweeperAction \<Rightarrow> bool" where
  "minesweeperDrawsRandom s a \<longleftrightarrow>
     \<not> ms_isGameOver s \<and> ms_isFirstClick s \<and> (case a of MsReveal _ \<Rightarrow> True | _ \<Rightarrow> False)"

definition tetrisDrawsRandom :: "Tetris3DGameState \<Rightarrow> Tetris3DAction \<Rightarrow> bool" where
  "tetrisDrawsRandom s a \<longleftrightarrow>
     (case tt_currentPiece s of
        None \<Rightarrow> False
      | Some piece \<Rightarrow>
          (case a of
             TtDrop kind \<Rightarrow> kind = Hard
           | TtTick \<Rightarrow> \<not> tt_isPaused s \<and> blockedBelow s piece
           | TtHold \<Rightarrow> tt_canHold s \<and> tt_heldPiece s = None
           | _ \<Rightarrow> False))"

lemma snake_deterministic:
  "\<not> snakeDrawsRandom s a \<Longrightarrow>
     snake_applyAction rotUp rawTurns r1 s a = snake_applyAction rotUp rawTurns r2 s a"
  by (cases a; cases "sn_snake s")
     (auto simp: snakeDrawsRandom_def snakeRespawnsFood_def snake_applyAction_def moveSnake_def Let_def)

lemma minesweeper_deterministic:
  "\<not> minesweeperDrawsRandom s a \<Longrightarrow>
     minesweeper_applyAction r1 s a = minesweeper_applyAction r2 s a"
  by (cases a) (auto simp: minesweeperDrawsRandom_def minesweeper_applyAction_def)

lemma tetris_deterministic:
  "\<not> tetrisDrawsRandom s a \<Longrightarrow> tetris_applyAction r1 s a = tetris_applyAction r2 s a"
proof (cases "tt_currentPiece s")
  case None
  then show ?thesis
    by (cases a)
       (simp_all add: tetris_applyAction_def hardDrop_def tick_def holdPiece_def)
next
  case (Some piece)
  assume n: "\<not> tetrisDrawsRandom s a"
  show ?thesis
  proof (cases a)
    case (TtDrop kind)
    with n Some show ?thesis by (simp add: tetrisDrawsRandom_def tetris_applyAction_def)
  next
    case TtTick
    with n Some have "tt_isPaused s \<or> isValidPosition s (translated piece 0 (-1) 0) \<noteq> Inr False"
      by (simp add: tetrisDrawsRandom_def blockedBelow_def)
    with Some TtTick show ?thesis
      by (cases "isValidPosition s (translated piece 0 (-1) 0)")
         (auto simp: tetris_applyAction_def tick_def Let_def)
  next
    case TtHold
    with n Some show ?thesis
      by (cases "tt_heldPiece s")
         (auto simp: tetrisDrawsRandom_def tetris_applyAction_def holdPiece_def)
  qed (simp_all add: tetris_applyAction_def)
qed

text \<open>
  Determinism of \<open>applyAction\<close> (claim C5 as amended). The new state is a function of
  the state, the action and the numbers that \<^verbatim>\<open>Math.random\<close> returns during the call; it
  does not depend on those numbers, so that two applications to the same state and
  action give equal results, for every Snake action except a move that eats the food,
  for every Minesweeper action except the first reveal, and for every Tetris action
  except a hard drop, a tick that locks the piece and a hold into an empty slot.
\<close>

theorem applyAction_deterministic:
  "(\<not> snakeDrawsRandom sn a \<longrightarrow>
      snake_applyAction rotUp rawTurns r1 sn a = snake_applyAction rotUp rawTurns r2 sn a) \<and>
   (\<not> minesweeperDrawsRandom ms b \<longrightarrow>
      minesweeper_applyAction r1 ms b = minesweeper_applyAction r2 ms b) \<and>
   (\<not> tetrisDrawsRandom tt c \<longrightarrow>
      tetris_applyAction r1 tt c = tetris_applyAction r2 tt c)"
  using snake_deterministic minesweeper_deterministic tetris_deterministic by blast

text \<open>A snake about to eat: the food lies right in front of the head.\<close>

definition feedingSnake :: SnakeGameState where
  "feedingSnake =
     \<lparr>sn_snake = [\<lparr>face = FRONT, px = 4, py = 4\<rparr>, \<lparr>face = FRONT, px = 3, py = 4\<rparr>,
                  \<lparr>face = FRONT, px = 2, py = 4\<rparr>],
      sn_direction = DirRight, sn_nextDirection = DirRight,
      sn_food = \<lparr>face = FRONT, px = 5, py = 4\<rparr>, sn_score = 0, sn_speed = 200,
      sn_isGameOver = False, sn_isPaused = False, sn_gridSize = 8,
      sn_cameraUp = \<lparr>vx = 0, vy = 1, vz = 0\<rparr>\<rparr>"

lemma feedingSnake_food_0:
  "snake_applyAction (\<lambda>f t v. v) (\<lambda>v f. 0) (sconst 0) feedingSnake SnMove = Inr s' \<Longrightarrow>
     sn_food s' = \<lparr>face = FRONT, px = 0, py = 0\<rparr>"
  by (auto simp: snake_applyAction_def moveSnake_def feedingSnake_def movePosition_def
      positionsEqual_def spawnFood_def spawnFoodLoop.simps randomIndex_def SNAKE_FACES_def
      SNAKE_GRID_SIZE_def Let_def)

lemma feedingSnake_food_half:
  "snake_applyAction (\<lambda>f t v. v) (\<lambda>v f. 0) (sconst (1/2)) feedingSnake SnMove = Inr s' \<Longrightarrow>
     sn_food s' = \<lparr>face = RIGHT, px = 4, py = 4\<rparr>"
  by (auto simp: snake_applyAction_def moveSnake_def feedingSnake_def movePosition_def
      positionsEqual_def spawnFood_def spawnFoodLoop.simps randomIndex_def SNAKE_FACES_def
      SNAKE_GRID_SIZE_def Let_def)

lemma feedingSnake_Inr:
  "\<exists>s'. snake_applyAction (\<lambda>f t v. v) (\<lambda>v f. 0) rnd feedingSnake SnMove = Inr s'"
  by (simp add: snake_applyAction_def moveSnake_def feedingSnake_def Let_def)

lemma randomTetracube_0: "randomTetracube (sconst 0) = TcI"
  by (simp add: randomTetracube_def randomIndex_def TETRACUBE_TYPES_def)

lemma randomTetracube_half: "randomTetracube (sconst (1/2)) = TcT"
  by (simp add: randomTetracube_def randomIndex_def TETRACUBE_TYPES_def)

text \<open>
  Claim C5 as stated fails: the Snake move that eats the food, and the Tetris tick that
  locks a piece, give different states for different values of \<^verbatim>\<open>Math.random\<close>.
\<close>

theorem applyAction_random_counterexample:
  "snake_applyAction (\<lambda>f t v. v) (\<lambda>v f. 0) (sconst 0) feedingSnake SnMove
     \<noteq> snake_applyAction (\<lambda>f t v. v) (\<lambda>v f. 0) (sconst (1/2)) feedingSnake SnMove \<and>
   tetris_applyAction (sconst 0) flooredState TtTick
     \<noteq> tetris_applyAction (sconst (1/2)) flooredState TtTick"
proof
  obtain s0 where s0: "snake_applyAction (\<lambda>f t v. v) (\<lambda>v f. 0) (sconst 0) feedingSnake SnMove = Inr s0"
    using feedingSnake_Inr by blast
  show "snake_applyAction (\<lambda>f t v. v) (\<lambda>v f. 0) (sconst 0) feedingSnake SnMove
     \<noteq> snake_applyAction (\<lambda>f t v. v) (\<lambda>v f. 0) (sconst (1/2)) feedingSnake SnMove"
  proof
    assume e: "snake_applyAction (\<lambda>f t v. v) (\<lambda>v f. 0) (sconst 0) feedingSnake SnMove
      = snake_applyAction (\<lambda>f t v. v) (\<lambda>v f. 0) (sconst (1/2)) feedingSnake SnMove"
    from feedingSnake_food_0 [OF s0] feedingSnake_food_half [OF s0 [unfolded e]]
    show False by simp
  qed
next
  have np: "\<not> tt_isPaused flooredState"
    by (simp add: flooredState_def tetris_init_def)
  from flooredState_blocked have down:
    "isValidPosition flooredState (translated flooredPiece 0 (-1) 0) = Inr False"
    by (simp add: blockedBelow_def)
  have tk: "tetris_applyAction r flooredState TtTick = lockPiece r flooredState" for r
    using flooredState_current down np by (simp add: tetris_applyAction_def tick_def Let_def)
  from lockPiece_wf [OF flooredState_wf, of "sconst 0"] flooredState_current
  obtain s0 where s0: "lockPiece (sconst 0) flooredState = Inr s0" "tt_nextPiece s0 = TcI"
    by (auto simp: randomTetracube_0)
  from lockPiece_wf [OF flooredState_wf, of "sconst (1/2)"] flooredState_current
  obtain s1 where s1: "lockPiece (sconst (1/2)) flooredState = Inr s1" "tt_nextPiece s1 = TcT"
    by (auto simp: randomTetracube_half)
  from s0 s1 have "lockPiece (sconst 0) flooredState \<noteq> lockPiece (sconst (1/2)) flooredState"
    by auto
  then show "tetris_applyAction (sconst 0) flooredState TtTick
     \<noteq> tetris_applyAction (sconst (1/2)) flooredState TtTick"
    by (simp add: tk)
qed

theorem applyAction_deterministic_witness:
  "\<not> snakeDrawsRandom coiledSnake SnMove \<and>
   snake_applyAction (\<lambda>f t v. v) (\<lambda>v f. 0) (sconst 0) coiledSnake SnMove
     = snake_applyAction (\<lambda>f t v. v) (\<lambda>v f. 0) (sconst (1/2)) coiledSnake SnMove \<and>
   \<not> minesweeperDrawsRandom revealedBoard (MsReveal \<lparr>face = TOP, px = 0, py = 0\<rparr>) \<and>
   minesweeper_applyAction (sconst 0) revealedBoard (MsReveal \<lparr>face = TOP, px = 0, py = 0\<rparr>)
     = minesweeper_applyAction (sconst (1/2)) revealedBoard (MsReveal \<lparr>face = TOP, px = 0, py = 0\<rparr>) \<and>
   \<not> tetrisDrawsRandom flooredState (TtDrop Soft) \<and>
   tetris_applyAction (sconst 0) flooredState (TtDrop Soft)
     = tetris_applyAction (sconst (1/2)) flooredState (TtDrop Soft)"
proof -
  have a: "\<not> snakeDrawsRandom coiledSnake SnMove"
    by (simp add: snakeDrawsRandom_def snakeRespawnsFood_def coiledSnake_def movePosition_def
        positionsEqual_def)
  have b: "\<not> minesweeperDrawsRandom revealedBoard (MsReveal \<lparr>face = TOP, px = 0, py = 0\<rparr>)"
    by (simp add: minesweeperDrawsRandom_def revealedBoard_def)
  have c: "\<not> tetrisDrawsRandom flooredState (TtDrop Soft)"
    by (simp add: tetrisDrawsRandom_def flooredState_current)
  from applyAction_deterministic [of coiledSnake SnMove "\<lambda>f t v. v" "\<lambda>v f. 0" "sconst 0" "sconst (1/2)"
      revealedBoard "MsReveal \<lparr>face = TOP, px = 0, py = 0\<rparr>" flooredState "TtDrop Soft"] a b c
  show ?thesis by blast
qed

end
